theory Spec2Isabelle
  imports Main
begin

section \<open>JavaScript strings\<close>

text \<open>
  A JavaScript string is modelled as a \<open>string\<close> whose characters are the code units
  \<open>0..255\<close> (Latin-1). On that range \<open>String.prototype.toLowerCase\<close> maps one
  code unit to one code unit: \<open>A..Z\<close> and the accented capitals \<open>0xC0..0xDE\<close>
  (without the multiplication sign \<open>0xD7\<close>) move up by 32, which is setting bit 5;
  every other code unit stays.
\<close>

definition toLowerCase_char :: "char \<Rightarrow> char" where
  "toLowerCase_char c =
     (let n = (of_char c :: nat) in
      if (65 \<le> n \<and> n \<le> 90) \<or> (192 \<le> n \<and> n \<le> 222 \<and> n \<noteq> 215)
      then (case c of Char b0 b1 b2 b3 b4 b5 b6 b7 \<Rightarrow> Char b0 b1 b2 b3 b4 True b6 b7)
      else c)"

definition toLowerCase :: "string \<Rightarrow> string" where
  "toLowerCase s = map toLowerCase_char s"

text \<open>The character class \<open>[a-z0-9]\<close> of the regular expression in \<open>sanitizeUserKeyPart\<close>.\<close>

definition in_a_z_0_9 :: "char \<Rightarrow> bool" where
  "in_a_z_0_9 c =
     (let n = (of_char c :: nat) in (97 \<le> n \<and> n \<le> 122) \<or> (48 \<le> n \<and> n \<le> 57))"

text \<open>\<open>String(value).toLowerCase().replace(/[^a-z0-9]/g, "_")\<close> (popup.js, sanitizeUserKeyPart).\<close>

definition sanitizeUserKeyPart :: "string \<Rightarrow> string" where
  "sanitizeUserKeyPart v =
     map (\<lambda>c. if in_a_z_0_9 c then c else CHR ''_'') (toLowerCase v)"

section \<open>Identities and the storage key\<close>

text \<open>
  The user object of popup.js. A field that is \<open>null\<close> or \<open>undefined\<close> is \<open>None\<close>.
  The display name is \<open>user_name\<close> here, since \<open>name\<close> is a field of a show as well.
\<close>

record user =
  user_name :: "string option"
  email :: "string option"
  picture :: "string option"
  googleId :: "string option"
  userId :: "string option"
  token :: "string option"
  source :: "string option"

text \<open>
  JavaScript truthiness of an optional string: \<open>null\<close>, \<open>undefined\<close> and the empty string
  are falsy. \<open>truthy_string\<close> returns the string when it is truthy.
\<close>

fun truthy_string :: "string option \<Rightarrow> string option" where
  "truthy_string None = None"
| "truthy_string (Some s) = (if s = [] then None else Some s)"

text \<open>
  The argument of \<open>getUserShowsKey\<close>: nothing (\<open>null\<close>, \<open>undefined\<close>), a plain string
  or a user object.
\<close>

datatype userOrEmail = NoUser | UserString string | UserObject user

definition getUserShowsKey :: "userOrEmail \<Rightarrow> string option" where
  "getUserShowsKey userOrEmail =
     (case userOrEmail of
        NoUser \<Rightarrow> None
      | UserString s \<Rightarrow>
          (if s = [] then None else Some (''shows_'' @ sanitizeUserKeyPart s))
      | UserObject u \<Rightarrow>
          (case truthy_string (email u) of
             Some e \<Rightarrow> Some (''shows_'' @ sanitizeUserKeyPart e)
           | None \<Rightarrow>
               (case truthy_string (googleId u) of
                  Some g \<Rightarrow> Some (''shows_google_'' @ sanitizeUserKeyPart g)
                | None \<Rightarrow>
                    (case truthy_string (userId u) of
                       Some i \<Rightarrow> Some (''shows_user_'' @ sanitizeUserKeyPart i)
                     | None \<Rightarrow> None))))"

section \<open>Episodes, next-episode selection and staleness (tvmazeApi.js)\<close>

text \<open>
  \<open>computeNextEpisode\<close> builds an object with the three fields \<open>season\<close>,
  \<open>number\<close> and \<open>airstamp\<close> of an episode; an episode of the catalogue carries
  more fields, so it is an extension of that record.
\<close>

record next_episode =
  season :: "int option"
  number :: "int option"
  airstamp :: "string option"

record episode = next_episode +
  ep_id :: int
  ep_name :: "string option"

text \<open>
  \<open>Date.parse\<close> and \<open>Date.now()\<close> are parameters: \<open>parse s\<close> is the number of
  milliseconds since the epoch, \<open>None\<close> when \<open>Date.parse\<close> yields \<open>NaN\<close>, and
  \<open>now\<close> is the one reading of the clock that the function takes.
\<close>

type_synonym date_parse = "string \<Rightarrow> int option"

definition TWO_HOURS_MS :: int where
  "TWO_HOURS_MS = 2 * 60 * 60 * 1000"

text \<open>
  The comparison \<open>airTime < Date.parse(next.airstamp)\<close>; a comparison with \<open>NaN\<close>
  is false.
\<close>

definition earlier_than :: "date_parse \<Rightarrow> int \<Rightarrow> next_episode \<Rightarrow> bool" where
  "earlier_than parse airTime nxt =
     (case airstamp nxt of
        None \<Rightarrow> False
      | Some a \<Rightarrow> (case parse a of None \<Rightarrow> False | Some t \<Rightarrow> airTime < t))"

text \<open>The body of the \<open>for\<close> loop of \<open>computeNextEpisode\<close>, with \<open>nxt\<close> the variable \<open>next\<close>.\<close>

fun computeNextEpisode_loop ::
  "date_parse \<Rightarrow> int \<Rightarrow> next_episode option \<Rightarrow> episode list \<Rightarrow> next_episode option" where
  "computeNextEpisode_loop parse now nxt [] = nxt"
| "computeNextEpisode_loop parse now nxt (ep # eps) =
     (case truthy_string (airstamp ep) of
        None \<Rightarrow> computeNextEpisode_loop parse now nxt eps
      | Some a \<Rightarrow>
          (case parse a of
             None \<Rightarrow> computeNextEpisode_loop parse now nxt eps
           | Some airTime \<Rightarrow>
               if airTime > now \<and>
                  (case nxt of None \<Rightarrow> True | Some n \<Rightarrow> earlier_than parse airTime n)
               then computeNextEpisode_loop parse now
                      (Some \<lparr>season = season ep, number = number ep, airstamp = airstamp ep\<rparr>) eps
               else computeNextEpisode_loop parse now nxt eps))"

definition computeNextEpisode :: "date_parse \<Rightarrow> int \<Rightarrow> episode list \<Rightarrow> next_episode option" where
  "computeNextEpisode parse now episodes = computeNextEpisode_loop parse now None episodes"

definition isFetchStale :: "date_parse \<Rightarrow> int \<Rightarrow> string option \<Rightarrow> bool" where
  "isFetchStale parse now lastFetchedAtIso =
     (case truthy_string lastFetchedAtIso of
        None \<Rightarrow> True
      | Some s \<Rightarrow> (case parse s of None \<Rightarrow> True | Some last_ms \<Rightarrow> now - last_ms > TWO_HOURS_MS))"

text \<open>
  The air time of an episode as the loop reads it: the parsed \<open>airstamp\<close>, or nothing when
  the stamp is missing, empty or unparsable.
\<close>

definition airTimeOf :: "date_parse \<Rightarrow> 'a next_episode_scheme \<Rightarrow> int option" where
  "airTimeOf parse ep = (case truthy_string (airstamp ep) of None \<Rightarrow> None | Some a \<Rightarrow> parse a)"

text \<open>
  The object that the loop stores in \<open>next\<close> for an episode, and the condition under
  which an episode can be chosen at all: its air time exists and lies after \<open>now\<close>.
\<close>

definition nextOf :: "episode \<Rightarrow> next_episode" where
  "nextOf ep = \<lparr>season = season ep, number = number ep, airstamp = airstamp ep\<rparr>"

definition airsAfter :: "date_parse \<Rightarrow> int \<Rightarrow> 'a next_episode_scheme \<Rightarrow> bool" where
  "airsAfter parse now ep = (case airTimeOf parse ep of None \<Rightarrow> False | Some t \<Rightarrow> now < t)"

text \<open>One iteration of the loop, as a function of the variable \<open>next\<close>.\<close>

definition nextStep ::
  "date_parse \<Rightarrow> int \<Rightarrow> next_episode option \<Rightarrow> episode \<Rightarrow> next_episode option" where
  "nextStep parse now nxt ep =
     (case airTimeOf parse ep of
        None \<Rightarrow> nxt
      | Some t \<Rightarrow>
          if now < t \<and> (case nxt of None \<Rightarrow> True | Some n \<Rightarrow> earlier_than parse t n)
          then Some (nextOf ep) else nxt)"

definition nextOK :: "date_parse \<Rightarrow> int \<Rightarrow> next_episode option \<Rightarrow> bool" where
  "nextOK parse now nxt = (case nxt of None \<Rightarrow> True | Some n \<Rightarrow> airsAfter parse now n)"

subsection \<open>The key as the specification words it\<close>

text \<open>
  The fields of an identity in priority order, each with the prefix its key gets, and the
  key built from the first field that a predicate \<open>usable\<close> accepts. With \<open>non_null\<close>
  this is the derivation "from the first non-null field"; with \<open>non_empty\<close> it is the
  derivation from the first field that is neither null nor the empty string.
\<close>

definition priorityFields :: "user \<Rightarrow> (string \<times> string option) list" where
  "priorityFields u =
     [(''shows_'', email u), (''shows_google_'', googleId u), (''shows_user_'', userId u)]"

definition keyOfFirstField :: "(string option \<Rightarrow> bool) \<Rightarrow> user \<Rightarrow> string option" where
  "keyOfFirstField usable u =
     (case List.find (\<lambda>pf. usable (snd pf)) (priorityFields u) of
        None \<Rightarrow> None
      | Some pf \<Rightarrow>
          (case snd pf of
             None \<Rightarrow> None
           | Some v \<Rightarrow> Some (fst pf @ sanitizeUserKeyPart v)))"

definition non_null :: "string option \<Rightarrow> bool" where
  "non_null f = (f \<noteq> None)"

definition non_empty :: "string option \<Rightarrow> bool" where
  "non_empty f = (truthy_string f \<noteq> None)"

section \<open>Tracked shows\<close>

text \<open>
  The \<open>id\<close> of a show is a number (TVmaze), a string (\<open>wd-...\<close>, ids read back from
  the remote rows) or missing. Equality of two \<open>js_id\<close> values is JavaScript's \<open>===\<close>
  on them. \<open>String(id)\<close> is \<open>String_id\<close>; numbers are integers and print in
  decimal.
\<close>

datatype js_id = IdUndefined | IdNull | IdNum int | IdStr string

definition digit_char :: "nat \<Rightarrow> char" where
  "digit_char d = ''0123456789'' ! d"

function String_nat :: "nat \<Rightarrow> string" where
  "String_nat n =
     (if n < 10 then [digit_char n] else String_nat (n div 10) @ [digit_char (n mod 10)])"
  by pat_completeness auto
termination
  by (relation "measure (\<lambda>n. n)") auto

declare String_nat.simps [simp del]

definition String_int :: "int \<Rightarrow> string" where
  "String_int i = (if i < 0 then CHR ''-'' # String_nat (nat (- i)) else String_nat (nat i))"

fun String_id :: "js_id \<Rightarrow> string" where
  "String_id IdUndefined = ''undefined''"
| "String_id IdNull = ''null''"
| "String_id (IdNum n) = String_int n"
| "String_id (IdStr s) = s"

fun truthy_id :: "js_id \<Rightarrow> bool" where
  "truthy_id IdUndefined = False"
| "truthy_id IdNull = False"
| "truthy_id (IdNum n) = (n \<noteq> 0)"
| "truthy_id (IdStr s) = (s \<noteq> [])"

text \<open>
  A show object. A field that is absent, \<open>undefined\<close> or \<open>null\<close> is \<open>None\<close>;
  \<open>genres\<close> is \<open>None\<close> when the field is not an array. The field \<open>id\<close> is
  \<open>show_id\<close> and \<open>image\<close> is \<open>image_url\<close> here.
\<close>

record tracked_show =
  show_id :: js_id
  name :: "string option"
  image_url :: "string option"
  genres :: "string list option"
  status :: "string option"
  summary :: "string option"
  contentType :: "string option"
  premiered :: "string option"
  nextEpisode :: "next_episode option"
  allEpisodesLastFetchedAt :: "string option"
  watched :: "bool option"
  watchedAt :: "string option"
  watchedEpisode :: "int option"
  priority :: "bool option"
  watchLink :: "string option"
  lastWatchedAt :: "string option"
  needsRefresh :: "bool option"
  malId :: "string option"
  imdbId :: "string option"
  tvmazeId :: "string option"

text \<open>\<open>x || d\<close> on an optional string, and the truthiness of an optional boolean.\<close>

definition or_string :: "string option \<Rightarrow> string \<Rightarrow> string" where
  "or_string x d = (case truthy_string x of None \<Rightarrow> d | Some s \<Rightarrow> s)"

fun truthy_bool :: "bool option \<Rightarrow> bool" where
  "truthy_bool None = False"
| "truthy_bool (Some b) = b"

subsection \<open>Compact records and remote rows\<close>

text \<open>
  An entry of the compact list: the array \<open>[id, name, type, watched, priority]\<close> or
  the older object \<open>{id, n, t, w, p}\<close>.
\<close>

datatype compact =
    CompactArray js_id "string option" "string option" "int option" "int option"
  | CompactObject js_id "string option" "string option" "bool option" "bool option"

fun compact_id :: "compact \<Rightarrow> js_id" where
  "compact_id (CompactArray i n t w p) = i"
| "compact_id (CompactObject i n t w p) = i"

record supabase_row =
  row_user_id :: "string option"
  row_show_id :: js_id
  row_name_short :: "string option"
  row_content_type :: "string option"
  row_watched :: "bool option"
  row_priority :: "bool option"
  row_updated_at :: int

definition mapShowsToSupabaseRows ::
  "string option \<Rightarrow> int \<Rightarrow> tracked_show list \<Rightarrow> supabase_row list" where
  "mapShowsToSupabaseRows uid now shows =
     map (\<lambda>s. \<lparr>row_user_id = uid,
               row_show_id = IdStr (String_id (show_id s)),
               row_name_short = Some (take 15 (or_string (name s) [])),
               row_content_type = Some (or_string (contentType s) ''tv''),
               row_watched = Some (truthy_bool (watched s)),
               row_priority = Some (truthy_bool (priority s)),
               row_updated_at = now\<rparr>) shows"

text \<open>The arrow function of \<open>mapSupabaseRowsToMinimal\<close>, and the function itself.\<close>

definition supabaseRowToMinimal :: "supabase_row \<Rightarrow> compact" where
  "supabaseRowToMinimal row =
     CompactArray (row_show_id row)
       (Some (or_string (row_name_short row) ''Loading...''))
       (Some (if row_content_type row = Some ''movies'' then ''m''
              else if row_content_type row = Some ''anime'' then ''a'' else ''t''))
       (Some (if truthy_bool (row_watched row) then 1 else 0))
       (Some (if truthy_bool (row_priority row) then 1 else 0))"

definition mapSupabaseRowsToMinimal :: "supabase_row list \<Rightarrow> compact list" where
  "mapSupabaseRowsToMinimal rows = map supabaseRowToMinimal rows"

text \<open>
  The placeholder that \<open>getUserShows\<close> builds from a compact entry (the arrow function
  passed to \<open>missingIds.map\<close>, and again to \<open>syncedIds.map\<close>).
\<close>

fun rebuildShow :: "compact \<Rightarrow> tracked_show" where
  "rebuildShow (CompactArray i n t w p) =
     \<lparr>show_id = i,
      name = Some (or_string n ''Loading...''),
      image_url = None,
      genres = Some [],
      status = Some ''Unknown'',
      summary = Some [],
      contentType = Some (if t = Some ''m'' then ''movies''
                          else if t = Some ''a'' then ''anime'' else ''tv''),
      premiered = None,
      nextEpisode = None,
      allEpisodesLastFetchedAt = None,
      watched = Some (w = Some 1),
      watchedAt = None,
      watchedEpisode = None,
      priority = Some (p = Some 1),
      watchLink = None,
      lastWatchedAt = None,
      needsRefresh = Some True,
      malId = None, imdbId = None, tvmazeId = None\<rparr>"
| "rebuildShow (CompactObject i n t w p) =
     \<lparr>show_id = i,
      name = Some (or_string n ''Loading...''),
      image_url = None,
      genres = Some [],
      status = Some ''Unknown'',
      summary = Some [],
      contentType = Some (or_string t ''tv''),
      premiered = None,
      nextEpisode = None,
      allEpisodesLastFetchedAt = None,
      watched = Some (truthy_bool w),
      watchedAt = None,
      watchedEpisode = None,
      priority = Some (truthy_bool p),
      watchLink = None,
      lastWatchedAt = None,
      needsRefresh = Some True,
      malId = None, imdbId = None, tvmazeId = None\<rparr>"

section \<open>The world: storage tiers, session, remote table\<close>

text \<open>
  The access token of a session together with what \<open>decodeJwtPayload\<close> reads from it
  (\<open>None\<close> when the token cannot be decoded).
\<close>

record jwt_payload =
  jwt_exp :: "int option"
  jwt_sub :: "string option"

record session =
  access_token :: "string option"
  access_payload :: "jwt_payload option"

datatype exn = StorageError | NetworkError

text \<open>What one \<open>fetch\<close> to the remote tier does: reject, answer with an HTTP error and a
  body text, or answer successfully.\<close>

datatype net_outcome = NetReject | NetHttpError string | NetOk

text \<open>
  \<^item> \<open>local_shows\<close>, \<open>local_currentUser\<close>, \<open>local_simpleUser\<close>, \<open>local_session\<close>:
    \<open>chrome.storage.local\<close> under the show keys and under \<open>currentUser\<close>,
    \<open>simpleUser\<close>, \<open>supabaseSession\<close>; \<open>local_shows w k = None\<close> when no array is
    stored under \<open>k\<close>;
  \<^item> \<open>sync_currentUser\<close>, \<open>sync_simpleUser\<close>, \<open>sync_ids\<close>: \<open>chrome.storage.sync\<close>;
  \<open>sync_ids\<close> holds the legacy compact lists;
  \<^item> \<open>currentUser_var\<close>: the module variable \<open>currentUser\<close>;
  \<^item> \<open>remoteTable\<close>: the rows of the remote table \<open>user_shows\<close>;
  \<^item> \<open>clock\<close>: \<open>Date.now()\<close>; \<open>uuids\<close>, \<open>uuidCount\<close>: the values that
    \<open>generateUserId\<close> returns, in order;
  \<^item> \<open>storageFaults\<close>: for the coming calls of \<open>chrome.storage\<close>, in order, whether the
    call rejects (no entry: it succeeds); \<open>network\<close>: likewise what the coming requests
    to the remote tier do (no entry: \<open>NetOk\<close>).
  The fire-and-forget \<open>fetch\<close> calls of the \<open>agent log\<close> regions swallow their own
  failures and take no part in any result; they are left out.
\<close>

record world =
  local_shows :: "string \<Rightarrow> tracked_show list option"
  local_currentUser :: "user option"
  local_simpleUser :: "user option"
  local_session :: "session option"
  sync_currentUser :: "user option"
  sync_simpleUser :: "user option"
  sync_ids :: "string \<Rightarrow> compact list option"
  currentUser_var :: "user option"
  remoteTable :: "supabase_row list"
  clock :: int
  uuids :: "nat \<Rightarrow> string"
  uuidCount :: nat
  storageFaults :: "bool list"
  network :: "net_outcome list"

text \<open>An asynchronous computation: it ends with a value or with a thrown error, in a new world.\<close>

type_synonym 'a io = "world \<Rightarrow> (exn + 'a) \<times> world"

definition io_return :: "'a \<Rightarrow> 'a io" where
  "io_return x w = (Inr x, w)"

definition io_throw :: "exn \<Rightarrow> 'a io" where
  "io_throw e w = (Inl e, w)"

definition io_bind :: "'a io \<Rightarrow> ('a \<Rightarrow> 'b io) \<Rightarrow> 'b io" where
  "io_bind m f w = (case m w of (Inl e, w') \<Rightarrow> (Inl e, w') | (Inr x, w') \<Rightarrow> f x w')"

text \<open>\<open>try { m } catch (e) { h e }\<close>, where the handler does not throw.\<close>

definition io_catch :: "'a io \<Rightarrow> (exn \<Rightarrow> world \<Rightarrow> 'a \<times> world) \<Rightarrow> world \<Rightarrow> 'a \<times> world" where
  "io_catch m h w = (case m w of (Inl e, w') \<Rightarrow> h e w' | (Inr x, w') \<Rightarrow> (x, w'))"

definition io_lift :: "(world \<Rightarrow> 'a \<times> world) \<Rightarrow> 'a io" where
  "io_lift f w = (case f w of (x, w') \<Rightarrow> (Inr x, w'))"

text \<open>One call of \<open>chrome.storage\<close>: it rejects when the next entry of \<open>storageFaults\<close> says so.\<close>

definition storage_call :: "(world \<Rightarrow> 'a \<times> world) \<Rightarrow> 'a io" where
  "storage_call act w =
     (case storageFaults w of
        [] \<Rightarrow> io_lift act w
      | b # bs \<Rightarrow>
          if b then (Inl StorageError, w\<lparr>storageFaults := bs\<rparr>)
          else io_lift act (w\<lparr>storageFaults := bs\<rparr>))"

definition net_call :: "world \<Rightarrow> net_outcome \<times> world" where
  "net_call w = (case network w of [] \<Rightarrow> (NetOk, w) | x # xs \<Rightarrow> (x, w\<lparr>network := xs\<rparr>))"

subsection \<open>Storage helpers (popup.js)\<close>

text \<open>
  \<open>getStorageData(key)\<close> for one key: read sync, then local, prefer sync; any failure
  gives the empty object, so the key is undefined.
\<close>

definition getStorageData ::
  "(world \<Rightarrow> 'a option) \<Rightarrow> (world \<Rightarrow> 'a option) \<Rightarrow> world \<Rightarrow> 'a option \<times> world" where
  "getStorageData sync_sel local_sel =
     io_catch
       (io_bind (storage_call (\<lambda>w. (sync_sel w, w))) (\<lambda>sync.
        io_bind (storage_call (\<lambda>w. (local_sel w, w))) (\<lambda>local.
        io_return (case sync of Some v \<Rightarrow> Some v | None \<Rightarrow> local))))
       (\<lambda>err w. (None, w))"

text \<open>
  \<open>setStorageData(data)\<close>: the write to sync swallows its own failure, the write to
  local is caught by the enclosing \<open>try\<close>.
\<close>

definition setStorageData :: "(world \<Rightarrow> world) \<Rightarrow> (world \<Rightarrow> world) \<Rightarrow> world \<Rightarrow> world" where
  "setStorageData sync_upd local_upd w =
     snd (io_catch
       (io_bind (io_lift (io_catch (storage_call (\<lambda>w. ((), sync_upd w))) (\<lambda>err w. ((), w)))) (\<lambda>u.
        storage_call (\<lambda>w. ((), local_upd w))))
       (\<lambda>err w. ((), w)) w)"

definition setCurrentUser :: "user \<Rightarrow> world \<Rightarrow> world" where
  "setCurrentUser u w =
     (setStorageData (\<lambda>w. w\<lparr>sync_currentUser := Some u\<rparr>) (\<lambda>w. w\<lparr>local_currentUser := Some u\<rparr>) w)
       \<lparr>currentUser_var := Some u\<rparr>"

definition generateUserId :: "world \<Rightarrow> string \<times> world" where
  "generateUserId w = (uuids w (uuidCount w), w\<lparr>uuidCount := Suc (uuidCount w)\<rparr>)"

definition SUPABASE_URL :: string where
  "SUPABASE_URL = ''https://gbenfdbycwopvdcuoxde.supabase.co''"

text \<open>The anonymous key of the source is a non-empty constant; only that is read from it.\<close>

definition SUPABASE_ANON_KEY :: string where
  "SUPABASE_ANON_KEY = ''eyJhbGciOiJIUzI1NiIsInR5cCI6IkpXVCJ9''"

definition isSupabaseConfigured :: bool where
  "isSupabaseConfigured = (SUPABASE_URL \<noteq> [] \<and> SUPABASE_ANON_KEY \<noteq> [])"

definition isSupabaseUser :: "user option \<Rightarrow> bool" where
  "isSupabaseUser user =
     (case user of
        None \<Rightarrow> False
      | Some u \<Rightarrow> source u = Some ''supabase'' \<and> truthy_string (userId u) \<noteq> None)"

definition isSessionValid :: "int \<Rightarrow> session option \<Rightarrow> bool" where
  "isSessionValid now sess =
     (case sess of
        None \<Rightarrow> False
      | Some s \<Rightarrow>
          (case truthy_string (access_token s) of
             None \<Rightarrow> False
           | Some tok \<Rightarrow>
               (case access_payload s of
                  None \<Rightarrow> True
                | Some p \<Rightarrow>
                    (case jwt_exp p of
                       None \<Rightarrow> True
                     | Some e \<Rightarrow> if e = 0 then True else now < e * 1000))))"

definition getSessionUserId :: "session option \<Rightarrow> string option" where
  "getSessionUserId sess =
     (case sess of
        None \<Rightarrow> None
      | Some s \<Rightarrow>
          (case truthy_string (access_token s) of
             None \<Rightarrow> None
           | Some tok \<Rightarrow>
               (case access_payload s of
                  None \<Rightarrow> None
                | Some p \<Rightarrow> truthy_string (jwt_sub p))))"

definition getStoredSession :: "session option io" where
  "getStoredSession = storage_call (\<lambda>w. (local_session w, w))"

text \<open>\<open>a || b\<close> on two optional strings.\<close>

definition or_else :: "string option \<Rightarrow> string option \<Rightarrow> string option" where
  "or_else a b = (case truthy_string a of Some s \<Rightarrow> Some s | None \<Rightarrow> b)"

subsection \<open>Resolving the storage key of an identity\<close>

text \<open>
  \<open>ensureUserStorageKey\<close>. Nothing that it calls throws, so its own \<open>catch\<close> branch is
  never taken and the function is a plain state transformer.
\<close>

definition ensureUserStorageKey ::
  "user option \<Rightarrow> world \<Rightarrow> (user option \<times> string option) \<times> world" where
  "ensureUserStorageKey user w =
     (case user of
        None \<Rightarrow> ((None, None), w)
      | Some u \<Rightarrow>
          (case getUserShowsKey (UserObject u) of
             Some key \<Rightarrow> ((Some u, Some key), w)
           | None \<Rightarrow>
               (case getStorageData sync_simpleUser local_simpleUser w of
                  (storedSimple, w1) \<Rightarrow>
                    (case (case storedSimple of
                             None \<Rightarrow> None
                           | Some su \<Rightarrow> truthy_string (userId su)) of
                       Some simpleId \<Rightarrow>
                         (let updatedUser = u\<lparr>userId := Some simpleId\<rparr>
                          in ((Some updatedUser, getUserShowsKey (UserObject updatedUser)),
                              setCurrentUser updatedUser w1))
                     | None \<Rightarrow>
                         (case generateUserId w1 of
                            (newId, w2) \<Rightarrow>
                              (let updatedUser = u\<lparr>userId := Some newId\<rparr>;
                                   w3 = setCurrentUser updatedUser w2;
                                   w4 =
                                     (if source u = Some ''simple'' \<or> storedSimple \<noteq> None
                                      then
                                        (let s0 = (case storedSimple of Some su \<Rightarrow> su | None \<Rightarrow> u);
                                             s1 = (if truthy_string (userId s0) = None
                                                   then s0\<lparr>userId := userId updatedUser\<rparr> else s0);
                                             s2 = (if truthy_string (source s1) = None
                                                   then s1\<lparr>source := Some ''simple''\<rparr> else s1)
                                         in setStorageData
                                              (\<lambda>w. w\<lparr>sync_simpleUser := Some s2\<rparr>)
                                              (\<lambda>w. w\<lparr>local_simpleUser := Some s2\<rparr>) w3)
                                      else w3)
                               in ((Some updatedUser, getUserShowsKey (UserObject updatedUser)),
                                   w4)))))))"

subsection \<open>The remote tier\<close>

text \<open>
  The remote table answers a successful upsert request
  (\<open>on_conflict=user_id,show_id\<close>, \<open>resolution=merge-duplicates\<close>) by overwriting the
  row with the same user and show and inserting the others.
\<close>

definition same_row_key :: "supabase_row \<Rightarrow> supabase_row \<Rightarrow> bool" where
  "same_row_key r r' = (row_user_id r = row_user_id r' \<and> row_show_id r = row_show_id r')"

definition upsertRow :: "supabase_row list \<Rightarrow> supabase_row \<Rightarrow> supabase_row list" where
  "upsertRow table r =
     (if list_ex (same_row_key r) table
      then map (\<lambda>r'. if same_row_key r r' then r else r') table
      else table @ [r])"

definition upsertRows :: "supabase_row list \<Rightarrow> supabase_row list \<Rightarrow> supabase_row list" where
  "upsertRows rows table = foldl upsertRow table rows"

definition fetchSupabaseShows :: "string option \<Rightarrow> (supabase_row list \<times> string option) io" where
  "fetchSupabaseShows uid =
     (if \<not> isSupabaseConfigured then io_return ([], Some ''Supabase not configured'')
      else
        io_bind getStoredSession (\<lambda>sess.
        io_bind (io_lift (\<lambda>w. (clock w, w))) (\<lambda>now.
          if \<not> isSessionValid now sess then io_return ([], Some ''No valid session'')
          else
            io_bind (io_lift net_call) (\<lambda>outcome.
              case outcome of
                NetReject \<Rightarrow> io_throw NetworkError
              | NetHttpError text \<Rightarrow> io_return ([], Some (if text = [] then ''Fetch failed'' else text))
              | NetOk \<Rightarrow>
                  io_lift (\<lambda>w. ((filter (\<lambda>r. row_user_id r = uid) (remoteTable w), None), w))))))"

definition upsertSupabaseShows :: "string option \<Rightarrow> tracked_show list \<Rightarrow> string option io" where
  "upsertSupabaseShows uid shows =
     (if \<not> isSupabaseConfigured then io_return (Some ''Supabase not configured'')
      else
        io_bind getStoredSession (\<lambda>sess.
        io_bind (io_lift (\<lambda>w. (clock w, w))) (\<lambda>now.
          if \<not> isSessionValid now sess then io_return (Some ''No valid session'')
          else
            io_bind (io_lift (\<lambda>w. (mapShowsToSupabaseRows uid (clock w) shows, w))) (\<lambda>rows.
            io_bind (io_lift net_call) (\<lambda>outcome.
              case outcome of
                NetReject \<Rightarrow> io_throw NetworkError
              | NetHttpError text \<Rightarrow> io_return (Some (if text = [] then ''Upsert failed'' else text))
              | NetOk \<Rightarrow>
                  io_lift (\<lambda>w. (None, w\<lparr>remoteTable := upsertRows rows (remoteTable w)\<rparr>)))))))"

section \<open>The show repository\<close>

text \<open>The identity an operation works for: the argument, else the stored current user,
  else the module variable.\<close>

definition resolveUser :: "user option \<Rightarrow> user option io" where
  "resolveUser specificUser =
     (case specificUser of
        Some u \<Rightarrow> io_return (Some u)
      | None \<Rightarrow>
          io_bind (io_lift (getStorageData sync_currentUser local_currentUser)) (\<lambda>stored.
          io_lift (\<lambda>w. ((case stored of Some u \<Rightarrow> Some u | None \<Rightarrow> currentUser_var w), w))))"

definition local_get_shows :: "string \<Rightarrow> tracked_show list io" where
  "local_get_shows key =
     storage_call (\<lambda>w. ((case local_shows w key of Some xs \<Rightarrow> xs | None \<Rightarrow> []), w))"

definition local_set_shows :: "string \<Rightarrow> tracked_show list \<Rightarrow> unit io" where
  "local_set_shows key shows =
     storage_call (\<lambda>w. ((), w\<lparr>local_shows := (local_shows w)(key := Some shows)\<rparr>))"

text \<open>The block of \<open>getUserShows\<close> that asks the remote tier and yields \<open>syncedIds\<close>.\<close>

definition remoteSyncedIds ::
  "user option \<Rightarrow> string \<Rightarrow> tracked_show list \<Rightarrow> compact list io" where
  "remoteSyncedIds user userKey localShows =
     (if isSupabaseUser user \<and> isSupabaseConfigured then
        io_bind getStoredSession (\<lambda>sess.
        io_bind (fetchSupabaseShows
                   (or_else (case user of None \<Rightarrow> None | Some u \<Rightarrow> userId u)
                            (getSessionUserId sess))) (\<lambda>res.
          case res of (rows, error) \<Rightarrow>
            if truthy_string error \<noteq> None then io_return []
            else if rows = [] \<and> localShows \<noteq> [] then
              io_bind (upsertSupabaseShows (case user of None \<Rightarrow> None | Some u \<Rightarrow> userId u)
                         localShows) (\<lambda>r. io_return [])
            else if rows \<noteq> [] then io_return (mapSupabaseRowsToMinimal rows)
            else
              io_bind (storage_call (\<lambda>w. (sync_ids w (userKey @ ''_ids''), w))) (\<lambda>legacy.
                io_return (case legacy of
                             None \<Rightarrow> []
                           | Some xs \<Rightarrow> xs))))
      else io_return [])"

text \<open>The upsert that follows a rebuild, guarded as in the source.\<close>

definition pushRebuilt :: "user option \<Rightarrow> tracked_show list \<Rightarrow> unit io" where
  "pushRebuilt user shows =
     (if isSupabaseUser user \<and> isSupabaseConfigured then
        io_bind getStoredSession (\<lambda>sess.
        io_bind (upsertSupabaseShows
                   (or_else (case user of None \<Rightarrow> None | Some u \<Rightarrow> userId u)
                            (getSessionUserId sess)) shows) (\<lambda>r. io_return ()))
      else io_return ())"

definition getUserShows_body :: "user option \<Rightarrow> tracked_show list io" where
  "getUserShows_body specificUser =
     io_bind (resolveUser specificUser) (\<lambda>user.
     io_bind (io_lift (ensureUserStorageKey user)) (\<lambda>ensured.
       case snd ensured of
         None \<Rightarrow> io_return []
       | Some userKey \<Rightarrow>
           io_bind (local_get_shows userKey) (\<lambda>localShows.
           io_bind (remoteSyncedIds user userKey localShows) (\<lambda>syncedIds.
             if syncedIds \<noteq> [] then
               (let localShowIds = map (\<lambda>s. String_id (show_id s)) localShows;
                    missingIds =
                      filter (\<lambda>item. String_id (compact_id item) \<notin> set localShowIds) syncedIds
                in
                  if missingIds \<noteq> [] then
                    (let rebuiltShows = map rebuildShow missingIds;
                         merged = localShows @ rebuiltShows
                     in io_bind (local_set_shows userKey merged) (\<lambda>u.
                        io_bind (pushRebuilt user merged) (\<lambda>u.
                        io_return merged)))
                  else if localShows = [] \<and> syncedIds \<noteq> [] then
                    (let rebuiltShows = map rebuildShow syncedIds
                     in io_bind (local_set_shows userKey rebuiltShows) (\<lambda>u.
                        io_bind (pushRebuilt user rebuiltShows) (\<lambda>u.
                        io_return rebuiltShows)))
                  else io_return localShows)
             else io_return localShows))))"

definition getUserShows :: "user option \<Rightarrow> world \<Rightarrow> tracked_show list \<times> world" where
  "getUserShows specificUser = io_catch (getUserShows_body specificUser) (\<lambda>err w. ([], w))"

definition saveUserShows_body :: "tracked_show list \<Rightarrow> user option \<Rightarrow> unit io" where
  "saveUserShows_body shows specificUser =
     io_bind (resolveUser specificUser) (\<lambda>user.
     io_bind (io_lift (ensureUserStorageKey user)) (\<lambda>ensured.
       case snd ensured of
         None \<Rightarrow> io_return ()
       | Some userKey \<Rightarrow>
           io_bind (local_set_shows userKey shows) (\<lambda>u.
             if isSupabaseUser user \<and> isSupabaseConfigured then
               io_bind getStoredSession (\<lambda>sess.
               io_bind (upsertSupabaseShows
                          (or_else (case user of None \<Rightarrow> None | Some u \<Rightarrow> userId u)
                                   (getSessionUserId sess)) shows) (\<lambda>error. io_return ()))
             else io_return ())))"

definition saveUserShows :: "tracked_show list \<Rightarrow> user option \<Rightarrow> world \<Rightarrow> world" where
  "saveUserShows shows specificUser w =
     snd (io_catch (saveUserShows_body shows specificUser) (\<lambda>err w. ((), w)) w)"

section \<open>List operations built on the repository\<close>

text \<open>The shows stored in the local tier under a key; no array there reads as the empty list.\<close>

definition storedShows :: "world \<Rightarrow> string \<Rightarrow> tracked_show list" where
  "storedShows w key = (case local_shows w key of Some xs \<Rightarrow> xs | None \<Rightarrow> [])"

text \<open>The ids of a list as the code compares them: \<open>shows.map(s => String(s.id))\<close>.\<close>

definition stringIds :: "tracked_show list \<Rightarrow> string list" where
  "stringIds shows = map (\<lambda>s. String_id (show_id s)) shows"

subsection \<open>Watched progress\<close>

text \<open>\<open>Array.prototype.findIndex\<close>, with \<open>None\<close> for \<open>-1\<close>.\<close>

fun findIndex :: "('a \<Rightarrow> bool) \<Rightarrow> 'a list \<Rightarrow> nat option" where
  "findIndex P [] = None"
| "findIndex P (x # xs) =
     (if P x then Some 0 else (case findIndex P xs of None \<Rightarrow> None | Some i \<Rightarrow> Some (Suc i)))"

text \<open>
  \<open>updateWatchedProgress(showId, delta)\<close>. The calls it makes do not throw, so its
  \<open>catch\<close> branch is not taken; the update of the progress text in the page is not part
  of the model.
\<close>

definition updateWatchedProgress :: "js_id \<Rightarrow> int \<Rightarrow> world \<Rightarrow> world" where
  "updateWatchedProgress showId delta w =
     (case getUserShows None w of
        (shows, w1) \<Rightarrow>
          (case findIndex (\<lambda>s. show_id s = showId) shows of
             None \<Rightarrow> w1
           | Some showIndex \<Rightarrow>
               (let current0 = (case watchedEpisode (shows ! showIndex) of
                                  None \<Rightarrow> 0
                                | Some n \<Rightarrow> n);
                    current1 = current0 + delta;
                    current = (if current1 < 0 then 0 else current1)
                in saveUserShows
                     (shows[showIndex := (shows ! showIndex)\<lparr>watchedEpisode := Some current\<rparr>])
                     None w1)))"

subsection \<open>Migration on sign-in\<close>

definition migratePrevUserToNewUser :: "user option \<Rightarrow> world \<Rightarrow> world" where
  "migratePrevUserToNewUser newUser w =
     (case getStorageData sync_currentUser local_currentUser w of
        (previousUser, w1) \<Rightarrow>
          (case previousUser of
             None \<Rightarrow> w1
           | Some prev \<Rightarrow>
               (case newUser of
                  None \<Rightarrow> w1
                | Some new \<Rightarrow>
                    (let prevKey = getUserShowsKey (UserObject prev);
                         newKey = getUserShowsKey (UserObject new)
                     in if prevKey = None \<or> prevKey = newKey then w1
                        else if truthy_string (email prev) \<noteq> None then w1
                        else
                          (case getUserShows (Some prev) w1 of
                             (previousShows, w2) \<Rightarrow>
                               if previousShows = [] then w2
                               else
                                 (case getUserShows (Some new) w2 of
                                    (newShows, w3) \<Rightarrow>
                                      (let showsToAdd =
                                             filter (\<lambda>s. String_id (show_id s) \<notin>
                                                           set (stringIds newShows))
                                                    previousShows
                                       in if showsToAdd = [] then w3
                                          else saveUserShows (newShows @ showsToAdd)
                                                 (Some new) w3)))))))"

text \<open>\<open>mergeWithStoredUser(user)\<close> for a user object.\<close>

definition mergeWithStoredUser :: "user \<Rightarrow> world \<Rightarrow> user \<times> world" where
  "mergeWithStoredUser u w =
     (case getStorageData sync_currentUser local_currentUser w of
        (stored, w1) \<Rightarrow>
          (case stored of
             None \<Rightarrow> (u, w1)
           | Some existing \<Rightarrow>
               (let existingKey = getUserShowsKey (UserObject existing);
                    incomingKey = getUserShowsKey (UserObject u)
                in if existingKey \<noteq> None \<and> (incomingKey = None \<or> existingKey = incomingKey)
                   then (\<lparr>user_name = Some (or_string (user_name u)
                                             (or_string (user_name existing) ''User'')),
                          email = or_else (email u) (truthy_string (email existing)),
                          picture = or_else (picture u) (truthy_string (picture existing)),
                          googleId = or_else (googleId u) (truthy_string (googleId existing)),
                          userId = or_else (userId u) (truthy_string (userId existing)),
                          token = token u,
                          source = or_else (source u) (source existing)\<rparr>, w1)
                   else (u, w1))))"

text \<open>
  \<open>handleAuthSuccess\<close> from the point where the user object of the new session is built:
  merge with the stored user, resolve the key, migrate, make the user current. Storing
  the session before and the calls into the page after are not part of the model.
\<close>

definition handleAuthSuccess :: "user \<Rightarrow> world \<Rightarrow> user \<times> world" where
  "handleAuthSuccess u w =
     (case mergeWithStoredUser u w of
        (user1, w1) \<Rightarrow>
          (case ensureUserStorageKey (Some user1) w1 of
             (ensured, w2) \<Rightarrow>
               (let user2 = (case fst ensured of Some e \<Rightarrow> e | None \<Rightarrow> user1);
                    w3 = migratePrevUserToNewUser (Some user2) w2
                in (user2, (setCurrentUser user2 w3)\<lparr>currentUser_var := Some user2\<rparr>))))"

subsection \<open>Import\<close>

text \<open>
  An entry of the \<open>shows\<close> array of an import file: an object, read with the fields of a
  show, or \<open>None\<close> for anything that is not an object. A file is text that is not JSON
  (or has no \<open>.json\<close> name, or is empty), JSON that is not an object, a bare array, or an
  object whose \<open>shows\<close> property is an array or not.
\<close>

type_synonym import_entry = "tracked_show option"



text \<open>The filter and the map of \<open>processImport\<close> that give \<open>validShows\<close>.\<close>

definition hasId :: "import_entry \<Rightarrow> bool" where
  "hasId e = (case e of None \<Rightarrow> False | Some s \<Rightarrow> truthy_id (show_id s))"

definition cleanImported :: "date_parse \<Rightarrow> int \<Rightarrow> tracked_show \<Rightarrow> tracked_show" where
  "cleanImported parse now s =
     s\<lparr>show_id := IdStr (String_id (show_id s)),
       name := Some (or_string (name s) ''Unknown Show''),
       contentType := Some (or_string (contentType s) ''tv''),
       watched := Some (truthy_bool (watched s)),
       priority := Some (truthy_bool (priority s)),
       genres := Some (case genres s of Some g \<Rightarrow> g | None \<Rightarrow> []),
       status := Some (or_string (status s) ''Unknown''),
       summary := Some (or_string (summary s) []),
       needsRefresh := Some (nextEpisode s = None \<or>
                             truthy_string (allEpisodesLastFetchedAt s) = None \<or>
                             isFetchStale parse now (allEpisodesLastFetchedAt s))\<rparr>"

definition validShows :: "date_parse \<Rightarrow> int \<Rightarrow> import_entry list \<Rightarrow> tracked_show list" where
  "validShows parse now entries =
     map (cleanImported parse now) (List.map_filter (\<lambda>e. if hasId e then e else None) entries)"



subsection \<open>The decision of the staleness refresher for one show\<close>

definition startsWith :: "string \<Rightarrow> string \<Rightarrow> bool" where
  "startsWith s p = (take (length p) s = p)"

text \<open>
  What the callback of \<open>refreshStaleShows\<close> (popup.js) does with one show:
  return it as it is because it has no refresh source or is a movie, rebuild it, fetch its
  episodes again, or return it unchanged. \<open>now\<close> is the clock reading taken at the start of
  \<open>refreshStaleShows\<close>, \<open>now_stale\<close> the one that \<open>isFetchStale\<close> takes.
\<close>

datatype refresh_action = SkipNoSource | SkipMovie | FullRebuild | RefreshEpisodes | Unchanged

definition hasNextEpPassed :: "date_parse \<Rightarrow> int \<Rightarrow> tracked_show \<Rightarrow> bool" where
  "hasNextEpPassed parse now s =
     (case (case nextEpisode s of
              None \<Rightarrow> Some 0
            | Some n \<Rightarrow> (case truthy_string (airstamp n) of None \<Rightarrow> Some 0 | Some a \<Rightarrow> parse a)) of
        None \<Rightarrow> False
      | Some nextEpTime \<Rightarrow> nextEpTime > 0 \<and> nextEpTime < now)"

definition refreshStaleShows_action ::
  "date_parse \<Rightarrow> int \<Rightarrow> int \<Rightarrow> tracked_show \<Rightarrow> refresh_action" where
  "refreshStaleShows_action parse now now_stale s =
     (let showIdStr = String_id (show_id s) in
      if startsWith showIdStr ''wd-'' \<or> startsWith showIdStr ''jikan-'' then SkipNoSource
      else if contentType s = Some ''movies'' \<and> \<not> truthy_bool (needsRefresh s) then SkipMovie
      else if truthy_bool (needsRefresh s) then FullRebuild
      else if contentType s = Some ''movies'' then SkipMovie
      else if hasNextEpPassed parse now s \<or>
              isFetchStale parse now_stale (allEpisodesLastFetchedAt s)
           then RefreshEpisodes
           else Unchanged)"

section \<open>Source adapters (tvmazeApi.js)\<close>

text \<open>
  What a call of an adapter can end with instead of a value: the rejection of \<open>fetch\<close>,
  the rejection of \<open>res.json()\<close> on a body that is not JSON, or a \<open>TypeError\<close>
  raised while the data is read. A response is its status and its body read as JSON of the
  expected shape (\<open>None\<close> when the body is not JSON).
\<close>

datatype adapter_error = FetchFailed | JsonSyntaxError | TypeError

record 'b response =
  status_code :: nat
  json_body :: "'b option"

datatype 'b fetch_result = FetchRejected | Fetched "'b response"

definition response_ok :: "'b response \<Rightarrow> bool" where
  "response_ok res = (200 \<le> status_code res \<and> status_code res \<le> 299)"

text \<open>A show of the catalogue as the search and lookup endpoints return it.\<close>

record api_image =
  medium :: "string option"
  original :: "string option"

record api_show =
  api_id :: js_id
  api_name :: "string option"
  api_genres :: "string list option"
  api_premiered :: "string option"
  api_status :: "string option"
  api_summary :: "string option"
  api_image :: "api_image option"

text \<open>
  \<open>s.replace(/<[^>]+>/g, "")\<close>: at a \<open><\<close> that is followed by at least one
  character other than \<open>>\<close> and then by \<open>>\<close>, everything up to that \<open>>\<close> goes.
\<close>

function stripTags :: "string \<Rightarrow> string" where
  "stripTags [] = []"
| "stripTags (c # cs) =
     (if c = CHR ''<'' \<and> takeWhile (\<lambda>d. d \<noteq> CHR ''>'') cs \<noteq> [] \<and>
         dropWhile (\<lambda>d. d \<noteq> CHR ''>'') cs \<noteq> []
      then stripTags (tl (dropWhile (\<lambda>d. d \<noteq> CHR ''>'') cs))
      else c # stripTags cs)"
  by pat_completeness auto
termination
proof (relation "measure length")
  show "wf (measure length)" by simp
next
  fix c :: char and cs
  have "length (tl (dropWhile (\<lambda>d. d \<noteq> CHR ''>'') cs)) \<le> length cs"
    using length_dropWhile_le[of "\<lambda>d. d \<noteq> CHR ''>''" cs] by simp
  then show "(tl (dropWhile (\<lambda>d. d \<noteq> CHR ''>'') cs), c # cs) \<in> measure length" by simp
next
  fix c :: char and cs
  show "(cs, c # cs) \<in> measure length" by simp
qed

text \<open>
  The object that the adapters build for a show of the catalogue; it has the fields
  \<open>id\<close>, \<open>name\<close>, \<open>genres\<close>, \<open>premiered\<close>, \<open>status\<close>, \<open>summary\<close>
  and \<open>image\<close> of a tracked show and no others.
\<close>

definition showSummary :: "api_show \<Rightarrow> tracked_show" where
  "showSummary sh =
     \<lparr>show_id = api_id sh,
      name = api_name sh,
      image_url = (case api_image sh of
                     None \<Rightarrow> None
                   | Some img \<Rightarrow> or_else (medium img) (truthy_string (original img))),
      genres = Some (case api_genres sh of Some g \<Rightarrow> g | None \<Rightarrow> []),
      status = truthy_string (api_status sh),
      summary = Some (case truthy_string (api_summary sh) of
                        None \<Rightarrow> []
                      | Some t \<Rightarrow> stripTags t),
      contentType = None,
      premiered = truthy_string (api_premiered sh),
      nextEpisode = None, allEpisodesLastFetchedAt = None, watched = None, watchedAt = None,
      watchedEpisode = None, priority = None, watchLink = None, lastWatchedAt = None,
      needsRefresh = None, malId = None, imdbId = None, tvmazeId = None\<rparr>"

text \<open>
  \<open>searchShowsByGenre(genre)\<close>, given what its one \<open>fetch\<close> does. The data is the
  array of the response, an entry being the \<open>show\<close> of a search hit (\<open>None\<close> when the
  hit has none, on which reading \<open>show.genres\<close> raises). The function has no \<open>try\<close>.
\<close>

definition hasGenre :: "string \<Rightarrow> api_show \<Rightarrow> bool" where
  "hasGenre genre sh =
     list_ex (\<lambda>g. toLowerCase g = toLowerCase genre)
       (case api_genres sh of Some g \<Rightarrow> g | None \<Rightarrow> [])"

definition searchShowsByGenre ::
  "string \<Rightarrow> api_show option list fetch_result \<Rightarrow> adapter_error + tracked_show list" where
  "searchShowsByGenre genre fetched =
     (case fetched of
        FetchRejected \<Rightarrow> Inl FetchFailed
      | Fetched res \<Rightarrow>
          if \<not> response_ok res then Inr []
          else
            (case json_body res of
               None \<Rightarrow> Inl JsonSyntaxError
             | Some data \<Rightarrow>
                 if list_ex (\<lambda>item. item = None) data then Inl TypeError
                 else Inr (map showSummary
                             (take 20 (filter (hasGenre genre) (List.map_filter (\<lambda>item. item) data))))))"

text \<open>
  \<open>fetchWithRetry(url)\<close> with its two retries: \<open>fetch i\<close> is what the \<open>i\<close>-th
  call of \<open>fetch\<close> does, and \<open>left\<close> counts the retries that remain. A rejection, a
  status 429 and a status of 500 or more are retried while retries remain.
\<close>

fun fetchWithRetry_attempts ::
  "(nat \<Rightarrow> 'b fetch_result) \<Rightarrow> nat \<Rightarrow> nat \<Rightarrow> adapter_error + 'b response" where
  "fetchWithRetry_attempts fetch i 0 =
     (case fetch i of FetchRejected \<Rightarrow> Inl FetchFailed | Fetched res \<Rightarrow> Inr res)"
| "fetchWithRetry_attempts fetch i (Suc left) =
     (case fetch i of
        FetchRejected \<Rightarrow> fetchWithRetry_attempts fetch (Suc i) left
      | Fetched res \<Rightarrow>
          if status_code res = 429 \<or> status_code res \<ge> 500
          then fetchWithRetry_attempts fetch (Suc i) left
          else Inr res)"

definition fetchWithRetry :: "(nat \<Rightarrow> 'b fetch_result) \<Rightarrow> adapter_error + 'b response" where
  "fetchWithRetry fetch = fetchWithRetry_attempts fetch 0 2"

text \<open>
  \<open>fetchShow\<close> and \<open>fetchEpisodes\<close>: the \<open>try\<close> covers the awaited
  \<open>fetchWithRetry\<close>; the promise of \<open>res.json()\<close> is returned without \<open>await\<close>, so
  its rejection is the rejection of the call. \<open>lookupByImdb\<close> awaits both inside its
  \<open>try\<close>.
\<close>

definition fetchShow :: "(nat \<Rightarrow> 'b fetch_result) \<Rightarrow> adapter_error + 'b option" where
  "fetchShow fetch =
     (case fetchWithRetry fetch of
        Inl err \<Rightarrow> Inr None
      | Inr res \<Rightarrow>
          if \<not> response_ok res then Inr None
          else (case json_body res of None \<Rightarrow> Inl JsonSyntaxError | Some v \<Rightarrow> Inr (Some v)))"

definition fetchEpisodes :: "(nat \<Rightarrow> episode list fetch_result) \<Rightarrow> adapter_error + episode list" where
  "fetchEpisodes fetch =
     (case fetchWithRetry fetch of
        Inl err \<Rightarrow> Inr []
      | Inr res \<Rightarrow>
          if \<not> response_ok res then Inr []
          else (case json_body res of None \<Rightarrow> Inl JsonSyntaxError | Some eps \<Rightarrow> Inr eps))"

definition lookupByImdb :: "api_show fetch_result \<Rightarrow> adapter_error + tracked_show option" where
  "lookupByImdb fetched =
     (case fetched of
        FetchRejected \<Rightarrow> Inr None
      | Fetched res \<Rightarrow>
          if \<not> response_ok res then Inr None
          else (case json_body res of None \<Rightarrow> Inr None | Some sh \<Rightarrow> Inr (Some (showSummary sh))))"

section \<open>Notions used in the statements\<close>

text \<open>
  The identity that \<open>getUserShows\<close> and \<open>saveUserShows\<close> work for when storage
  answers: the argument, else the current user stored in sync, else the one stored locally,
  else the module variable.
\<close>

definition currentIdentity :: "user option \<Rightarrow> world \<Rightarrow> user option" where
  "currentIdentity specificUser w =
     (case specificUser of
        Some u \<Rightarrow> Some u
      | None \<Rightarrow>
          (case sync_currentUser w of
             Some u \<Rightarrow> Some u
           | None \<Rightarrow> (case local_currentUser w of Some u \<Rightarrow> Some u | None \<Rightarrow> currentUser_var w)))"

text \<open>
  The rows of the remote table that belong to a user, those among given rows whose show
  id (as a string) no local show has, and the placeholder built for a row.
\<close>

definition remoteRowsOf :: "world \<Rightarrow> user \<Rightarrow> supabase_row list" where
  "remoteRowsOf w u = filter (\<lambda>r. row_user_id r = userId u) (remoteTable w)"

definition missingRows :: "tracked_show list \<Rightarrow> supabase_row list \<Rightarrow> supabase_row list" where
  "missingRows localShows rows =
     filter (\<lambda>r. String_id (row_show_id r) \<notin> set (stringIds localShows)) rows"

definition placeholder :: "supabase_row \<Rightarrow> tracked_show" where
  "placeholder r = rebuildShow (supabaseRowToMinimal r)"

text \<open>The remote table after a successful upsert of a list for a user.\<close>

definition pushToRemote :: "user \<Rightarrow> tracked_show list \<Rightarrow> world \<Rightarrow> world" where
  "pushToRemote u xs w =
     w\<lparr>remoteTable := upsertRows (mapShowsToSupabaseRows (userId u) (clock w) xs) (remoteTable w)\<rparr>"

text \<open>
  What \<open>getUserShows\<close> and \<open>saveUserShows\<close> come to for an identity \<open>u\<close> with key
  \<open>k\<close> when no storage call rejects and every request is answered successfully
  (lemmas \<open>getUserShows_quiet\<close> and \<open>saveUserShows_quiet\<close> below).
\<close>

definition getUserShows_quiet :: "user \<Rightarrow> string \<Rightarrow> world \<Rightarrow> tracked_show list \<times> world" where
  "getUserShows_quiet u k w =
     (let localShows = storedShows w k in
      if \<not> isSupabaseUser (Some u) \<or> \<not> isSessionValid (clock w) (local_session w)
      then (localShows, w)
      else
        (let rows = remoteRowsOf w u in
         if rows = [] then
           (if localShows \<noteq> [] then (localShows, pushToRemote u localShows w)
            else
              (let legacy = (case sync_ids w (k @ ''_ids'') of None \<Rightarrow> [] | Some cs \<Rightarrow> cs) in
               if legacy = [] then ([], w)
               else (map rebuildShow legacy,
                     pushToRemote u (map rebuildShow legacy)
                       (w\<lparr>local_shows := (local_shows w)(k := Some (map rebuildShow legacy))\<rparr>))))
         else
           (let missing = missingRows localShows rows in
            if missing = [] then (localShows, w)
            else (localShows @ map placeholder missing,
                  pushToRemote u (localShows @ map placeholder missing)
                    (w\<lparr>local_shows := (local_shows w)(k := Some (localShows @ map placeholder missing))\<rparr>)))))"

definition saveUserShows_quiet :: "tracked_show list \<Rightarrow> user \<Rightarrow> string \<Rightarrow> world \<Rightarrow> world" where
  "saveUserShows_quiet xs u k w =
     (let w1 = w\<lparr>local_shows := (local_shows w)(k := Some xs)\<rparr> in
      if isSupabaseUser (Some u) \<and> isSessionValid (clock w) (local_session w)
      then pushToRemote u xs w1 else w1)"

text \<open>
  Assertions about computations: from a world that satisfies \<open>P\<close> the computation ends
  with a value \<open>x\<close> in a world that satisfies \<open>Q x\<close>, or with an error in a world
  that satisfies \<open>E\<close>.
\<close>

definition io_hoare ::
  "(world \<Rightarrow> bool) \<Rightarrow> 'a io \<Rightarrow> ('a \<Rightarrow> world \<Rightarrow> bool) \<Rightarrow> (world \<Rightarrow> bool) \<Rightarrow> bool" where
  "io_hoare P m Q E =
     (\<forall>w. P w \<longrightarrow> (case m w of (Inl e, w') \<Rightarrow> E w' | (Inr x, w') \<Rightarrow> Q x w'))"

definition st_hoare ::
  "(world \<Rightarrow> bool) \<Rightarrow> (world \<Rightarrow> 'a \<times> world) \<Rightarrow> ('a \<Rightarrow> world \<Rightarrow> bool) \<Rightarrow> bool" where
  "st_hoare P f Q = (\<forall>w. P w \<longrightarrow> (case f w of (x, w') \<Rightarrow> Q x w'))"

text \<open>A property of the world that only the local show store decides.\<close>

definition local_only :: "(world \<Rightarrow> bool) \<Rightarrow> bool" where
  "local_only I = (\<forall>w w'. local_shows w = local_shows w' \<longrightarrow> I w = I w')"

text \<open>A key that an operation called with \<open>su\<close> can use: the key of \<open>su\<close> when it has one.\<close>

definition keyOK :: "user option \<Rightarrow> string \<Rightarrow> bool" where
  "keyOK su k = (\<forall>u kk. su = Some u \<longrightarrow> getUserShowsKey (UserObject u) = Some kk \<longrightarrow> k = kk)"

text \<open>
  The progress of a show is absent or not negative; the invariant says so for every show
  stored in the local tier under any key. \<open>updateSequence\<close> runs progress updates one
  after the other.
\<close>

definition watchedNonNeg :: "tracked_show \<Rightarrow> bool" where
  "watchedNonNeg s = (case watchedEpisode s of None \<Rightarrow> True | Some n \<Rightarrow> 0 \<le> n)"

definition progressInvariant :: "world \<Rightarrow> bool" where
  "progressInvariant w = (\<forall>k xs. local_shows w k = Some xs \<longrightarrow> (\<forall>s\<in>set xs. watchedNonNeg s))"

definition updateSequence :: "(js_id \<times> int) list \<Rightarrow> world \<Rightarrow> world" where
  "updateSequence ups w = foldl (\<lambda>w' (showId, delta). updateWatchedProgress showId delta w') w ups"

text \<open>
  A row with the user and show of \<open>r\<close> is in the table.
\<close>

definition keyIn :: "supabase_row \<Rightarrow> supabase_row list \<Rightarrow> bool" where
  "keyIn r table = (\<exists>r'\<in>set table. same_row_key r r')"

text \<open>
  The current user as \<open>getStorageData("currentUser")\<close> reads it when storage answers:
  from sync, else from local.
\<close>

definition storedCurrentUser :: "world \<Rightarrow> user option" where
  "storedCurrentUser w = (case sync_currentUser w of Some u \<Rightarrow> Some u | None \<Rightarrow> local_currentUser w)"

text \<open>
  What the repository operations leave alone while storage answers: \<open>w'\<close> has no
  storage fault pending and the clock, the session and the current user of \<open>w\<close>.
\<close>

definition sameFrame :: "world \<Rightarrow> world \<Rightarrow> bool" where
  "sameFrame w w' =
     (storageFaults w' = [] \<and> clock w' = clock w \<and> local_session w' = local_session w \<and>
      sync_currentUser w' = sync_currentUser w \<and> local_currentUser w' = local_currentUser w \<and>
      currentUser_var w' = currentUser_var w)"

section \<open>Example data\<close>

text \<open>
  A clock reading (2026-01-09 12:00 UTC) and the values of \<open>Date.parse\<close> on the stamps
  used in the examples; every other string, such as \<open>invalid\<close>, does not parse.
\<close>

definition ex_now :: int where
  "ex_now = 1767960000000"

definition ex_parse :: date_parse where
  "ex_parse = map_of
     [(''2026-01-08T12:00:00+00:00'', 1767873600000),
      (''2026-01-11T12:00:00+00:00'', 1768132800000),
      (''2026-01-09T17:00:00+00:00'', 1767978000000),
      (''2026-01-09T09:00:00+00:00'', 1767949200000),
      (''2026-01-09T11:00:00+00:00'', 1767956400000)]"

definition ex_episode :: "int \<Rightarrow> string \<Rightarrow> episode" where
  "ex_episode n stamp =
     \<lparr>season = Some 1, number = Some n, airstamp = Some stamp, ep_id = 100 + n, ep_name = None\<rparr>"

text \<open>A show as \<open>addShowFromSearch\<close> stores it, with a given id and name.\<close>

definition ex_show :: "js_id \<Rightarrow> string \<Rightarrow> tracked_show" where
  "ex_show i n =
     \<lparr>show_id = i, name = Some n, image_url = None, genres = Some [''Drama''],
      status = Some ''Running'', summary = Some [], contentType = Some ''tv'',
      premiered = None, nextEpisode = None, allEpisodesLastFetchedAt = None,
      watched = Some False, watchedAt = None, watchedEpisode = None, priority = Some False,
      watchLink = None, lastWatchedAt = None, needsRefresh = None,
      malId = None, imdbId = None, tvmazeId = None\<rparr>"

text \<open>
  A guest identity, an account of the remote tier with its session, a row of the remote
  table for that account, and a world with empty stores in which nothing fails.
\<close>

definition ex_guest :: user where
  "ex_guest = \<lparr>user_name = Some ''Guest'', email = None, picture = None, googleId = None,
                userId = Some ''g-1'', token = None, source = Some ''guest''\<rparr>"

definition ex_account :: user where
  "ex_account = \<lparr>user_name = Some ''Ann'', email = Some ''ann@x.org'', picture = None,
                  googleId = None, userId = Some ''acct-1'', token = None,
                  source = Some ''supabase''\<rparr>"

definition ex_session :: session where
  "ex_session = \<lparr>access_token = Some ''token'',
                  access_payload = Some \<lparr>jwt_exp = None, jwt_sub = Some ''acct-1''\<rparr>\<rparr>"

definition ex_row :: "string \<Rightarrow> supabase_row" where
  "ex_row i = \<lparr>row_user_id = Some ''acct-1'', row_show_id = IdStr i, row_name_short = Some i,
               row_content_type = Some ''tv'', row_watched = Some False,
               row_priority = Some True, row_updated_at = 0\<rparr>"

definition ex_world :: world where
  "ex_world = \<lparr>local_shows = (\<lambda>k. None), local_currentUser = None, local_simpleUser = None,
                local_session = None, sync_currentUser = None, sync_simpleUser = None,
                sync_ids = (\<lambda>k. None), currentUser_var = None, remoteTable = [],
                clock = ex_now, uuids = (\<lambda>n. ''uuid''), uuidCount = 0,
                storageFaults = [], network = []\<rparr>"

text \<open>
  The account's world: a local list under the account's key, a valid session, and rows in
  the remote table.
\<close>

definition ex_account_world :: "tracked_show list \<Rightarrow> supabase_row list \<Rightarrow> world" where
  "ex_account_world localShows rows =
     ex_world\<lparr>local_shows := (\<lambda>k. None)(''shows_ann_x_org'' := Some localShows),
              local_session := Some ex_session,
              remoteTable := rows\<rparr>"

text \<open>
  The guest's world: the guest is the stored current user and has a local list.
\<close>

definition ex_guest_world :: "tracked_show list \<Rightarrow> world" where
  "ex_guest_world localShows =
     ex_world\<lparr>local_shows := (\<lambda>k. None)(''shows_user_g_1'' := Some localShows),
              local_currentUser := Some ex_guest\<rparr>"

text \<open>
  The moment of a sign-in: the guest is still the stored current user and holds A and B;
  the account holds B and C locally and remotely.
\<close>

definition ex_signin_world :: world where
  "ex_signin_world =
     ex_world\<lparr>local_shows := (\<lambda>k. None)
                (''shows_user_g_1'' := Some [ex_show (IdStr ''A'') ''A'', ex_show (IdStr ''B'') ''B''],
                 ''shows_ann_x_org'' := Some [ex_show (IdStr ''B'') ''B'', ex_show (IdStr ''C'') ''C'']),
              local_currentUser := Some ex_guest,
              local_session := Some ex_session,
              remoteTable := [ex_row ''B'', ex_row ''C'']\<rparr>"

text \<open>
  A guest list with one show without progress and one at episode 3.
\<close>

definition ex_update_world :: world where
  "ex_update_world =
     ex_guest_world [ex_show (IdStr ''A'') ''A'',
                     (ex_show (IdNum 82) ''B'')\<lparr>watchedEpisode := Some 3\<rparr>]"

text \<open>
  A guest identity without any key-bearing field, and a world whose generated user ids
  differ from call to call.
\<close>

definition ex_keyless_guest :: user where
  "ex_keyless_guest = ex_guest\<lparr>userId := None\<rparr>"

definition ex_fresh_ids_world :: world where
  "ex_fresh_ids_world = ex_world\<lparr>uuids := (\<lambda>n. ''uuid-'' @ String_nat n)\<rparr>"

(* ---- end of definitions ---- *)

section \<open>Verified properties\<close>

subsection \<open>Basic facts\<close>

lemma truthy_string_Some: "truthy_string f = Some s \<longleftrightarrow> f = Some s \<and> s \<noteq> []"
  by (cases f) auto


subsection \<open>Next-episode selection\<close>

lemma loop_Cons:
  "computeNextEpisode_loop parse now nxt (ep # eps) =
   computeNextEpisode_loop parse now (nextStep parse now nxt ep) eps"
  by (simp add: nextStep_def airTimeOf_def nextOf_def split: option.splits)

lemma airTimeOf_nextOf [simp]: "airTimeOf parse (nextOf ep) = airTimeOf parse ep"
  by (simp add: airTimeOf_def nextOf_def)

lemma earlier_than_iff:
  "airsAfter parse now n \<Longrightarrow>
   earlier_than parse t n = (\<exists>t'. airTimeOf parse n = Some t' \<and> t < t')"
  by (cases "airstamp n")
     (auto simp: airsAfter_def earlier_than_def airTimeOf_def split: option.splits if_splits)

lemma nextStep_nextOK: "nextOK parse now nxt \<Longrightarrow> nextOK parse now (nextStep parse now nxt ep)"
  by (auto simp: nextOK_def nextStep_def airsAfter_def split: option.splits)

lemma nextStep_None:
  "nextStep parse now nxt ep = None \<longleftrightarrow> nxt = None \<and> \<not> airsAfter parse now ep"
  by (auto simp: nextStep_def airsAfter_def split: option.splits)

lemma loop_None:
  "computeNextEpisode_loop parse now nxt eps = None \<longleftrightarrow>
   nxt = None \<and> (\<forall>ep\<in>set eps. \<not> airsAfter parse now ep)"
  by (induction eps arbitrary: nxt)
     (auto simp del: computeNextEpisode_loop.simps(2) simp add: loop_Cons nextStep_None)

lemma loop_mem:
  "computeNextEpisode_loop parse now nxt eps = Some r \<Longrightarrow>
   nxt = Some r \<or> (\<exists>ep\<in>set eps. r = nextOf ep \<and> airsAfter parse now ep)"
proof (induction eps arbitrary: nxt)
  case Nil
  then show ?case by simp
next
  case (Cons ep eps)
  from Cons.prems
  have "computeNextEpisode_loop parse now (nextStep parse now nxt ep) eps = Some r"
    by (simp only: loop_Cons)
  from Cons.IH[OF this] show ?case
    by (auto simp: nextStep_def airsAfter_def split: option.splits if_splits)
qed

lemma loop_min:
  "nextOK parse now nxt \<Longrightarrow> computeNextEpisode_loop parse now nxt eps = Some r \<Longrightarrow>
   \<exists>t. airTimeOf parse r = Some t \<and> now < t \<and>
     (\<forall>n t'. nxt = Some n \<longrightarrow> airTimeOf parse n = Some t' \<longrightarrow> t \<le> t') \<and>
     (\<forall>ep\<in>set eps. \<forall>t'. airTimeOf parse ep = Some t' \<longrightarrow> now < t' \<longrightarrow> t \<le> t')"
proof (induction eps arbitrary: nxt)
  case Nil
  then show ?case by (auto simp: nextOK_def airsAfter_def split: option.splits)
next
  case (Cons ep eps)
  let ?s = "nextStep parse now nxt ep"
  from Cons.prems have r: "computeNextEpisode_loop parse now ?s eps = Some r"
    by (simp only: loop_Cons)
  have ok: "nextOK parse now ?s" using Cons.prems(1) by (rule nextStep_nextOK)
  from Cons.IH[OF ok r] obtain t where t: "airTimeOf parse r = Some t" "now < t"
    "\<forall>n t'. ?s = Some n \<longrightarrow> airTimeOf parse n = Some t' \<longrightarrow> t \<le> t'"
    "\<forall>ep\<in>set eps. \<forall>t'. airTimeOf parse ep = Some t' \<longrightarrow> now < t' \<longrightarrow> t \<le> t'"
    by blast
  have a: "\<forall>n t'. nxt = Some n \<longrightarrow> airTimeOf parse n = Some t' \<longrightarrow> t \<le> t'"
    using t(3) Cons.prems(1)
    by (cases nxt) (auto simp: nextStep_def nextOK_def earlier_than_iff split: option.splits if_splits)
  have b: "\<forall>t'. airTimeOf parse ep = Some t' \<longrightarrow> now < t' \<longrightarrow> t \<le> t'"
  proof (cases nxt)
    case None
    then show ?thesis using t(3) by (auto simp: nextStep_def split: option.splits if_splits)
  next
    case (Some a)
    with Cons.prems(1) have qa: "airsAfter parse now a" by (simp add: nextOK_def)
    then obtain ta where ta: "airTimeOf parse a = Some ta"
      by (auto simp: airsAfter_def split: option.splits)
    show ?thesis using t(3) Some qa ta
      by (auto simp: nextStep_def earlier_than_iff split: option.splits if_splits)
  qed
  show ?case using t(1,2,4) a b by auto
qed

text \<open>
  Claim C2. \<open>computeNextEpisode\<close> returns nothing exactly when no episode has a parsable
  air time after \<open>now\<close> (a missing, empty or unparsable stamp never counts). When it
  returns \<open>r\<close>, then \<open>r\<close> is the season, number and stamp of an episode of the input
  whose air time lies after \<open>now\<close> and is the least among all such episodes. For the
  four episodes airing one day ago, in two days, in five hours and at an unparsable stamp
  the result is the episode airing in five hours.
\<close>

theorem computeNextEpisode_earliest_future:
  "(computeNextEpisode parse now eps = None \<longleftrightarrow>
      (\<forall>ep\<in>set eps. \<not> airsAfter parse now ep)) \<and>
   (\<forall>r. computeNextEpisode parse now eps = Some r \<longrightarrow>
      (\<exists>ep\<in>set eps. \<exists>t. r = nextOf ep \<and> airTimeOf parse ep = Some t \<and> now < t \<and>
         (\<forall>e'\<in>set eps. \<forall>t'. airTimeOf parse e' = Some t' \<and> now < t' \<longrightarrow> t \<le> t'))) \<and>
   (\<forall>e1 e2 e3 e4.
      airTimeOf parse e1 = Some (now - 24 * 3600000) \<and>
      airTimeOf parse e2 = Some (now + 48 * 3600000) \<and>
      airTimeOf parse e3 = Some (now + 5 * 3600000) \<and>
      airTimeOf parse e4 = None \<longrightarrow>
      computeNextEpisode parse now [e1, e2, e3, e4] = Some (nextOf e3))"
proof (intro conjI allI impI)
  show "computeNextEpisode parse now eps = None \<longleftrightarrow> (\<forall>ep\<in>set eps. \<not> airsAfter parse now ep)"
    by (simp add: computeNextEpisode_def loop_None)
next
  fix r
  assume r: "computeNextEpisode parse now eps = Some r"
  then have l: "computeNextEpisode_loop parse now None eps = Some r"
    by (simp add: computeNextEpisode_def)
  have ok: "nextOK parse now None" by (simp add: nextOK_def)
  from loop_mem[OF l] obtain ep where ep: "ep \<in> set eps" "r = nextOf ep" by auto
  from loop_min[OF ok l] obtain t where t: "airTimeOf parse r = Some t" "now < t"
    "\<forall>e'\<in>set eps. \<forall>t'. airTimeOf parse e' = Some t' \<longrightarrow> now < t' \<longrightarrow> t \<le> t'"
    by blast
  from t(1) ep(2) have "airTimeOf parse ep = Some t" by simp
  with ep t(2,3)
  show "\<exists>ep\<in>set eps. \<exists>t. r = nextOf ep \<and> airTimeOf parse ep = Some t \<and> now < t \<and>
         (\<forall>e'\<in>set eps. \<forall>t'. airTimeOf parse e' = Some t' \<and> now < t' \<longrightarrow> t \<le> t')"
    by blast
next
  fix e1 e2 e3 e4 :: episode
  assume a: "airTimeOf parse e1 = Some (now - 24 * 3600000) \<and>
      airTimeOf parse e2 = Some (now + 48 * 3600000) \<and>
      airTimeOf parse e3 = Some (now + 5 * 3600000) \<and>
      airTimeOf parse e4 = None"
  have n2: "airsAfter parse now (nextOf e2)" using a by (simp add: airsAfter_def)
  show "computeNextEpisode parse now [e1, e2, e3, e4] = Some (nextOf e3)"
    using a
    by (simp add: computeNextEpisode_def loop_Cons nextStep_def earlier_than_iff[OF n2]
          del: computeNextEpisode_loop.simps(2))
qed

theorem computeNextEpisode_earliest_future_witness:
  "computeNextEpisode ex_parse ex_now
     [ex_episode 1 ''2026-01-08T12:00:00+00:00'', ex_episode 2 ''2026-01-11T12:00:00+00:00'',
      ex_episode 3 ''2026-01-09T17:00:00+00:00'', ex_episode 4 ''invalid'']
   = Some \<lparr>season = Some 1, number = Some 3, airstamp = Some ''2026-01-09T17:00:00+00:00''\<rparr>
   \<and> computeNextEpisode ex_parse ex_now
     [ex_episode 1 ''2026-01-08T12:00:00+00:00'', ex_episode 4 ''invalid''] = None"
  using computeNextEpisode_earliest_future[of ex_parse ex_now
     "[ex_episode 1 ''2026-01-08T12:00:00+00:00'', ex_episode 4 ''invalid'']"]
    computeNextEpisode_earliest_future[of ex_parse ex_now
     "[ex_episode 1 ''2026-01-08T12:00:00+00:00'', ex_episode 2 ''2026-01-11T12:00:00+00:00'',
      ex_episode 3 ''2026-01-09T17:00:00+00:00'', ex_episode 4 ''invalid'']"]
  by (simp add: airsAfter_def airTimeOf_def ex_parse_def ex_now_def ex_episode_def nextOf_def
        computeNextEpisode_def earlier_than_def)

subsection \<open>Storage key\<close>

text \<open>
  Claim C6, as stated, at a concrete identity: the first non-null field in priority order
  is the e-mail field, which holds the empty string, and a key derived from it would be
  \<open>shows_\<close>; \<open>getUserShowsKey\<close> passes over the empty field and derives the key from
  \<open>userId\<close>.
\<close>

theorem getUserShowsKey_first_non_null_counterexample:
  "getUserShowsKey (UserObject \<lparr>user_name = Some ''Guest'', email = Some [], picture = None,
       googleId = None, userId = Some ''u1'', token = None, source = Some ''guest''\<rparr>)
     = Some ''shows_user_u1'' \<and>
   keyOfFirstField non_null \<lparr>user_name = Some ''Guest'', email = Some [], picture = None,
       googleId = None, userId = Some ''u1'', token = None, source = Some ''guest''\<rparr>
     = Some ''shows_''"
  by (simp add: getUserShowsKey_def keyOfFirstField_def priorityFields_def non_null_def
        sanitizeUserKeyPart_def toLowerCase_def toLowerCase_char_def in_a_z_0_9_def)

text \<open>
  Claim C6, amended. The key is a function of the key-bearing fields alone: for a string
  argument it is \<open>shows_\<close> and the sanitized string (nothing for the empty string); for a
  user object it is built from the first field, in the order e-mail, googleId, userId, that
  is neither null nor the empty string, with the prefix of that field; two identities that
  agree on the three fields get the same key; the key is null exactly when none of the three
  fields is usable. Sanitizing keeps the length and replaces, after lowercasing, every
  character outside \<open>[a-z0-9]\<close> by an underscore.
\<close>

theorem getUserShowsKey_first_usable_field:
  "getUserShowsKey NoUser = None \<and>
   getUserShowsKey (UserString s) =
     (if s = [] then None else Some (''shows_'' @ sanitizeUserKeyPart s)) \<and>
   getUserShowsKey (UserObject u) = keyOfFirstField non_empty u \<and>
   (email u = email u' \<and> googleId u = googleId u' \<and> userId u = userId u' \<longrightarrow>
      getUserShowsKey (UserObject u) = getUserShowsKey (UserObject u')) \<and>
   (getUserShowsKey (UserObject u) = None \<longleftrightarrow>
      \<not> non_empty (email u) \<and> \<not> non_empty (googleId u) \<and> \<not> non_empty (userId u)) \<and>
   length (sanitizeUserKeyPart v) = length v \<and>
   (\<forall>i<length v. sanitizeUserKeyPart v ! i =
      (if in_a_z_0_9 (toLowerCase_char (v ! i)) then toLowerCase_char (v ! i) else CHR ''_''))"
  by (auto simp: getUserShowsKey_def keyOfFirstField_def priorityFields_def non_empty_def
        sanitizeUserKeyPart_def toLowerCase_def truthy_string_Some split: option.splits)

theorem getUserShowsKey_first_usable_field_witness:
  "getUserShowsKey (UserObject \<lparr>user_name = Some ''Ann'', email = Some ''Ann.B@x.org'',
       picture = None, googleId = None, userId = Some ''u1'', token = None,
       source = Some ''supabase''\<rparr>) = Some ''shows_ann_b_x_org'' \<and>
   getUserShowsKey (UserObject \<lparr>user_name = Some ''Ann'', email = Some ''Ann.B@x.org'',
       picture = None, googleId = None, userId = Some ''u1'', token = None,
       source = Some ''supabase''\<rparr>) =
   getUserShowsKey (UserObject \<lparr>user_name = Some ''A. B.'', email = Some ''Ann.B@x.org'',
       picture = Some ''p.png'', googleId = None, userId = Some ''u1'', token = Some ''t'',
       source = Some ''oauth''\<rparr>) \<and>
   sanitizeUserKeyPart ''7F-a'' ! 2 = CHR ''_''"
  using getUserShowsKey_first_usable_field[of "''x''"
      "\<lparr>user_name = Some ''Ann'', email = Some ''Ann.B@x.org'',
       picture = None, googleId = None, userId = Some ''u1'', token = None,
       source = Some ''supabase''\<rparr>"
      "\<lparr>user_name = Some ''A. B.'', email = Some ''Ann.B@x.org'',
       picture = Some ''p.png'', googleId = None, userId = Some ''u1'', token = Some ''t'',
       source = Some ''oauth''\<rparr>" "''7F-a''"]
  by (simp add: getUserShowsKey_def keyOfFirstField_def priorityFields_def non_empty_def
      sanitizeUserKeyPart_def toLowerCase_def toLowerCase_char_def in_a_z_0_9_def)

subsection \<open>Staleness\<close>

text \<open>
  Claim C5. \<open>isFetchStale\<close> is true exactly when the stamp is absent (null, undefined
  or the empty string), does not parse, or lies more than two hours (7200000 ms) before the
  clock reading. A stamp three hours old is stale and one that is one hour old is not; and
  for a show that reaches the staleness test of the refresher (an id without the prefixes
  \<open>wd-\<close> and \<open>jikan-\<close>, not a movie, not flagged \<open>needsRefresh\<close>, next episode not
  passed) the episodes are fetched again exactly when \<open>isFetchStale\<close> holds.
\<close>

theorem isFetchStale_two_hours:
  "(isFetchStale parse now ts \<longleftrightarrow>
      ts = None \<or> ts = Some [] \<or>
      (\<exists>s. ts = Some s \<and>
         (parse s = None \<or> (\<exists>t. parse s = Some t \<and> now - t > 2 * 60 * 60 * 1000)))) \<and>
   (\<forall>s. s \<noteq> [] \<and> parse s = Some (now - 3 * 60 * 60 * 1000) \<longrightarrow>
      isFetchStale parse now (Some s)) \<and>
   (\<forall>s. s \<noteq> [] \<and> parse s = Some (now - 1 * 60 * 60 * 1000) \<longrightarrow>
      \<not> isFetchStale parse now (Some s)) \<and>
   (\<not> startsWith (String_id (show_id sh)) ''wd-'' \<and>
    \<not> startsWith (String_id (show_id sh)) ''jikan-'' \<and>
    contentType sh \<noteq> Some ''movies'' \<and> \<not> truthy_bool (needsRefresh sh) \<and>
    \<not> hasNextEpPassed parse now0 sh \<longrightarrow>
      (refreshStaleShows_action parse now0 now sh = RefreshEpisodes \<longleftrightarrow>
         isFetchStale parse now (allEpisodesLastFetchedAt sh)) \<and>
      (refreshStaleShows_action parse now0 now sh = Unchanged \<longleftrightarrow>
         \<not> isFetchStale parse now (allEpisodesLastFetchedAt sh)))"
proof (intro conjI allI impI)
  show "isFetchStale parse now ts \<longleftrightarrow>
      ts = None \<or> ts = Some [] \<or>
      (\<exists>s. ts = Some s \<and>
         (parse s = None \<or> (\<exists>t. parse s = Some t \<and> now - t > 2 * 60 * 60 * 1000)))"
    by (cases ts) (auto simp: isFetchStale_def TWO_HOURS_MS_def split: option.splits)
next
  fix s assume "s \<noteq> [] \<and> parse s = Some (now - 3 * 60 * 60 * 1000)"
  then show "isFetchStale parse now (Some s)"
    by (simp add: isFetchStale_def TWO_HOURS_MS_def)
next
  fix s assume "s \<noteq> [] \<and> parse s = Some (now - 1 * 60 * 60 * 1000)"
  then show "\<not> isFetchStale parse now (Some s)"
    by (simp add: isFetchStale_def TWO_HOURS_MS_def)
next
  assume "\<not> startsWith (String_id (show_id sh)) ''wd-'' \<and>
    \<not> startsWith (String_id (show_id sh)) ''jikan-'' \<and>
    contentType sh \<noteq> Some ''movies'' \<and> \<not> truthy_bool (needsRefresh sh) \<and>
    \<not> hasNextEpPassed parse now0 sh"
  then show "refreshStaleShows_action parse now0 now sh = RefreshEpisodes \<longleftrightarrow>
         isFetchStale parse now (allEpisodesLastFetchedAt sh)"
    by (simp add: refreshStaleShows_action_def)
next
  assume "\<not> startsWith (String_id (show_id sh)) ''wd-'' \<and>
    \<not> startsWith (String_id (show_id sh)) ''jikan-'' \<and>
    contentType sh \<noteq> Some ''movies'' \<and> \<not> truthy_bool (needsRefresh sh) \<and>
    \<not> hasNextEpPassed parse now0 sh"
  then show "refreshStaleShows_action parse now0 now sh = Unchanged \<longleftrightarrow>
         \<not> isFetchStale parse now (allEpisodesLastFetchedAt sh)"
    by (simp add: refreshStaleShows_action_def)
qed

theorem isFetchStale_two_hours_witness:
  "isFetchStale ex_parse ex_now (Some ''2026-01-09T09:00:00+00:00'') \<and>
   \<not> isFetchStale ex_parse ex_now (Some ''2026-01-09T11:00:00+00:00'') \<and>
   isFetchStale ex_parse ex_now (Some ''invalid'') \<and>
   refreshStaleShows_action ex_parse ex_now ex_now
     ((ex_show (IdNum 82) ''Show'')\<lparr>allEpisodesLastFetchedAt := Some ''2026-01-09T09:00:00+00:00''\<rparr>)
     = RefreshEpisodes \<and>
   refreshStaleShows_action ex_parse ex_now ex_now
     ((ex_show (IdNum 82) ''Show'')\<lparr>allEpisodesLastFetchedAt := Some ''2026-01-09T11:00:00+00:00''\<rparr>)
     = Unchanged"
  using isFetchStale_two_hours[of ex_parse ex_now "Some ''2026-01-09T09:00:00+00:00''"
          "(ex_show (IdNum 82) ''Show'')\<lparr>allEpisodesLastFetchedAt := Some ''2026-01-09T09:00:00+00:00''\<rparr>"
          ex_now]
        isFetchStale_two_hours[of ex_parse ex_now "Some ''2026-01-09T11:00:00+00:00''"
          "(ex_show (IdNum 82) ''Show'')\<lparr>allEpisodesLastFetchedAt := Some ''2026-01-09T11:00:00+00:00''\<rparr>"
          ex_now]
  by (simp add: isFetchStale_def TWO_HOURS_MS_def ex_parse_def ex_now_def ex_show_def
        refreshStaleShows_action_def hasNextEpPassed_def startsWith_def String_int_def
        String_nat.simps digit_char_def)

subsection \<open>Reasoning about the repository\<close>

lemma storage_call_ok: "storageFaults w = [] \<Longrightarrow> storage_call act w = io_lift act w"
  by (simp add: storage_call_def)

lemma getStorageData_ok:
  "storageFaults w = [] \<Longrightarrow>
   getStorageData ss ls w = ((case ss w of Some v \<Rightarrow> Some v | None \<Rightarrow> ls w), w)"
  by (simp add: getStorageData_def io_catch_def io_bind_def storage_call_ok io_lift_def io_return_def)

lemma ensure_key:
  "getUserShowsKey (UserObject u) = Some k \<Longrightarrow> ensureUserStorageKey (Some u) w = ((Some u, Some k), w)"
  by (simp add: ensureUserStorageKey_def)

lemma resolveUser_Some: "resolveUser (Some u) w = (Inr (Some u), w)"
  by (simp add: resolveUser_def io_return_def)

lemma resolveUser_None:
  "storageFaults w = [] \<Longrightarrow>
   resolveUser None w = (Inr (case sync_currentUser w of Some v \<Rightarrow> Some v | None \<Rightarrow>
        (case local_currentUser w of Some v \<Rightarrow> Some v | None \<Rightarrow> currentUser_var w)), w)"
  by (simp add: resolveUser_def io_bind_def io_lift_def getStorageData_ok split: option.splits)

lemma getUserShows_local:
  assumes "storageFaults w = []" "resolveUser su w = (Inr (Some u), w)"
    "getUserShowsKey (UserObject u) = Some k" "\<not> isSupabaseUser (Some u)"
  shows "getUserShows su w = (storedShows w k, w)"
  using assms
  by (simp add: getUserShows_def getUserShows_body_def io_catch_def io_bind_def io_lift_def
      ensure_key local_get_shows_def storage_call_ok remoteSyncedIds_def io_return_def storedShows_def)

lemma saveUserShows_local:
  assumes "storageFaults w = []" "resolveUser su w = (Inr (Some u), w)"
    "getUserShowsKey (UserObject u) = Some k" "\<not> isSupabaseUser (Some u)"
  shows "saveUserShows L su w = w\<lparr>local_shows := (local_shows w)(k := Some L)\<rparr>"
  using assms
  by (simp add: saveUserShows_def saveUserShows_body_def io_catch_def io_bind_def io_lift_def
      ensure_key local_set_shows_def storage_call_ok io_return_def)

lemma resolveUser_ok:
  "storageFaults w = [] \<Longrightarrow> resolveUser su w = (Inr (currentIdentity su w), w)"
  by (cases su) (simp_all add: resolveUser_Some resolveUser_None currentIdentity_def)

lemma isSupabaseConfigured [simp]: "isSupabaseConfigured"
  by (simp add: isSupabaseConfigured_def SUPABASE_URL_def SUPABASE_ANON_KEY_def)

lemma getStoredSession_ok:
  "storageFaults w = [] \<Longrightarrow> getStoredSession w = (Inr (local_session w), w)"
  by (simp add: getStoredSession_def storage_call_ok io_lift_def)

lemma fetch_ok:
  "storageFaults w = [] \<Longrightarrow> network w = [] \<Longrightarrow> isSessionValid (clock w) (local_session w) \<Longrightarrow>
   fetchSupabaseShows uid w = (Inr (filter (\<lambda>r. row_user_id r = uid) (remoteTable w), None), w)"
  by (simp add: fetchSupabaseShows_def io_bind_def getStoredSession_ok io_lift_def net_call_def)

lemma upsert_ok:
  "storageFaults w = [] \<Longrightarrow> network w = [] \<Longrightarrow> isSessionValid (clock w) (local_session w) \<Longrightarrow>
   upsertSupabaseShows uid shows w =
     (Inr None, w\<lparr>remoteTable := upsertRows (mapShowsToSupabaseRows uid (clock w) shows) (remoteTable w)\<rparr>)"
  by (simp add: upsertSupabaseShows_def io_bind_def getStoredSession_ok io_lift_def net_call_def)

lemma isSupabaseUser_userId:
  "isSupabaseUser (Some u) \<Longrightarrow> or_else (userId u) x = userId u"
  by (cases "userId u") (auto simp: isSupabaseUser_def or_else_def split: if_splits)

lemma missing_filter:
  "filter (\<lambda>item. String_id (compact_id item) \<notin> S) (mapSupabaseRowsToMinimal rows)
   = mapSupabaseRowsToMinimal (filter (\<lambda>r. String_id (row_show_id r) \<notin> S) rows)"
  by (induction rows) (auto simp: mapSupabaseRowsToMinimal_def supabaseRowToMinimal_def)

lemma rebuild_map:
  "map rebuildShow (mapSupabaseRowsToMinimal rows) = map placeholder rows"
  by (simp add: mapSupabaseRowsToMinimal_def placeholder_def comp_def)

lemma minimal_Nil [simp]: "mapSupabaseRowsToMinimal rows = [] \<longleftrightarrow> rows = []"
  by (simp add: mapSupabaseRowsToMinimal_def)

lemma remoteSyncedIds_rows:
  assumes "storageFaults w = []" "network w = []" "isSessionValid (clock w) (local_session w)"
    "isSupabaseUser (Some u)" "remoteRowsOf w u \<noteq> []"
  shows "remoteSyncedIds (Some u) k localShows w = (Inr (mapSupabaseRowsToMinimal (remoteRowsOf w u)), w)"
  using assms
  by (simp add: remoteSyncedIds_def io_bind_def getStoredSession_ok isSupabaseUser_userId fetch_ok
        io_return_def remoteRowsOf_def)

lemma pushRebuilt_ok:
  assumes "storageFaults w = []" "network w = []" "isSessionValid (clock w) (local_session w)"
    "isSupabaseUser (Some u)"
  shows "pushRebuilt (Some u) shows w =
     (Inr (), w\<lparr>remoteTable := upsertRows (mapShowsToSupabaseRows (userId u) (clock w) shows) (remoteTable w)\<rparr>)"
  using assms
  by (simp add: pushRebuilt_def io_bind_def getStoredSession_ok isSupabaseUser_userId upsert_ok io_return_def)

lemma getUserShows_rebuild:
  assumes "storageFaults w = []" "network w = []" "isSessionValid (clock w) (local_session w)"
    "currentIdentity su w = Some u" "getUserShowsKey (UserObject u) = Some k"
    "isSupabaseUser (Some u)" "remoteRowsOf w u \<noteq> []"
    "missingRows (storedShows w k) (remoteRowsOf w u) \<noteq> []"
  shows "getUserShows su w =
     (storedShows w k @ map placeholder (missingRows (storedShows w k) (remoteRowsOf w u)),
      w\<lparr>local_shows := (local_shows w)(k := Some (storedShows w k @ map placeholder (missingRows (storedShows w k) (remoteRowsOf w u)))),
        remoteTable := upsertRows (mapShowsToSupabaseRows (userId u) (clock w)
             (storedShows w k @ map placeholder (missingRows (storedShows w k) (remoteRowsOf w u)))) (remoteTable w)\<rparr>)"
proof -
  have ids: "map (\<lambda>s. String_id (show_id s)) (storedShows w k) = stringIds (storedShows w k)"
    by (simp add: stringIds_def)
  have ls: "local_get_shows k w = (Inr (storedShows w k), w)"
    using assms(1) by (simp add: local_get_shows_def storage_call_ok io_lift_def storedShows_def)
  show ?thesis
    using assms
    apply (simp add: getUserShows_def getUserShows_body_def io_catch_def io_bind_def resolveUser_ok
        io_lift_def ensure_key ls remoteSyncedIds_rows ids missing_filter rebuild_map Let_def
        missingRows_def[symmetric])
    apply (simp add: local_set_shows_def storage_call_ok io_lift_def pushRebuilt_ok io_return_def io_bind_def)
    done
qed

lemma io_hoareD:
  "io_hoare P m Q E \<Longrightarrow> P w \<Longrightarrow> m w = (r, w') \<Longrightarrow> (case r of Inl e \<Rightarrow> E w' | Inr x \<Rightarrow> Q x w')"
  by (auto simp: io_hoare_def split: sum.splits dest!: spec[of _ w])

lemma st_hoareD: "st_hoare P f Q \<Longrightarrow> P w \<Longrightarrow> f w = (x, w') \<Longrightarrow> Q x w'"
  by (auto simp: st_hoare_def dest!: spec[of _ w])

lemma hoare_return: "(\<And>w. P w \<Longrightarrow> Q x w) \<Longrightarrow> io_hoare P (io_return x) Q E"
  by (simp add: io_hoare_def io_return_def)

lemma hoare_throw: "(\<And>w. P w \<Longrightarrow> E w) \<Longrightarrow> io_hoare P (io_throw e) Q E"
  by (simp add: io_hoare_def io_throw_def)

lemma hoare_bind:
  "io_hoare P m R E \<Longrightarrow> (\<And>x. io_hoare (R x) (f x) Q E) \<Longrightarrow> io_hoare P (io_bind m f) Q E"
  unfolding io_hoare_def io_bind_def
  by (fastforce split: prod.splits sum.splits)

lemma hoare_lift: "st_hoare P f Q \<Longrightarrow> io_hoare P (io_lift f) Q E"
  by (auto simp: io_hoare_def st_hoare_def io_lift_def split: prod.splits)

lemma hoare_catch:
  "io_hoare P m Q E \<Longrightarrow> (\<And>e. st_hoare E (h e) Q) \<Longrightarrow> st_hoare P (io_catch m h) Q"
  unfolding io_hoare_def st_hoare_def io_catch_def
  by (fastforce split: prod.splits sum.splits)

lemma hoare_storage_call:
  "(\<And>w bs. P w \<Longrightarrow> P (w\<lparr>storageFaults := bs\<rparr>)) \<Longrightarrow> (\<And>w. P w \<Longrightarrow> E w) \<Longrightarrow>
   st_hoare P act Q \<Longrightarrow> io_hoare P (storage_call act) Q E"
  unfolding io_hoare_def st_hoare_def storage_call_def io_lift_def
  by (auto split: prod.splits list.splits)

lemma hoare_weaken:
  "io_hoare P' m Q' E' \<Longrightarrow> (\<And>w. P w \<Longrightarrow> P' w) \<Longrightarrow> (\<And>x w. Q' x w \<Longrightarrow> Q x w) \<Longrightarrow>
   (\<And>w. E' w \<Longrightarrow> E w) \<Longrightarrow> io_hoare P m Q E"
  unfolding io_hoare_def by (fastforce split: prod.splits sum.splits)

lemma st_weaken:
  "st_hoare P' f Q' \<Longrightarrow> (\<And>w. P w \<Longrightarrow> P' w) \<Longrightarrow> (\<And>x w. Q' x w \<Longrightarrow> Q x w) \<Longrightarrow> st_hoare P f Q"
  unfolding st_hoare_def by (fastforce split: prod.splits)

lemma local_onlyD: "local_only I \<Longrightarrow> local_shows w = local_shows w' \<Longrightarrow> I w \<Longrightarrow> I w'"
  unfolding local_only_def by blast

lemma inv_storage_read:
  assumes "local_only I"
  shows "io_hoare I (storage_call (\<lambda>w. (sel w, w))) (\<lambda>x. I) I"
proof (rule hoare_storage_call)
  fix w bs assume "I w"
  then show "I (w\<lparr>storageFaults := bs\<rparr>)"
    using local_onlyD[OF assms, of w "w\<lparr>storageFaults := bs\<rparr>"] by simp
next
  fix w assume "I w" then show "I w" .
next
  show "st_hoare I (\<lambda>w. (sel w, w)) (\<lambda>x. I)" by (simp add: st_hoare_def)
qed

lemma inv_getStorageData:
  assumes "local_only I"
  shows "st_hoare I (getStorageData ss ls) (\<lambda>x. I)"
  unfolding getStorageData_def
proof (rule hoare_catch[where E = I])
  show "io_hoare I
     (io_bind (storage_call (\<lambda>w. (ss w, w)))
       (\<lambda>sync. io_bind (storage_call (\<lambda>w. (ls w, w)))
          (\<lambda>local. io_return (case sync of None \<Rightarrow> local | Some v \<Rightarrow> Some v))))
     (\<lambda>x. I) I"
    by (rule hoare_bind[OF inv_storage_read[OF assms]],
        rule hoare_bind[OF inv_storage_read[OF assms]], rule hoare_return)
next
  fix e show "st_hoare I (\<lambda>w. (None, w)) (\<lambda>x. I)" by (simp add: st_hoare_def)
qed

lemma local_only_upd:
  "local_only I \<Longrightarrow> I w \<Longrightarrow> local_shows w' = local_shows w \<Longrightarrow> I w'"
  unfolding local_only_def by metis

lemma hoare_storage_write_other:
  assumes "local_only I" and "\<And>w. local_shows (upd w) = local_shows w"
  shows "io_hoare I (storage_call (\<lambda>w. ((), upd w))) (\<lambda>x. I) I"
proof (rule hoare_storage_call)
  fix w bs assume "I w"
  then show "I (w\<lparr>storageFaults := bs\<rparr>)"
    using local_only_upd[OF assms(1), of w "w\<lparr>storageFaults := bs\<rparr>"] by simp
next
  fix w assume "I w" then show "I w" .
next
  show "st_hoare I (\<lambda>w. ((), upd w)) (\<lambda>x. I)"
    unfolding st_hoare_def using assms by (auto intro: local_only_upd)
qed

lemma inv_setStorageData:
  assumes "local_only I" "\<And>w. local_shows (su w) = local_shows w" "\<And>w. local_shows (lu w) = local_shows w"
    "I w"
  shows "I (setStorageData su lu w)"
proof -
  have inner: "st_hoare I (io_catch (storage_call (\<lambda>w. ((), su w))) (\<lambda>err w. ((), w))) (\<lambda>x. I)"
    by (rule hoare_catch[where E = I], rule hoare_storage_write_other[OF assms(1,2)])
       (simp add: st_hoare_def)
  have "st_hoare I (io_catch
       (io_bind (io_lift (io_catch (storage_call (\<lambda>w. ((), su w))) (\<lambda>err w. ((), w)))) (\<lambda>u.
        storage_call (\<lambda>w. ((), lu w))))
       (\<lambda>err w. ((), w))) (\<lambda>x. I)"
    apply (rule hoare_catch[where E = I])
     apply (rule hoare_bind[where R = "\<lambda>x. I"])
      apply (rule hoare_lift[OF inner])
     apply (rule hoare_storage_write_other[OF assms(1,3)])
    apply (simp add: st_hoare_def)
    done
  from st_hoareD[OF this assms(4)] show ?thesis
    unfolding setStorageData_def by (metis prod.collapse)
qed

lemma inv_setCurrentUser:
  assumes "local_only I" "I w"
  shows "I (setCurrentUser u w)"
proof -
  have "I (setStorageData (\<lambda>w. w\<lparr>sync_currentUser := Some u\<rparr>) (\<lambda>w. w\<lparr>local_currentUser := Some u\<rparr>) w)"
    by (rule inv_setStorageData[OF assms(1) _ _ assms(2)]) simp_all
  then show ?thesis unfolding setCurrentUser_def
    by (rule local_only_upd[OF assms(1)]) simp
qed

lemma ensure_keyOK:
  "ensureUserStorageKey user w = ((eu, Some k), w') \<Longrightarrow> keyOK user k"
proof (cases user)
  case None
  then show ?thesis by (simp add: keyOK_def)
next
  case (Some u)
  assume e: "ensureUserStorageKey user w = ((eu, Some k), w')"
  show ?thesis
  proof (cases "getUserShowsKey (UserObject u)")
    case None
    then show ?thesis using Some by (simp add: keyOK_def)
  next
    case (Some key)
    then show ?thesis using e \<open>user = Some u\<close> by (auto simp: ensureUserStorageKey_def keyOK_def)
  qed
qed

lemma inv_ensure:
  assumes "local_only I" "I w"
  shows "I (snd (ensureUserStorageKey user w))"
proof (cases user)
  case None
  then show ?thesis using assms(2) by (simp add: ensureUserStorageKey_def)
next
  case (Some u)
  show ?thesis
  proof (cases "getUserShowsKey (UserObject u)")
    case (Some key)
    then show ?thesis using assms(2) \<open>user = Some u\<close> by (simp add: ensureUserStorageKey_def)
  next
    case None
    obtain ss w1 where g: "getStorageData sync_simpleUser local_simpleUser w = (ss, w1)"
      by (cases "getStorageData sync_simpleUser local_simpleUser w")
    have I1: "I w1" using st_hoareD[OF inv_getStorageData[OF assms(1)] assms(2) g] .
    obtain nid w2 where gen: "generateUserId w1 = (nid, w2)" by (cases "generateUserId w1")
    have I2: "I w2" using gen local_only_upd[OF assms(1) I1, of w2]
      by (auto simp: generateUserId_def)
    note sc = inv_setCurrentUser[OF assms(1)]
    note sd = inv_setStorageData[OF assms(1)]
    show ?thesis
      using None \<open>user = Some u\<close> g gen
      by (auto simp: ensureUserStorageKey_def Let_def split: option.splits
            intro!: sc sd I1 I2)
  qed
qed

lemma inv_getStoredSession: "local_only I \<Longrightarrow> io_hoare I getStoredSession (\<lambda>x. I) I"
  unfolding getStoredSession_def by (rule inv_storage_read)

lemma inv_net_call: 
  assumes "local_only I" shows "st_hoare I net_call (\<lambda>x. I)"
  unfolding st_hoare_def net_call_def
  using local_only_upd[OF assms]
  by (auto split: list.splits)

lemma inv_pure: "st_hoare I (\<lambda>w. (f w, w)) (\<lambda>x. I)"
  by (simp add: st_hoare_def)

lemma inv_remote_write:
  assumes "local_only I" shows "st_hoare I (\<lambda>w. (x, w\<lparr>remoteTable := t w\<rparr>)) (\<lambda>x. I)"
  unfolding st_hoare_def using local_only_upd[OF assms] by auto

lemma hoare_if:
  "(c \<Longrightarrow> io_hoare P a Q E) \<Longrightarrow> (\<not> c \<Longrightarrow> io_hoare P b Q E) \<Longrightarrow>
   io_hoare P (if c then a else b) Q E"
  by simp

lemma inv_return: "io_hoare I (io_return x) (\<lambda>x. I) I"
  by (rule hoare_return)

lemma inv_fetch:
  assumes "local_only I" shows "io_hoare I (fetchSupabaseShows uid) (\<lambda>x. I) I"
  unfolding fetchSupabaseShows_def
  apply (rule hoare_if)
   apply (rule inv_return)
  apply (rule hoare_bind[OF inv_getStoredSession[OF assms]])
  apply (rule hoare_bind[OF hoare_lift[OF inv_pure]])
  apply (rule hoare_if)
   apply (rule inv_return)
  apply (rule hoare_bind[OF hoare_lift[OF inv_net_call[OF assms]]])
  subgoal for sess now outcome
    by (cases outcome) (auto intro!: hoare_throw hoare_return hoare_lift inv_pure)
  done

lemma inv_upsert:
  assumes "local_only I" shows "io_hoare I (upsertSupabaseShows uid shows) (\<lambda>x. I) I"
  unfolding upsertSupabaseShows_def
  apply (rule hoare_if)
   apply (rule inv_return)
  apply (rule hoare_bind[OF inv_getStoredSession[OF assms]])
  apply (rule hoare_bind[OF hoare_lift[OF inv_pure]])
  apply (rule hoare_if)
   apply (rule inv_return)
  apply (rule hoare_bind[OF hoare_lift[OF inv_pure]])
  apply (rule hoare_bind[OF hoare_lift[OF inv_net_call[OF assms]]])
  subgoal for sess now rows outcome
    by (cases outcome) (auto intro!: hoare_throw hoare_return hoare_lift inv_remote_write[OF assms])
  done

lemma inv_resolveUser:
  assumes "local_only I"
  shows "io_hoare I (resolveUser su) (\<lambda>user w. I w \<and> (\<forall>u. su = Some u \<longrightarrow> user = Some u)) I"
proof (cases su)
  case None
  show ?thesis unfolding None resolveUser_def
    apply simp
    apply (rule hoare_bind[OF hoare_lift[OF inv_getStorageData[OF assms]]])
    apply (rule hoare_lift)
    apply (simp add: st_hoare_def)
    done
next
  case (Some u)
  show ?thesis unfolding Some resolveUser_def by (simp add: hoare_return)
qed

lemma inv_remoteSyncedIds:
  assumes "local_only I" shows "io_hoare I (remoteSyncedIds user k localShows) (\<lambda>x. I) I"
  unfolding remoteSyncedIds_def
  apply (rule hoare_if)
   apply (rule hoare_bind[OF inv_getStoredSession[OF assms]])
   apply (rule hoare_bind[OF inv_fetch[OF assms]])
  subgoal for sess res
    apply (cases res)
    apply (simp only: prod.case)
    apply (rule hoare_if)
     apply (rule inv_return)
    apply (rule hoare_if)
     apply (rule hoare_bind[OF inv_upsert[OF assms]])
     apply (rule inv_return)
    apply (rule hoare_if)
     apply (rule inv_return)
    apply (rule hoare_bind[OF inv_storage_read[OF assms]])
    apply (rule inv_return)
    done
  apply (rule inv_return)
  done

lemma inv_pushRebuilt:
  assumes "local_only I" shows "io_hoare I (pushRebuilt user shows) (\<lambda>x. I) I"
  unfolding pushRebuilt_def
  apply (rule hoare_if)
   apply (rule hoare_bind[OF inv_getStoredSession[OF assms]])
   apply (rule hoare_bind[OF inv_upsert[OF assms]])
   apply (rule inv_return)
  apply (rule inv_return)
  done

lemma local_only_conj:
  "local_only I \<Longrightarrow> local_only (\<lambda>w. I w \<and> xs = storedShows w k)"
  unfolding local_only_def storedShows_def by metis

lemma hoare_local_get:
  assumes "local_only I"
  shows "io_hoare I (local_get_shows k) (\<lambda>xs w. I w \<and> xs = storedShows w k) I"
  unfolding local_get_shows_def
proof (rule hoare_storage_call)
  fix w bs assume "I w"
  then show "I (w\<lparr>storageFaults := bs\<rparr>)"
    using local_only_upd[OF assms, of w "w\<lparr>storageFaults := bs\<rparr>"] by simp
next
  fix w assume "I w" then show "I w" .
next
  show "st_hoare I (\<lambda>w. (case local_shows w k of None \<Rightarrow> [] | Some xs \<Rightarrow> xs, w))
     (\<lambda>xs w. I w \<and> xs = storedShows w k)"
    by (simp add: st_hoare_def storedShows_def)
qed

lemma hoare_local_set:
  assumes "local_only I"
    and "\<And>w. P w \<Longrightarrow> I w"
    and "\<And>w bs. P w \<Longrightarrow> P (w\<lparr>storageFaults := bs\<rparr>)"
    and "\<And>w. P w \<Longrightarrow> I (w\<lparr>local_shows := (local_shows w)(k := Some xs)\<rparr>)"
  shows "io_hoare P (local_set_shows k xs) (\<lambda>u w. I w \<and> xs = storedShows w k) I"
  unfolding local_set_shows_def
proof (rule hoare_storage_call)
  fix w bs assume "P w"
  then show "P (w\<lparr>storageFaults := bs\<rparr>)" by (rule assms(3))
next
  fix w assume "P w" then show "I w" by (rule assms(2))
next
  show "st_hoare P (\<lambda>w. ((), w\<lparr>local_shows := (local_shows w)(k \<mapsto> xs)\<rparr>))
     (\<lambda>u w. I w \<and> xs = storedShows w k)"
    using assms(4) by (simp add: st_hoare_def storedShows_def)
qed

lemma hoare_strengthen_exn:
  "io_hoare P m Q E' \<Longrightarrow> (\<And>w. E' w \<Longrightarrow> E w) \<Longrightarrow> io_hoare P m Q E"
  by (erule hoare_weaken) auto

lemma inv_getUserShows_body:
  assumes lo: "local_only I"
    and W: "\<And>w k cs. I w \<Longrightarrow> keyOK su k \<Longrightarrow>
              I (w\<lparr>local_shows := (local_shows w)(k := Some (storedShows w k @ map rebuildShow cs))\<rparr>)"
  shows "io_hoare I (getUserShows_body su)
           (\<lambda>xs w. I w \<and> (xs = [] \<or> (\<exists>k. keyOK su k \<and> xs = storedShows w k))) I"
  unfolding getUserShows_body_def
proof (rule hoare_bind[OF inv_resolveUser[OF lo]])
  fix user
  let ?Q = "\<lambda>xs w. I w \<and> (xs = [] \<or> (\<exists>k. keyOK su k \<and> xs = storedShows w k))"
  let ?R2 = "\<lambda>ensured w. I w \<and> (\<forall>k. snd ensured = Some k \<longrightarrow> keyOK su k)"
  have ens: "st_hoare (\<lambda>w. I w \<and> (\<forall>u. su = Some u \<longrightarrow> user = Some u)) (ensureUserStorageKey user) ?R2"
    unfolding st_hoare_def
  proof (intro allI impI)
    fix w assume a: "I w \<and> (\<forall>u. su = Some u \<longrightarrow> user = Some u)"
    obtain eu ek w' where e: "ensureUserStorageKey user w = ((eu, ek), w')"
      by (metis prod.collapse)
    have "I w'" using inv_ensure[OF lo, of w user] a e by simp
    moreover have "\<And>k. ek = Some k \<Longrightarrow> keyOK su k"
    proof -
      fix k assume "ek = Some k"
      with e have "keyOK user k" by (auto dest: ensure_keyOK)
      then show "keyOK su k" using a by (cases su) (auto simp: keyOK_def)
    qed
    ultimately show "case ensureUserStorageKey user w of (ensured, w') \<Rightarrow> ?R2 ensured w'"
      using e by simp
  qed
  show "io_hoare (\<lambda>w. I w \<and> (\<forall>u. su = Some u \<longrightarrow> user = Some u))
     (io_bind (io_lift (ensureUserStorageKey user)) (\<lambda>ensured.
       case snd ensured of
         None \<Rightarrow> io_return []
       | Some userKey \<Rightarrow>
           io_bind (local_get_shows userKey) (\<lambda>localShows.
           io_bind (remoteSyncedIds user userKey localShows) (\<lambda>syncedIds.
             if syncedIds \<noteq> [] then
               (let localShowIds = map (\<lambda>s. String_id (show_id s)) localShows;
                    missingIds =
                      filter (\<lambda>item. String_id (compact_id item) \<notin> set localShowIds) syncedIds
                in
                  if missingIds \<noteq> [] then
                    (let rebuiltShows = map rebuildShow missingIds;
                         merged = localShows @ rebuiltShows
                     in io_bind (local_set_shows userKey merged) (\<lambda>u.
                        io_bind (pushRebuilt user merged) (\<lambda>u.
                        io_return merged)))
                  else if localShows = [] \<and> syncedIds \<noteq> [] then
                    (let rebuiltShows = map rebuildShow syncedIds
                     in io_bind (local_set_shows userKey rebuiltShows) (\<lambda>u.
                        io_bind (pushRebuilt user rebuiltShows) (\<lambda>u.
                        io_return rebuiltShows)))
                  else io_return localShows)
             else io_return localShows)))) ?Q I"
  proof (rule hoare_bind[OF hoare_lift[OF ens]])
    fix ensured
    show "io_hoare (?R2 ensured)
       (case snd ensured of
         None \<Rightarrow> io_return []
       | Some userKey \<Rightarrow>
           io_bind (local_get_shows userKey) (\<lambda>localShows.
           io_bind (remoteSyncedIds user userKey localShows) (\<lambda>syncedIds.
             if syncedIds \<noteq> [] then
               (let localShowIds = map (\<lambda>s. String_id (show_id s)) localShows;
                    missingIds =
                      filter (\<lambda>item. String_id (compact_id item) \<notin> set localShowIds) syncedIds
                in
                  if missingIds \<noteq> [] then
                    (let rebuiltShows = map rebuildShow missingIds;
                         merged = localShows @ rebuiltShows
                     in io_bind (local_set_shows userKey merged) (\<lambda>u.
                        io_bind (pushRebuilt user merged) (\<lambda>u.
                        io_return merged)))
                  else if localShows = [] \<and> syncedIds \<noteq> [] then
                    (let rebuiltShows = map rebuildShow syncedIds
                     in io_bind (local_set_shows userKey rebuiltShows) (\<lambda>u.
                        io_bind (pushRebuilt user rebuiltShows) (\<lambda>u.
                        io_return rebuiltShows)))
                  else io_return localShows)
             else io_return localShows))) ?Q I"
    proof (cases "snd ensured")
      case None
      then show ?thesis by (simp add: hoare_return)
    next
      case (Some userKey)
      have writeOK: "\<And>xs cs. io_hoare (\<lambda>w. (I w \<and> keyOK su userKey) \<and> xs = storedShows w userKey)
            (io_bind (local_set_shows userKey (xs @ map rebuildShow cs)) (\<lambda>u.
             io_bind (pushRebuilt user (xs @ map rebuildShow cs)) (\<lambda>u.
             io_return (xs @ map rebuildShow cs)))) ?Q I"
      proof -
        fix xs cs
        let ?m = "xs @ map rebuildShow cs"
        let ?I' = "\<lambda>w. (I w \<and> keyOK su userKey) \<and> ?m = storedShows w userKey"
        have lo': "local_only ?I'"
          using lo unfolding local_only_def storedShows_def by metis
        have lo2: "local_only (\<lambda>w. I w \<and> keyOK su userKey)"
          using lo unfolding local_only_def by metis
        have set: "io_hoare (\<lambda>w. (I w \<and> keyOK su userKey) \<and> xs = storedShows w userKey)
             (local_set_shows userKey ?m) (\<lambda>u. ?I') (\<lambda>w. I w \<and> keyOK su userKey)"
        proof (rule hoare_local_set[OF lo2])
          fix w bs assume p: "(I w \<and> keyOK su userKey) \<and> xs = storedShows w userKey"
          show "I w \<and> keyOK su userKey" using p by simp
          show "(I (w\<lparr>storageFaults := bs\<rparr>) \<and> keyOK su userKey) \<and> xs = storedShows (w\<lparr>storageFaults := bs\<rparr>) userKey"
            using p local_only_upd[OF lo, of w "w\<lparr>storageFaults := bs\<rparr>"]
            by (simp add: storedShows_def)
          show "I (w\<lparr>local_shows := (local_shows w)(userKey \<mapsto> ?m)\<rparr>) \<and> keyOK su userKey"
            using p W[of w userKey cs] by simp
        qed
        show "io_hoare (\<lambda>w. (I w \<and> keyOK su userKey) \<and> xs = storedShows w userKey)
            (io_bind (local_set_shows userKey ?m) (\<lambda>u.
             io_bind (pushRebuilt user ?m) (\<lambda>u. io_return ?m))) ?Q I"
          apply (rule hoare_bind[OF hoare_strengthen_exn[OF set]])
           apply simp
          apply (rule hoare_bind[OF hoare_strengthen_exn[OF inv_pushRebuilt[OF lo']]])
           apply simp
          apply (rule hoare_return)
          apply auto
          done
      qed
      let ?body = "\<lambda>localShows.
           io_bind (remoteSyncedIds user userKey localShows) (\<lambda>syncedIds.
             if syncedIds \<noteq> [] then
               (let localShowIds = map (\<lambda>s. String_id (show_id s)) localShows;
                    missingIds =
                      filter (\<lambda>item. String_id (compact_id item) \<notin> set localShowIds) syncedIds
                in
                  if missingIds \<noteq> [] then
                    (let rebuiltShows = map rebuildShow missingIds;
                         merged = localShows @ rebuiltShows
                     in io_bind (local_set_shows userKey merged) (\<lambda>u.
                        io_bind (pushRebuilt user merged) (\<lambda>u.
                        io_return merged)))
                  else if localShows = [] \<and> syncedIds \<noteq> [] then
                    (let rebuiltShows = map rebuildShow syncedIds
                     in io_bind (local_set_shows userKey rebuiltShows) (\<lambda>u.
                        io_bind (pushRebuilt user rebuiltShows) (\<lambda>u.
                        io_return rebuiltShows)))
                  else io_return localShows)
             else io_return localShows)"
      have main: "io_hoare (\<lambda>w. I w \<and> keyOK su userKey)
          (io_bind (local_get_shows userKey) ?body) ?Q I"
      proof (rule hoare_bind[where R = "\<lambda>xs w. (I w \<and> keyOK su userKey) \<and> xs = storedShows w userKey"])
        have lo2: "local_only (\<lambda>w. I w \<and> keyOK su userKey)"
          using lo unfolding local_only_def by metis
        show "io_hoare (\<lambda>w. I w \<and> keyOK su userKey) (local_get_shows userKey)
           (\<lambda>xs w. (I w \<and> keyOK su userKey) \<and> xs = storedShows w userKey) I"
          by (rule hoare_strengthen_exn[OF hoare_local_get[OF lo2, of userKey]]) simp
      next
        fix localShows
        let ?I3 = "\<lambda>w. (I w \<and> keyOK su userKey) \<and> localShows = storedShows w userKey"
        have lo3: "local_only ?I3"
          using lo unfolding local_only_def storedShows_def by metis
        show "io_hoare ?I3
           (io_bind (remoteSyncedIds user userKey localShows) (\<lambda>syncedIds.
             if syncedIds \<noteq> [] then
               (let localShowIds = map (\<lambda>s. String_id (show_id s)) localShows;
                    missingIds =
                      filter (\<lambda>item. String_id (compact_id item) \<notin> set localShowIds) syncedIds
                in
                  if missingIds \<noteq> [] then
                    (let rebuiltShows = map rebuildShow missingIds;
                         merged = localShows @ rebuiltShows
                     in io_bind (local_set_shows userKey merged) (\<lambda>u.
                        io_bind (pushRebuilt user merged) (\<lambda>u.
                        io_return merged)))
                  else if localShows = [] \<and> syncedIds \<noteq> [] then
                    (let rebuiltShows = map rebuildShow syncedIds
                     in io_bind (local_set_shows userKey rebuiltShows) (\<lambda>u.
                        io_bind (pushRebuilt user rebuiltShows) (\<lambda>u.
                        io_return rebuiltShows)))
                  else io_return localShows)
             else io_return localShows)) ?Q I"
        proof (rule hoare_bind[OF hoare_strengthen_exn[OF inv_remoteSyncedIds[OF lo3]]])
          fix w assume "?I3 w" then show "I w" by simp
        next
          fix syncedIds
          have ret: "io_hoare ?I3 (io_return localShows) ?Q I"
            by (rule hoare_return) auto
          show "io_hoare ?I3
             (if syncedIds \<noteq> [] then
               (let localShowIds = map (\<lambda>s. String_id (show_id s)) localShows;
                    missingIds =
                      filter (\<lambda>item. String_id (compact_id item) \<notin> set localShowIds) syncedIds
                in
                  if missingIds \<noteq> [] then
                    (let rebuiltShows = map rebuildShow missingIds;
                         merged = localShows @ rebuiltShows
                     in io_bind (local_set_shows userKey merged) (\<lambda>u.
                        io_bind (pushRebuilt user merged) (\<lambda>u.
                        io_return merged)))
                  else if localShows = [] \<and> syncedIds \<noteq> [] then
                    (let rebuiltShows = map rebuildShow syncedIds
                     in io_bind (local_set_shows userKey rebuiltShows) (\<lambda>u.
                        io_bind (pushRebuilt user rebuiltShows) (\<lambda>u.
                        io_return rebuiltShows)))
                  else io_return localShows)
             else io_return localShows) ?Q I"
            unfolding Let_def
            apply (rule hoare_if)
             apply (rule hoare_if)
              apply (rule writeOK)
             apply (rule hoare_if)
            subgoal using writeOK[of "[]" syncedIds] by simp
             apply (rule ret)
            apply (rule ret)
            done
        qed
      qed
      show ?thesis
        unfolding Some option.case
        by (rule hoare_weaken[OF main]) auto
    qed
  qed
qed

lemma inv_getUserShows:
  assumes lo: "local_only I"
    and W: "\<And>w k cs. I w \<Longrightarrow> keyOK su k \<Longrightarrow>
              I (w\<lparr>local_shows := (local_shows w)(k := Some (storedShows w k @ map rebuildShow cs))\<rparr>)"
  shows "st_hoare I (getUserShows su)
           (\<lambda>xs w. I w \<and> (xs = [] \<or> (\<exists>k. keyOK su k \<and> xs = storedShows w k)))"
  unfolding getUserShows_def
  by (rule hoare_catch[OF inv_getUserShows_body[OF lo W]]) (auto simp: st_hoare_def)

lemma inv_saveUserShows_body:
  assumes lo: "local_only I"
    and W: "\<And>w k. I w \<Longrightarrow> keyOK su k \<Longrightarrow> I (w\<lparr>local_shows := (local_shows w)(k := Some shows)\<rparr>)"
  shows "io_hoare I (saveUserShows_body shows su) (\<lambda>x. I) I"
  unfolding saveUserShows_body_def
proof (rule hoare_bind[OF inv_resolveUser[OF lo]])
  fix user
  let ?R2 = "\<lambda>ensured w. I w \<and> (\<forall>k. snd ensured = Some k \<longrightarrow> keyOK su k)"
  have ens: "st_hoare (\<lambda>w. I w \<and> (\<forall>u. su = Some u \<longrightarrow> user = Some u)) (ensureUserStorageKey user) ?R2"
    unfolding st_hoare_def
  proof (intro allI impI)
    fix w assume a: "I w \<and> (\<forall>u. su = Some u \<longrightarrow> user = Some u)"
    obtain eu ek w' where e: "ensureUserStorageKey user w = ((eu, ek), w')"
      by (metis prod.collapse)
    have "I w'" using inv_ensure[OF lo, of w user] a e by simp
    moreover have "\<And>k. ek = Some k \<Longrightarrow> keyOK su k"
    proof -
      fix k assume "ek = Some k"
      with e have "keyOK user k" by (auto dest: ensure_keyOK)
      then show "keyOK su k" using a by (cases su) (auto simp: keyOK_def)
    qed
    ultimately show "case ensureUserStorageKey user w of (ensured, w') \<Rightarrow> ?R2 ensured w'"
      using e by simp
  qed
  show "io_hoare (\<lambda>w. I w \<and> (\<forall>u. su = Some u \<longrightarrow> user = Some u))
     (io_bind (io_lift (ensureUserStorageKey user)) (\<lambda>ensured.
       case snd ensured of
         None \<Rightarrow> io_return ()
       | Some userKey \<Rightarrow>
           io_bind (local_set_shows userKey shows) (\<lambda>u.
             if isSupabaseUser user \<and> isSupabaseConfigured then
               io_bind getStoredSession (\<lambda>sess.
               io_bind (upsertSupabaseShows
                          (or_else (case user of None \<Rightarrow> None | Some u \<Rightarrow> userId u)
                                   (getSessionUserId sess)) shows) (\<lambda>error. io_return ()))
             else io_return ()))) (\<lambda>x. I) I"
  proof (rule hoare_bind[OF hoare_lift[OF ens]])
    fix ensured
    show "io_hoare (?R2 ensured)
       (case snd ensured of
         None \<Rightarrow> io_return ()
       | Some userKey \<Rightarrow>
           io_bind (local_set_shows userKey shows) (\<lambda>u.
             if isSupabaseUser user \<and> isSupabaseConfigured then
               io_bind getStoredSession (\<lambda>sess.
               io_bind (upsertSupabaseShows
                          (or_else (case user of None \<Rightarrow> None | Some u \<Rightarrow> userId u)
                                   (getSessionUserId sess)) shows) (\<lambda>error. io_return ()))
             else io_return ())) (\<lambda>x. I) I"
    proof (cases "snd ensured")
      case None
      then show ?thesis by (simp add: hoare_return)
    next
      case (Some userKey)
      have set: "io_hoare (\<lambda>w. I w \<and> keyOK su userKey) (local_set_shows userKey shows)
           (\<lambda>u w. I w \<and> shows = storedShows w userKey) I"
      proof (rule hoare_local_set[OF lo])
        fix w bs assume p: "I w \<and> keyOK su userKey"
        show "I w" using p by simp
        show "I (w\<lparr>storageFaults := bs\<rparr>) \<and> keyOK su userKey"
          using p local_only_upd[OF lo, of w "w\<lparr>storageFaults := bs\<rparr>"] by simp
        show "I (w\<lparr>local_shows := (local_shows w)(userKey \<mapsto> shows)\<rparr>)"
          using p W[of w userKey] by simp
      qed
      have main: "io_hoare (\<lambda>w. I w \<and> keyOK su userKey)
           (io_bind (local_set_shows userKey shows) (\<lambda>u.
             if isSupabaseUser user \<and> isSupabaseConfigured then
               io_bind getStoredSession (\<lambda>sess.
               io_bind (upsertSupabaseShows
                          (or_else (case user of None \<Rightarrow> None | Some u \<Rightarrow> userId u)
                                   (getSessionUserId sess)) shows) (\<lambda>error. io_return ()))
             else io_return ())) (\<lambda>x. I) I"
        apply (rule hoare_bind[OF hoare_weaken[OF set, where Q = "\<lambda>x. I"]])
           apply simp
          apply simp
         apply simp
        apply (rule hoare_if)
         apply (rule hoare_bind[OF inv_getStoredSession[OF lo]])
         apply (rule hoare_bind[OF inv_upsert[OF lo]])
         apply (rule inv_return)
        apply (rule inv_return)
        done
      show ?thesis
        unfolding Some option.case
        by (rule hoare_weaken[OF main]) auto
    qed
  qed
qed

lemma inv_saveUserShows:
  assumes lo: "local_only I"
    and W: "\<And>w k. I w \<Longrightarrow> keyOK su k \<Longrightarrow> I (w\<lparr>local_shows := (local_shows w)(k := Some shows)\<rparr>)"
    and "I w"
  shows "I (saveUserShows shows su w)"
proof -
  have "st_hoare I (io_catch (saveUserShows_body shows su) (\<lambda>err w. ((), w))) (\<lambda>x. I)"
    by (rule hoare_catch[OF inv_saveUserShows_body[OF lo W]]) (auto simp: st_hoare_def)
  from st_hoareD[OF this assms(3)] show ?thesis
    unfolding saveUserShows_def by (metis prod.collapse)
qed

lemma local_only_progress: "local_only progressInvariant"
  by (simp add: local_only_def progressInvariant_def)

lemma watchedNonNeg_rebuild: "watchedNonNeg (rebuildShow c)"
  by (cases c) (simp_all add: watchedNonNeg_def)

lemma progress_storedShows: "progressInvariant w \<Longrightarrow> s \<in> set (storedShows w k) \<Longrightarrow> watchedNonNeg s"
  by (cases "local_shows w k") (auto simp: progressInvariant_def storedShows_def)

lemma progress_write:
  "progressInvariant w \<Longrightarrow> \<forall>s\<in>set xs. watchedNonNeg s \<Longrightarrow>
   progressInvariant (w\<lparr>local_shows := (local_shows w)(k := Some xs)\<rparr>)"
  by (auto simp: progressInvariant_def)

lemma progress_update:
  assumes "progressInvariant w"
  shows "progressInvariant (updateWatchedProgress showId delta w)"
proof -
  obtain shws w1 where g: "getUserShows None w = (shws, w1)" by (metis prod.collapse)
  have gh: "st_hoare progressInvariant (getUserShows None)
     (\<lambda>xs w. progressInvariant w \<and> (xs = [] \<or> (\<exists>k. keyOK None k \<and> xs = storedShows w k)))"
    by (rule inv_getUserShows[OF local_only_progress])
       (auto intro!: progress_write simp: watchedNonNeg_rebuild dest: progress_storedShows)
  from st_hoareD[OF gh assms g]
  have I1: "progressInvariant w1" and xs: "shws = [] \<or> (\<exists>k. shws = storedShows w1 k)"
    by auto
  have nn: "\<forall>s\<in>set shws. watchedNonNeg s"
    using xs I1 by (auto dest: progress_storedShows)
  show ?thesis
  proof (cases "findIndex (\<lambda>s. show_id s = showId) shws")
    case None
    then show ?thesis using g I1 by (simp add: updateWatchedProgress_def)
  next
    case (Some i)
    let ?cur = "(case watchedEpisode (shws ! i) of None \<Rightarrow> 0 | Some n \<Rightarrow> n) + delta"
    let ?new = "(shws ! i)\<lparr>watchedEpisode := Some (if ?cur < 0 then 0 else ?cur)\<rparr>"
    have "watchedNonNeg ?new" by (simp add: watchedNonNeg_def)
    then have nn': "\<forall>s\<in>set (shws[i := ?new]). watchedNonNeg s"
      using nn by (auto dest!: set_update_subset_insert[THEN subsetD])
    have "progressInvariant (saveUserShows (shws[i := ?new]) None w1)"
      by (rule inv_saveUserShows[OF local_only_progress _ I1]) (rule progress_write[OF _ nn'])
    then show ?thesis using g Some by (simp add: updateWatchedProgress_def Let_def)
  qed
qed

lemma progress_sequence:
  "progressInvariant w \<Longrightarrow> progressInvariant (updateSequence ups w)"
  unfolding updateSequence_def
  by (induction ups arbitrary: w) (auto simp: progress_update)

lemma local_get_ok: "storageFaults w = [] \<Longrightarrow> local_get_shows k w = (Inr (storedShows w k), w)"
  by (simp add: local_get_shows_def storage_call_ok io_lift_def storedShows_def)

lemma local_set_ok:
  "storageFaults w = [] \<Longrightarrow>
   local_set_shows k xs w = (Inr (), w\<lparr>local_shows := (local_shows w)(k := Some xs)\<rparr>)"
  by (simp add: local_set_shows_def storage_call_ok io_lift_def)

lemma fetch_invalid:
  "storageFaults w = [] \<Longrightarrow> \<not> isSessionValid (clock w) (local_session w) \<Longrightarrow>
   fetchSupabaseShows uid w = (Inr ([], Some ''No valid session''), w)"
  by (simp add: fetchSupabaseShows_def io_bind_def getStoredSession_ok io_lift_def io_return_def)

lemma upsert_invalid:
  "storageFaults w = [] \<Longrightarrow> \<not> isSessionValid (clock w) (local_session w) \<Longrightarrow>
   upsertSupabaseShows uid xs w = (Inr (Some ''No valid session''), w)"
  by (simp add: upsertSupabaseShows_def io_bind_def getStoredSession_ok io_lift_def io_return_def)

lemma upsert_ok':
  "storageFaults w = [] \<Longrightarrow> network w = [] \<Longrightarrow> isSessionValid (clock w) (local_session w) \<Longrightarrow>
   isSupabaseUser (Some u) \<Longrightarrow>
   upsertSupabaseShows (userId u) xs w = (Inr None, pushToRemote u xs w)"
  by (simp add: upsert_ok pushToRemote_def)

lemma remoteSyncedIds_quiet:
  assumes "storageFaults w = []" "network w = []"
  shows "remoteSyncedIds (Some u) k localShows w =
     (if \<not> isSupabaseUser (Some u) \<or> \<not> isSessionValid (clock w) (local_session w)
      then (Inr [], w)
      else if remoteRowsOf w u = [] then
        (if localShows \<noteq> [] then (Inr [], pushToRemote u localShows w)
         else (Inr (case sync_ids w (k @ ''_ids'') of None \<Rightarrow> [] | Some cs \<Rightarrow> cs), w))
      else (Inr (mapSupabaseRowsToMinimal (remoteRowsOf w u)), w))"
proof (cases "isSupabaseUser (Some u)")
  case False
  then show ?thesis by (simp add: remoteSyncedIds_def io_return_def)
next
  case True
  show ?thesis
  proof (cases "isSessionValid (clock w) (local_session w)")
    case False
    then show ?thesis using assms True
      by (simp add: remoteSyncedIds_def io_bind_def getStoredSession_ok fetch_invalid io_return_def)
  next
    case valid: True
    show ?thesis
    proof (cases "remoteRowsOf w u = []")
      case False
      then show ?thesis using assms True valid
        by (simp add: remoteSyncedIds_rows)
    next
      case empty: True
      then have f: "filter (\<lambda>r. row_user_id r = userId u) (remoteTable w) = []"
        by (simp add: remoteRowsOf_def)
      show ?thesis
        using assms True valid empty f
        by (simp add: remoteSyncedIds_def io_bind_def getStoredSession_ok isSupabaseUser_userId
              fetch_ok upsert_ok' io_return_def storage_call_ok io_lift_def)
    qed
  qed
qed

lemma pushRebuilt_quiet:
  assumes "storageFaults w = []" "network w = []"
  shows "pushRebuilt (Some u) xs w =
     (Inr (), if isSupabaseUser (Some u) \<and> isSessionValid (clock w) (local_session w)
              then pushToRemote u xs w else w)"
  using assms
  by (cases "isSupabaseUser (Some u)"; cases "isSessionValid (clock w) (local_session w)")
     (simp_all add: pushRebuilt_def io_bind_def getStoredSession_ok isSupabaseUser_userId
        upsert_ok' upsert_invalid io_return_def)

lemma stringIds_Nil: "stringIds [] = []"
  by (simp add: stringIds_def)

lemma filter_all_missing: "filter (\<lambda>item. String_id (compact_id item) \<notin> set []) cs = cs"
  by simp

lemma getUserShows_quiet:
  assumes "storageFaults w = []" "network w = []"
    "currentIdentity su w = Some u" "getUserShowsKey (UserObject u) = Some k"
  shows "getUserShows su w = getUserShows_quiet u k w"
proof -
  have ids: "\<And>xs. map (\<lambda>s. String_id (show_id s)) xs = stringIds xs"
    by (simp add: stringIds_def)
  note base = getUserShows_def getUserShows_body_def io_catch_def io_bind_def resolveUser_ok
        io_lift_def ensure_key local_get_ok remoteSyncedIds_quiet ids getUserShows_quiet_def
  show ?thesis
  proof (cases "\<not> isSupabaseUser (Some u) \<or> \<not> isSessionValid (clock w) (local_session w)")
    case True
    then show ?thesis using assms by (simp add: base io_return_def)
  next
    case False
    then have sv: "isSupabaseUser (Some u)" "isSessionValid (clock w) (local_session w)" by auto
    show ?thesis
    proof (cases "remoteRowsOf w u = []")
      case empty: True
      show ?thesis
      proof (cases "storedShows w k = []")
        case False
        then show ?thesis using assms sv empty
          by (simp add: base io_return_def pushToRemote_def Let_def)
      next
        case True
        show ?thesis
        proof (cases "(case sync_ids w (k @ ''_ids'') of None \<Rightarrow> [] | Some cs \<Rightarrow> cs) = []")
          case True
          then show ?thesis using assms sv empty \<open>storedShows w k = []\<close>
            by (simp add: base io_return_def Let_def)
        next
          case False
          then show ?thesis using assms sv empty \<open>storedShows w k = []\<close>
            by (simp add: base Let_def stringIds_Nil local_set_ok pushRebuilt_quiet io_return_def
                  pushToRemote_def)
        qed
      qed
    next
      case False
      show ?thesis
      proof (cases "missingRows (storedShows w k) (remoteRowsOf w u) = []")
        case True
        have ne: "storedShows w k \<noteq> []"
          using True False by (auto simp: missingRows_def stringIds_def)
        show ?thesis using assms sv False True ne
          by (simp add: base Let_def missing_filter missingRows_def[symmetric] io_return_def)
      next
        case missing: False
        show ?thesis
          using getUserShows_rebuild[OF assms(1,2) sv(2) assms(3,4) sv(1) False missing] sv False missing
          by (simp add: getUserShows_quiet_def Let_def pushToRemote_def)
      qed
    qed
  qed
qed

lemma saveUserShows_quiet:
  assumes "storageFaults w = []" "network w = []"
    "currentIdentity su w = Some u" "getUserShowsKey (UserObject u) = Some k"
  shows "saveUserShows xs su w = saveUserShows_quiet xs u k w"
  using assms
  by (cases "isSupabaseUser (Some u)"; cases "isSessionValid (clock w) (local_session w)")
     (simp_all add: saveUserShows_def saveUserShows_body_def io_catch_def io_bind_def resolveUser_ok
        io_lift_def ensure_key local_set_ok getStoredSession_ok isSupabaseUser_userId
        upsert_ok' upsert_invalid io_return_def saveUserShows_quiet_def pushToRemote_def)

lemma currentIdentity_local_upd [simp]:
  "currentIdentity su (w\<lparr>local_shows := f\<rparr>) = currentIdentity su w"
  by (simp add: currentIdentity_def split: option.splits)

lemma currentIdentity_remote_upd [simp]:
  "currentIdentity su (w\<lparr>remoteTable := f\<rparr>) = currentIdentity su w"
  by (simp add: currentIdentity_def split: option.splits)

lemma pushToRemote_simps [simp]:
  "storageFaults (pushToRemote u xs w) = storageFaults w"
  "network (pushToRemote u xs w) = network w"
  "local_shows (pushToRemote u xs w) = local_shows w"
  "clock (pushToRemote u xs w) = clock w"
  "local_session (pushToRemote u xs w) = local_session w"
  "currentIdentity su (pushToRemote u xs w) = currentIdentity su w"
  "sync_currentUser (pushToRemote u xs w) = sync_currentUser w"
  "local_currentUser (pushToRemote u xs w) = local_currentUser w"
  "storedShows (pushToRemote u xs w) k = storedShows w k"
  by (simp_all add: pushToRemote_def storedShows_def)

lemma get_quiet_frame:
  "storageFaults (snd (getUserShows_quiet u k w)) = storageFaults w"
  "network (snd (getUserShows_quiet u k w)) = network w"
  "clock (snd (getUserShows_quiet u k w)) = clock w"
  "local_session (snd (getUserShows_quiet u k w)) = local_session w"
  "currentIdentity su (snd (getUserShows_quiet u k w)) = currentIdentity su w"
  "sync_currentUser (snd (getUserShows_quiet u k w)) = sync_currentUser w"
  "local_currentUser (snd (getUserShows_quiet u k w)) = local_currentUser w"
  by (simp_all add: getUserShows_quiet_def Let_def)

lemma get_quiet_stored:
  "storedShows (snd (getUserShows_quiet u k w)) k = fst (getUserShows_quiet u k w)"
  by (simp add: getUserShows_quiet_def Let_def storedShows_def)

lemma get_quiet_other:
  "k' \<noteq> k \<Longrightarrow> local_shows (snd (getUserShows_quiet u k w)) k' = local_shows w k'"
  by (simp add: getUserShows_quiet_def Let_def)

lemma save_quiet_frame:
  "storageFaults (saveUserShows_quiet xs u k w) = storageFaults w"
  "network (saveUserShows_quiet xs u k w) = network w"
  "clock (saveUserShows_quiet xs u k w) = clock w"
  "local_session (saveUserShows_quiet xs u k w) = local_session w"
  "currentIdentity su (saveUserShows_quiet xs u k w) = currentIdentity su w"
  "local_shows (saveUserShows_quiet xs u k w) = (local_shows w)(k := Some xs)"
  by (simp_all add: saveUserShows_quiet_def Let_def)

subsection \<open>The repository when requests are answered in any way\<close>

lemma net_call_frame [simp]:
  "storageFaults (snd (net_call w)) = storageFaults w"
  "local_shows (snd (net_call w)) = local_shows w"
  "remoteTable (snd (net_call w)) = remoteTable w"
  "clock (snd (net_call w)) = clock w"
  "local_session (snd (net_call w)) = local_session w"
  "sync_currentUser (snd (net_call w)) = sync_currentUser w"
  "local_currentUser (snd (net_call w)) = local_currentUser w"
  "currentUser_var (snd (net_call w)) = currentUser_var w"
  "sync_ids (snd (net_call w)) = sync_ids w"
  by (simp_all add: net_call_def split: list.splits)

lemma net_call_local_upd [simp]:
  "net_call (w\<lparr>local_shows := f\<rparr>) = (fst (net_call w), (snd (net_call w))\<lparr>local_shows := f\<rparr>)"
  by (simp add: net_call_def split: list.splits)

lemma fetch_any:
  "storageFaults w = [] \<Longrightarrow> isSessionValid (clock w) (local_session w) \<Longrightarrow>
   fetchSupabaseShows uid w =
     ((case fst (net_call w) of
         NetReject \<Rightarrow> Inl NetworkError
       | NetHttpError text \<Rightarrow> Inr ([], Some (if text = [] then ''Fetch failed'' else text))
       | NetOk \<Rightarrow> Inr (filter (\<lambda>r. row_user_id r = uid) (remoteTable w), None)),
      snd (net_call w))"
  by (simp add: fetchSupabaseShows_def io_bind_def getStoredSession_ok io_lift_def split_beta
        io_return_def io_throw_def split: net_outcome.splits)

lemma upsert_any:
  "storageFaults w = [] \<Longrightarrow> isSessionValid (clock w) (local_session w) \<Longrightarrow>
   upsertSupabaseShows uid xs w =
     (case fst (net_call w) of
        NetReject \<Rightarrow> (Inl NetworkError, snd (net_call w))
      | NetHttpError text \<Rightarrow>
          (Inr (Some (if text = [] then ''Upsert failed'' else text)), snd (net_call w))
      | NetOk \<Rightarrow>
          (Inr None,
           (snd (net_call w))\<lparr>remoteTable :=
              upsertRows (mapShowsToSupabaseRows uid (clock w) xs) (remoteTable w)\<rparr>))"
  by (simp add: upsertSupabaseShows_def io_bind_def getStoredSession_ok io_lift_def split_beta
        io_return_def io_throw_def split: net_outcome.splits)

lemma upsert_frame:
  assumes "storageFaults w = []"
  shows "sameFrame w (snd (upsertSupabaseShows uid xs w)) \<and>
         local_shows (snd (upsertSupabaseShows uid xs w)) = local_shows w"
  using assms
  by (cases "isSessionValid (clock w) (local_session w)")
     (simp_all add: upsert_any upsert_invalid sameFrame_def split: net_outcome.splits)



lemma sameFrame_refl: "storageFaults w = [] \<Longrightarrow> sameFrame w w"
  by (simp add: sameFrame_def)



lemma save_any:
  assumes "storageFaults w = []" "currentIdentity su w = Some u"
    "getUserShowsKey (UserObject u) = Some k"
  shows "local_shows (saveUserShows xs su w) = (local_shows w)(k := Some xs)"
proof -
  let ?w1 = "w\<lparr>local_shows := (local_shows w)(k := Some xs)\<rparr>"
  let ?uid = "or_else (userId u) (getSessionUserId (local_session w))"
  have s1: "storageFaults ?w1 = []" using assms(1) by simp
  note u = upsert_frame[OF s1, of ?uid xs]
  show ?thesis using assms u
    by (simp add: saveUserShows_def saveUserShows_body_def io_catch_def io_bind_def resolveUser_ok
          io_lift_def ensure_key local_set_ok getStoredSession_ok io_return_def split_beta
          split: sum.splits)
qed



lemma remoteSyncedIds_answered:
  assumes "storageFaults w = []" "isSessionValid (clock w) (local_session w)"
    "isSupabaseUser (Some u)" "fst (net_call w) = NetOk" "remoteRowsOf w u \<noteq> []"
  shows "remoteSyncedIds (Some u) k localShows w =
           (Inr (mapSupabaseRowsToMinimal (remoteRowsOf w u)), snd (net_call w))"
  using assms
  by (simp add: remoteSyncedIds_def io_bind_def getStoredSession_ok isSupabaseUser_userId fetch_any
        io_return_def remoteRowsOf_def)

lemma pushRebuilt_any:
  assumes "storageFaults w = []" "isSessionValid (clock w) (local_session w)"
    "isSupabaseUser (Some u)"
  shows "pushRebuilt (Some u) xs w =
     (case fst (net_call w) of
        NetReject \<Rightarrow> (Inl NetworkError, snd (net_call w))
      | NetHttpError text \<Rightarrow> (Inr (), snd (net_call w))
      | NetOk \<Rightarrow>
          (Inr (),
           (snd (net_call w))\<lparr>remoteTable :=
              upsertRows (mapShowsToSupabaseRows (userId u) (clock w) xs) (remoteTable w)\<rparr>))"
  using assms
  by (simp add: pushRebuilt_def io_bind_def getStoredSession_ok isSupabaseUser_userId upsert_any
        io_return_def split: net_outcome.splits)

lemma getUserShows_rows:
  assumes "storageFaults w = []" "isSessionValid (clock w) (local_session w)"
    "currentIdentity su w = Some u" "getUserShowsKey (UserObject u) = Some k"
    "isSupabaseUser (Some u)" "fst (net_call w) = NetOk" "remoteRowsOf w u \<noteq> []"
  shows "getUserShows su w =
     (let localShows = storedShows w k;
          missing = missingRows localShows (remoteRowsOf w u);
          merged = localShows @ map placeholder missing;
          w1 = snd (net_call w)
      in if missing = [] then (localShows, w1)
         else
           (case fst (net_call w1) of
              NetReject \<Rightarrow>
                ([], (snd (net_call w1))\<lparr>local_shows := (local_shows w)(k := Some merged)\<rparr>)
            | NetHttpError text \<Rightarrow>
                (merged, (snd (net_call w1))\<lparr>local_shows := (local_shows w)(k := Some merged)\<rparr>)
            | NetOk \<Rightarrow>
                (merged,
                 (snd (net_call w1))\<lparr>local_shows := (local_shows w)(k := Some merged),
                    remoteTable := upsertRows (mapShowsToSupabaseRows (userId u) (clock w) merged)
                                     (remoteTable w)\<rparr>)))"
proof -
  let ?xs = "storedShows w k"
  let ?miss = "missingRows ?xs (remoteRowsOf w u)"
  let ?w1 = "snd (net_call w)"
  have ids: "map (\<lambda>s. String_id (show_id s)) ?xs = stringIds ?xs"
    by (simp add: stringIds_def)
  have rs: "remoteSyncedIds (Some u) k ?xs w = (Inr (mapSupabaseRowsToMinimal (remoteRowsOf w u)), ?w1)"
    by (rule remoteSyncedIds_answered[OF assms(1,2,5,6,7)])
  have ne: "?miss = [] \<Longrightarrow> ?xs \<noteq> []"
    using assms(7) by (auto simp: missingRows_def stringIds_def filter_empty_conv)
  have s1: "storageFaults ?w1 = []" "isSessionValid (clock ?w1) (local_session ?w1)"
    using assms(1,2) by simp_all
  show ?thesis
  proof (cases "?miss = []")
    case True
    then show ?thesis
      using assms(1,3,4,7) ne
      by (simp add: getUserShows_def getUserShows_body_def io_catch_def io_bind_def resolveUser_ok
        io_lift_def ensure_key local_get_ok rs ids missing_filter rebuild_map Let_def
        missingRows_def[symmetric] io_return_def)
  next
    case False
    let ?m = "?xs @ map placeholder ?miss"
    let ?w2 = "?w1\<lparr>local_shows := (local_shows w)(k := Some ?m)\<rparr>"
    have s2: "storageFaults ?w2 = []" "isSessionValid (clock ?w2) (local_session ?w2)"
      using assms(1,2) by simp_all
    note pr = pushRebuilt_any[OF s2 assms(5), of ?m]
    show ?thesis
      using assms(1,3,4,7) False
      apply (simp add: getUserShows_def getUserShows_body_def io_catch_def io_bind_def resolveUser_ok
        io_lift_def ensure_key local_get_ok rs ids missing_filter rebuild_map Let_def
        missingRows_def[symmetric])
      apply (simp add: local_set_ok s1 io_bind_def pr io_return_def split: net_outcome.splits)
      done
  qed
qed

subsection \<open>The claims about the repository and the list operations\<close>

lemma ex_keys:
  "getUserShowsKey (UserObject ex_guest) = Some ''shows_user_g_1''"
  "getUserShowsKey (UserObject ex_account) = Some ''shows_ann_x_org''"
  by (simp_all add: getUserShowsKey_def ex_guest_def ex_account_def sanitizeUserKeyPart_def
        toLowerCase_def toLowerCase_char_def in_a_z_0_9_def)

lemma setStorageData_ok:
  "storageFaults w = [] \<Longrightarrow> storageFaults (su w) = [] \<Longrightarrow> setStorageData su lu w = lu (su w)"
  by (simp add: setStorageData_def io_catch_def io_bind_def io_lift_def storage_call_ok)

lemma setCurrentUser_ok:
  "storageFaults w = [] \<Longrightarrow>
   setCurrentUser u w =
     w\<lparr>sync_currentUser := Some u, local_currentUser := Some u, currentUser_var := Some u\<rparr>"
  by (simp add: setCurrentUser_def setStorageData_ok)

lemma key_heal:
  "getUserShowsKey (UserObject u) = None \<Longrightarrow> i \<noteq> [] \<Longrightarrow>
   getUserShowsKey (UserObject (u\<lparr>userId := Some i\<rparr>)) = Some (''shows_user_'' @ sanitizeUserKeyPart i)"
  by (auto simp: getUserShowsKey_def split: option.splits)

lemma ensure_keyless:
  assumes "storageFaults w = []" "getUserShowsKey (UserObject u) = None"
    "uuids w (uuidCount w) \<noteq> []"
  shows "\<exists>i w'. i \<noteq> [] \<and>
     ensureUserStorageKey (Some u) w =
       ((Some (u\<lparr>userId := Some i\<rparr>), Some (''shows_user_'' @ sanitizeUserKeyPart i)), w') \<and>
     storageFaults w' = [] \<and> local_shows w' = local_shows w \<and>
     sync_currentUser w' = Some (u\<lparr>userId := Some i\<rparr>)"
proof -
  let ?ss = "case sync_simpleUser w of Some v \<Rightarrow> Some v | None \<Rightarrow> local_simpleUser w"
  have g: "getStorageData sync_simpleUser local_simpleUser w = (?ss, w)"
    using assms(1) by (rule getStorageData_ok)
  show ?thesis
  proof (cases "case ?ss of None \<Rightarrow> None | Some su \<Rightarrow> truthy_string (userId su)")
    case (Some sid)
    then have ne: "sid \<noteq> []" by (auto simp: truthy_string_Some split: option.splits)
    show ?thesis
      apply (rule exI[of _ sid])
      using Some assms ne
      by (simp add: ensureUserStorageKey_def g Let_def key_heal setCurrentUser_ok)
  next
    case None
    let ?i = "uuids w (uuidCount w)"
    have ne: "?i \<noteq> []" using assms(3) .
    show ?thesis
      apply (rule exI[of _ ?i])
      using None assms(1,2) ne
      by (simp add: ensureUserStorageKey_def g Let_def key_heal generateUserId_def
            setCurrentUser_ok setStorageData_ok)
  qed
qed

text \<open>
  Claim C3, amended. Let no storage call reject, and let the identity the two calls work
  for (the argument, or the stored current user when there is none) not be a remotely
  synced one. Let it carry a key-bearing field; or let it be the stored current user
  without any such field, not of an account, for which the first call fabricates a
  non-empty user id and stores the completed identity. Then \<open>getUserShows\<close> after
  \<open>saveUserShows L\<close> returns exactly \<open>L\<close> and leaves the world as the save left it;
  the local tier holds \<open>L\<close> under the identity's key; in particular the two lists have
  the same set of stringified ids.
\<close>

theorem saveUserShows_getUserShows_roundtrip:
  assumes "storageFaults w = []" "currentIdentity su w = Some u" "\<not> isSupabaseUser (Some u)"
    "getUserShowsKey (UserObject u) \<noteq> None \<or>
     (su = None \<and> source u \<noteq> Some ''supabase'' \<and> uuids w (uuidCount w) \<noteq> [])"
  shows "getUserShows su (saveUserShows L su w) = (L, saveUserShows L su w) \<and>
         (\<exists>k. local_shows (saveUserShows L su w) k = Some L \<and>
              (\<forall>k'. getUserShowsKey (UserObject u) = Some k' \<longrightarrow> k = k')) \<and>
         set (stringIds (fst (getUserShows su (saveUserShows L su w)))) = set (stringIds L)"
proof (cases "getUserShowsKey (UserObject u)")
  case (Some k)
  have r: "resolveUser su w = (Inr (Some u), w)" using assms(1,2) by (simp add: resolveUser_ok)
  have s: "saveUserShows L su w = w\<lparr>local_shows := (local_shows w)(k := Some L)\<rparr>"
    by (rule saveUserShows_local[OF assms(1) r Some assms(3)])
  let ?w = "w\<lparr>local_shows := (local_shows w)(k := Some L)\<rparr>"
  have r': "resolveUser su ?w = (Inr (Some u), ?w)" using assms(1,2) by (simp add: resolveUser_ok)
  have g: "getUserShows su ?w = (storedShows ?w k, ?w)"
    by (rule getUserShows_local[OF _ r' Some assms(3)]) (simp add: assms(1))
  show ?thesis by (simp add: s g storedShows_def Some)
next
  case None
  with assms(4) have su: "su = None" and src: "source u \<noteq> Some ''supabase''"
    and id: "uuids w (uuidCount w) \<noteq> []" by simp_all
  from ensure_keyless[OF assms(1) None id] obtain i w' where
    i: "i \<noteq> []" and
    e: "ensureUserStorageKey (Some u) w =
       ((Some (u\<lparr>userId := Some i\<rparr>), Some (''shows_user_'' @ sanitizeUserKeyPart i)), w')" and
    f: "storageFaults w' = []" and
    c: "sync_currentUser w' = Some (u\<lparr>userId := Some i\<rparr>)"
    by blast
  let ?k = "''shows_user_'' @ sanitizeUserKeyPart i"
  let ?u' = "u\<lparr>userId := Some i\<rparr>"
  let ?wS = "w'\<lparr>local_shows := (local_shows w')(?k := Some L)\<rparr>"
  have ns': "\<not> isSupabaseUser (Some ?u')" using src by (simp add: isSupabaseUser_def)
  have s: "saveUserShows L None w = ?wS"
    using assms(1,2,3) f su
    by (simp add: saveUserShows_def saveUserShows_body_def io_catch_def io_bind_def resolveUser_ok
          io_lift_def e local_set_ok io_return_def)
  have r: "resolveUser None ?wS = (Inr (Some ?u'), ?wS)"
    using f c by (simp add: resolveUser_ok currentIdentity_def)
  have k: "getUserShowsKey (UserObject ?u') = Some ?k" using None i by (rule key_heal)
  have g: "getUserShows None ?wS = (storedShows ?wS ?k, ?wS)"
    by (rule getUserShows_local[OF _ r k ns']) (simp add: f)
  have a: "getUserShows su (saveUserShows L su w) = (L, saveUserShows L su w)"
    unfolding su s g by (simp add: storedShows_def)
  have b: "local_shows (saveUserShows L su w) ?k = Some L"
    unfolding su s by simp
  from a b show ?thesis by (auto simp: None)
qed

theorem saveUserShows_getUserShows_roundtrip_witness:
  "fst (getUserShows None
     (saveUserShows [ex_show (IdStr ''wd-Q1'') ''A'', ex_show (IdNum 82) ''B''] None
        (ex_world\<lparr>local_currentUser := Some ex_guest\<rparr>)))
   = [ex_show (IdStr ''wd-Q1'') ''A'', ex_show (IdNum 82) ''B''] \<and>
   stringIds (fst (getUserShows None
     (saveUserShows [ex_show (IdStr ''wd-Q1'') ''A'', ex_show (IdNum 82) ''B''] None
        (ex_world\<lparr>local_currentUser := Some ex_guest\<rparr>)))) = [''wd-Q1'', ''82''] \<and>
   fst (getUserShows None
     (saveUserShows [ex_show (IdNum 82) ''B''] None
        (ex_world\<lparr>local_currentUser := Some (ex_guest\<lparr>userId := None\<rparr>)\<rparr>)))
   = [ex_show (IdNum 82) ''B'']"
proof -
  let ?w = "ex_world\<lparr>local_currentUser := Some ex_guest\<rparr>"
  have h1: "storageFaults ?w = []" by (simp add: ex_world_def)
  have h2: "currentIdentity None ?w = Some ex_guest"
    by (simp add: currentIdentity_def ex_world_def)
  have h3: "\<not> isSupabaseUser (Some ex_guest)" by (simp add: isSupabaseUser_def ex_guest_def)
  have h4: "getUserShowsKey (UserObject ex_guest) \<noteq> None \<or>
     (None = (None :: user option) \<and> source ex_guest \<noteq> Some ''supabase'' \<and>
      uuids ?w (uuidCount ?w) \<noteq> [])"
    by (simp add: ex_keys(1))
  let ?v = "ex_world\<lparr>local_currentUser := Some (ex_guest\<lparr>userId := None\<rparr>)\<rparr>"
  have k1: "storageFaults ?v = []" by (simp add: ex_world_def)
  have k2: "currentIdentity None ?v = Some (ex_guest\<lparr>userId := None\<rparr>)"
    by (simp add: currentIdentity_def ex_world_def)
  have k3: "\<not> isSupabaseUser (Some (ex_guest\<lparr>userId := None\<rparr>))"
    by (simp add: isSupabaseUser_def ex_guest_def)
  have k4: "getUserShowsKey (UserObject (ex_guest\<lparr>userId := None\<rparr>)) \<noteq> None \<or>
     (None = (None :: user option) \<and> source (ex_guest\<lparr>userId := None\<rparr>) \<noteq> Some ''supabase'' \<and>
      uuids ?v (uuidCount ?v) \<noteq> [])"
    by (simp add: ex_guest_def ex_world_def)
  from saveUserShows_getUserShows_roundtrip[OF h1 h2 h3 h4,
      of "[ex_show (IdStr ''wd-Q1'') ''A'', ex_show (IdNum 82) ''B'']"]
  have a: "getUserShows None
     (saveUserShows [ex_show (IdStr ''wd-Q1'') ''A'', ex_show (IdNum 82) ''B''] None ?w)
     = ([ex_show (IdStr ''wd-Q1'') ''A'', ex_show (IdNum 82) ''B''],
        saveUserShows [ex_show (IdStr ''wd-Q1'') ''A'', ex_show (IdNum 82) ''B''] None ?w)"
    by blast
  from saveUserShows_getUserShows_roundtrip[OF k1 k2 k3 k4, of "[ex_show (IdNum 82) ''B'']"]
  have b: "getUserShows None (saveUserShows [ex_show (IdNum 82) ''B''] None ?v)
     = ([ex_show (IdNum 82) ''B''], saveUserShows [ex_show (IdNum 82) ''B''] None ?v)"
    by blast
  show ?thesis
    unfolding a b
    by (simp add: stringIds_def ex_show_def String_int_def String_nat.simps digit_char_def)
qed

lemma ex_fresh_keys:
  "getUserShowsKey (UserObject ex_keyless_guest) = None"
  "getUserShowsKey (UserObject (ex_keyless_guest\<lparr>userId := Some ''uuid-0''\<rparr>)) = Some ''shows_user_uuid_0''"
  "getUserShowsKey (UserObject (ex_keyless_guest\<lparr>userId := Some ''uuid-1''\<rparr>)) = Some ''shows_user_uuid_1''"
  by (simp_all add: getUserShowsKey_def ex_keyless_guest_def ex_guest_def sanitizeUserKeyPart_def
        toLowerCase_def toLowerCase_char_def in_a_z_0_9_def)

lemma ensure_fresh:
  assumes "storageFaults w = []" "sync_simpleUser w = None" "local_simpleUser w = None"
  shows "ensureUserStorageKey (Some ex_keyless_guest) w =
     ((Some (ex_keyless_guest\<lparr>userId := Some (uuids w (uuidCount w))\<rparr>),
       getUserShowsKey (UserObject (ex_keyless_guest\<lparr>userId := Some (uuids w (uuidCount w))\<rparr>))),
      w\<lparr>uuidCount := Suc (uuidCount w),
         sync_currentUser := Some (ex_keyless_guest\<lparr>userId := Some (uuids w (uuidCount w))\<rparr>),
         local_currentUser := Some (ex_keyless_guest\<lparr>userId := Some (uuids w (uuidCount w))\<rparr>),
         currentUser_var := Some (ex_keyless_guest\<lparr>userId := Some (uuids w (uuidCount w))\<rparr>)\<rparr>)"
proof -
  have src: "source ex_keyless_guest = Some ''guest''"
    by (simp add: ex_keyless_guest_def ex_guest_def)
  show ?thesis
    using assms
    by (simp add: ensureUserStorageKey_def ex_fresh_keys getStorageData_ok generateUserId_def
          setCurrentUser_ok Let_def src)
qed

text \<open>
  Claim C3, as stated, at a concrete input: a guest identity without e-mail, Google id or
  user id is passed to both calls. Each call fabricates a user id of its own, so the list
  is saved under the key of the first id and read under the key of the second: the read
  returns the empty list.
\<close>

theorem saveUserShows_getUserShows_keyless_counterexample:
  "\<not> isSupabaseUser (Some ex_keyless_guest) \<and>
   local_shows (saveUserShows [ex_show (IdNum 82) ''B''] (Some ex_keyless_guest) ex_fresh_ids_world)
     ''shows_user_uuid_0'' = Some [ex_show (IdNum 82) ''B''] \<and>
   fst (getUserShows (Some ex_keyless_guest)
          (saveUserShows [ex_show (IdNum 82) ''B''] (Some ex_keyless_guest) ex_fresh_ids_world)) = []"
proof -
  let ?L = "[ex_show (IdNum 82) ''B'']"
  let ?g = ex_keyless_guest
  let ?ga = "ex_keyless_guest\<lparr>userId := Some ''uuid-0''\<rparr>"
  let ?gb = "ex_keyless_guest\<lparr>userId := Some ''uuid-1''\<rparr>"
  let ?w = ex_fresh_ids_world
  have ns: "\<not> isSupabaseUser (Some ?g)"
    by (simp add: isSupabaseUser_def ex_keyless_guest_def ex_guest_def)
  have s: "storageFaults ?w = []" "sync_simpleUser ?w = None" "local_simpleUser ?w = None"
    "uuidCount ?w = 0" "uuids ?w 0 = ''uuid-0''" "uuids ?w (Suc 0) = ''uuid-1''"
    "local_shows ?w = (\<lambda>k. None)"
    by (simp_all add: ex_fresh_ids_world_def ex_world_def String_nat.simps digit_char_def)
  let ?w1 = "?w\<lparr>uuidCount := Suc 0, sync_currentUser := Some ?ga,
                local_currentUser := Some ?ga, currentUser_var := Some ?ga\<rparr>"
  let ?w2 = "?w1\<lparr>local_shows := (\<lambda>k. None)(''shows_user_uuid_0'' := Some ?L)\<rparr>"
  have e1: "ensureUserStorageKey (Some ?g) ?w = ((Some ?ga, Some ''shows_user_uuid_0''), ?w1)"
    using ensure_fresh[OF s(1,2,3)] by (simp only: s(4,5) ex_fresh_keys(2))
  have sv: "saveUserShows ?L (Some ?g) ?w = ?w2"
    using ns
    by (simp add: saveUserShows_def saveUserShows_body_def io_catch_def io_bind_def resolveUser_Some
          io_lift_def e1 local_set_ok s io_return_def)
  have s2: "storageFaults ?w2 = []" "sync_simpleUser ?w2 = None" "local_simpleUser ?w2 = None"
    by (simp_all add: s)
  have s3: "uuidCount ?w2 = Suc 0" "uuids ?w2 (Suc 0) = ''uuid-1''"
    by (simp_all add: s)
  let ?w3 = "?w2\<lparr>uuidCount := Suc (Suc 0), sync_currentUser := Some ?gb,
                local_currentUser := Some ?gb, currentUser_var := Some ?gb\<rparr>"
  have e2: "ensureUserStorageKey (Some ?g) ?w2 = ((Some ?gb, Some ''shows_user_uuid_1''), ?w3)"
    using ensure_fresh[OF s2] by (simp only: s3 ex_fresh_keys(3))
  have gt: "getUserShows (Some ?g) ?w2 = ([], ?w3)"
    using ns
    by (simp add: getUserShows_def getUserShows_body_def io_catch_def io_bind_def resolveUser_Some
          io_lift_def e2 local_get_ok s storedShows_def remoteSyncedIds_def io_return_def)
  show ?thesis
    unfolding sv gt using ns by simp
qed

lemma fetch_http_error:
  "storageFaults w = [] \<Longrightarrow> isSessionValid (clock w) (local_session w) \<Longrightarrow>
   network w = NetHttpError text # rest \<Longrightarrow>
   fetchSupabaseShows uid w =
     (Inr ([], Some (if text = [] then ''Fetch failed'' else text)), w\<lparr>network := rest\<rparr>)"
  by (simp add: fetchSupabaseShows_def io_bind_def getStoredSession_ok io_lift_def net_call_def
        io_return_def)

lemma fetch_reject:
  "storageFaults w = [] \<Longrightarrow> isSessionValid (clock w) (local_session w) \<Longrightarrow>
   network w = NetReject # rest \<Longrightarrow>
   fetchSupabaseShows uid w = (Inl NetworkError, w\<lparr>network := rest\<rparr>)"
  by (simp add: fetchSupabaseShows_def io_bind_def getStoredSession_ok io_lift_def net_call_def
        io_throw_def)

lemma getUserShows_remote_error:
  assumes "storageFaults w = []" "currentIdentity su w = Some u"
    "getUserShowsKey (UserObject u) = Some k" "isSupabaseUser (Some u)"
    "\<not> isSessionValid (clock w) (local_session w) \<or> (\<exists>text rest. network w = NetHttpError text # rest)"
  shows "fst (getUserShows su w) = storedShows w k \<and>
         local_shows (snd (getUserShows su w)) = local_shows w \<and>
         remoteTable (snd (getUserShows su w)) = remoteTable w"
proof (cases "isSessionValid (clock w) (local_session w)")
  case False
  have "remoteSyncedIds (Some u) k (storedShows w k) w = (Inr [], w)"
    using assms False
    by (simp add: remoteSyncedIds_def io_bind_def getStoredSession_ok fetch_invalid io_return_def)
  then show ?thesis using assms
    by (simp add: getUserShows_def getUserShows_body_def io_catch_def io_bind_def resolveUser_ok
          io_lift_def ensure_key local_get_ok io_return_def)
next
  case True
  with assms(5) obtain msg rest where n: "network w = NetHttpError msg # rest" by auto
  have "remoteSyncedIds (Some u) k (storedShows w k) w = (Inr [], w\<lparr>network := rest\<rparr>)"
    using assms(1-4) True n
    by (simp add: remoteSyncedIds_def io_bind_def getStoredSession_ok fetch_http_error io_return_def)
  then show ?thesis using assms(1-4)
    by (simp add: getUserShows_def getUserShows_body_def io_catch_def io_bind_def resolveUser_ok
          io_lift_def ensure_key local_get_ok io_return_def)
qed

lemma getUserShows_remote_reject:
  assumes "storageFaults w = []" "currentIdentity su w = Some u"
    "getUserShowsKey (UserObject u) = Some k" "isSupabaseUser (Some u)"
    "isSessionValid (clock w) (local_session w)" "network w = NetReject # rest"
  shows "getUserShows su w = ([], w\<lparr>network := rest\<rparr>)"
proof -
  have "remoteSyncedIds (Some u) k (storedShows w k) w = (Inl NetworkError, w\<lparr>network := rest\<rparr>)"
    using assms
    by (simp add: remoteSyncedIds_def io_bind_def getStoredSession_ok fetch_reject)
  then show ?thesis using assms(1-4)
    by (simp add: getUserShows_def getUserShows_body_def io_catch_def io_bind_def resolveUser_ok
          io_lift_def ensure_key local_get_ok)
qed

lemma getUserShows_quiet_upd:
  assumes "storageFaults w = []" "network w = []"
    "currentIdentity None w = Some u" "getUserShowsKey (UserObject u) = Some k"
    "findIndex (\<lambda>s. show_id s = showId) (fst (getUserShows None w)) = Some i"
  shows "storedShows (updateWatchedProgress showId delta w) k =
     (fst (getUserShows None w))
       [i := (fst (getUserShows None w) ! i)\<lparr>watchedEpisode :=
           Some (max 0 ((case watchedEpisode (fst (getUserShows None w) ! i) of
                           None \<Rightarrow> 0 | Some n \<Rightarrow> n) + delta))\<rparr>]"
proof -
  let ?g = "getUserShows_quiet u k w"
  have g: "getUserShows None w = ?g" by (rule getUserShows_quiet[OF assms(1-4)])
  have s: "\<And>xs. saveUserShows xs None (snd ?g) = saveUserShows_quiet xs u k (snd ?g)"
    by (rule saveUserShows_quiet) (simp_all add: get_quiet_frame assms)
  have m: "\<And>a::int. (if a < 0 then 0 else a) = max 0 a" by (simp add: max_def)
  show ?thesis
    using assms(5)
    by (simp add: updateWatchedProgress_def g split_beta Let_def s save_quiet_frame storedShows_def m)
qed

text \<open>
  Claim C10. If every show in the local tier has no progress or a progress that is not
  negative, the same holds after \<open>updateWatchedProgress\<close> and after any sequence of
  progress updates, whatever the identity and whichever storage calls or requests fail.
  When nothing fails, the show found by its id gets the progress
  \<open>max 0 (old + delta)\<close>, where a missing progress counts as 0.
\<close>

theorem watchedEpisode_never_negative:
  "(progressInvariant w \<longrightarrow>
      progressInvariant (updateWatchedProgress showId delta w) \<and>
      progressInvariant (updateSequence ups w)) \<and>
   (storageFaults w = [] \<and> network w = [] \<and> currentIdentity None w = Some u \<and>
    getUserShowsKey (UserObject u) = Some k \<and>
    findIndex (\<lambda>s. show_id s = showId) (fst (getUserShows None w)) = Some i \<longrightarrow>
      storedShows (updateWatchedProgress showId delta w) k =
        (fst (getUserShows None w))
          [i := (fst (getUserShows None w) ! i)\<lparr>watchedEpisode :=
              Some (max 0 ((case watchedEpisode (fst (getUserShows None w) ! i) of
                              None \<Rightarrow> 0 | Some n \<Rightarrow> n) + delta))\<rparr>])"
  using progress_update[of w showId delta] progress_sequence[of w ups]
    getUserShows_quiet_upd[of w u k showId i delta]
  by blast

lemma upsertRow_keyIn_self: "keyIn r (upsertRow table r)"
  by (auto simp: keyIn_def upsertRow_def same_row_key_def list_ex_iff)

lemma upsertRow_keyIn_mono:
  assumes "keyIn r table"
  shows "keyIn r (upsertRow table r2)"
proof -
  from assms obtain r' where r': "r' \<in> set table" "same_row_key r r'"
    by (auto simp: keyIn_def)
  let ?f = "\<lambda>x. if same_row_key r2 x then r2 else x"
  show ?thesis
  proof (cases "list_ex (same_row_key r2) table")
    case True
    have "?f r' \<in> set (map ?f table)" using r'(1) by (simp only: set_map) (rule imageI)
    moreover have "same_row_key r (?f r')" using r'(2) by (simp add: same_row_key_def)
    ultimately show ?thesis using True unfolding keyIn_def upsertRow_def by (simp only: if_True) blast
  next
    case False
    then show ?thesis using r' unfolding keyIn_def upsertRow_def by auto
  qed
qed

lemma foldl_upsert_mono: "keyIn r table \<Longrightarrow> keyIn r (foldl upsertRow table rows)"
  by (induction rows arbitrary: table) (auto intro: upsertRow_keyIn_mono)

lemma upsertRows_keyIn: "r \<in> set rows \<Longrightarrow> keyIn r (upsertRows rows table)"
  unfolding upsertRows_def
proof (induction rows arbitrary: table)
  case Nil
  then show ?case by simp
next
  case (Cons a rows)
  show ?case
  proof (cases "r = a")
    case True
    then show ?thesis by (simp add: foldl_upsert_mono upsertRow_keyIn_self)
  next
    case False
    with Cons.prems have "r \<in> set rows" by simp
    then show ?thesis using Cons.IH by simp
  qed
qed

lemma pushed_rows:
  assumes "s \<in> set xs"
  shows "\<exists>r\<in>set (upsertRows (mapShowsToSupabaseRows uid now xs) table).
           row_user_id r = uid \<and> row_show_id r = IdStr (String_id (show_id s))"
proof -
  let ?r = "\<lparr>row_user_id = uid,
               row_show_id = IdStr (String_id (show_id s)),
               row_name_short = Some (take 15 (or_string (name s) [])),
               row_content_type = Some (or_string (contentType s) ''tv''),
               row_watched = Some (truthy_bool (watched s)),
               row_priority = Some (truthy_bool (priority s)),
               row_updated_at = now\<rparr>"
  have "?r \<in> set (mapShowsToSupabaseRows uid now xs)"
    using assms by (auto simp: mapShowsToSupabaseRows_def)
  from upsertRows_keyIn[OF this, of table] show ?thesis
    by (auto simp: keyIn_def same_row_key_def)
qed

lemma or_string_nonempty: "d \<noteq> [] \<Longrightarrow> or_string (Some (or_string x d)) d = or_string x d"
  by (cases x) (auto simp: or_string_def)

lemma placeholder_fields:
  "needsRefresh (placeholder r) = Some True"
  "genres (placeholder r) = Some []"
  "status (placeholder r) = Some ''Unknown''"
  "image_url (placeholder r) = None"
  "show_id (placeholder r) = row_show_id r"
  "name (placeholder r) = Some (or_string (row_name_short r) ''Loading...'')"
  "contentType (placeholder r) =
     Some (if row_content_type r = Some ''movies'' then ''movies''
           else if row_content_type r = Some ''anime'' then ''anime'' else ''tv'')"
  "watched (placeholder r) = Some (truthy_bool (row_watched r))"
  "priority (placeholder r) = Some (truthy_bool (row_priority r))"
  by (simp_all add: placeholder_def supabaseRowToMinimal_def or_string_nonempty)

text \<open>
  Claim C1, amended. Let storage answer, the session be valid and the remote tier answer
  the fetch with rows for the identity. When a returned row has a show id that no local
  show has, the local shows followed by one placeholder for every such row are stored in
  the local tier under the identity's key, and that list is sent to the remote tier: when
  the remote tier accepts it, the remote table is the old one with the rows of the list
  upserted, so it has a row for each of its shows, and the list is returned; when the
  remote tier answers with an HTTP error, the remote table stays as it was and the list is
  returned all the same. When no returned row is missing locally, the local list is
  returned and neither the local tier nor the remote table is written. A placeholder has
  \<open>needsRefresh\<close> true, no genres, status \<open>Unknown\<close>, no image, and the id, short
  name, content type, watched and priority flags of its row.
\<close>

theorem getUserShows_compact_rebuild:
  assumes "storageFaults w = []" "isSessionValid (clock w) (local_session w)"
    "currentIdentity su w = Some u" "getUserShowsKey (UserObject u) = Some k"
    "isSupabaseUser (Some u)" "fst (net_call w) = NetOk" "remoteRowsOf w u \<noteq> []"
  shows
   "(missingRows (storedShows w k) (remoteRowsOf w u) \<noteq> [] \<longrightarrow>
       local_shows (snd (getUserShows su w)) k =
         Some (storedShows w k @ map placeholder (missingRows (storedShows w k) (remoteRowsOf w u))) \<and>
       (fst (net_call (snd (net_call w))) = NetOk \<longrightarrow>
          fst (getUserShows su w) =
            storedShows w k @ map placeholder (missingRows (storedShows w k) (remoteRowsOf w u)) \<and>
          remoteTable (snd (getUserShows su w)) =
            upsertRows (mapShowsToSupabaseRows (userId u) (clock w) (fst (getUserShows su w)))
              (remoteTable w) \<and>
          (\<forall>s\<in>set (fst (getUserShows su w)).
             \<exists>r\<in>set (remoteTable (snd (getUserShows su w))).
               row_user_id r = userId u \<and> row_show_id r = IdStr (String_id (show_id s)))) \<and>
       (\<forall>text. fst (net_call (snd (net_call w))) = NetHttpError text \<longrightarrow>
          fst (getUserShows su w) =
            storedShows w k @ map placeholder (missingRows (storedShows w k) (remoteRowsOf w u)) \<and>
          remoteTable (snd (getUserShows su w)) = remoteTable w)) \<and>
    (missingRows (storedShows w k) (remoteRowsOf w u) = [] \<longrightarrow>
       fst (getUserShows su w) = storedShows w k \<and>
       local_shows (snd (getUserShows su w)) = local_shows w \<and>
       remoteTable (snd (getUserShows su w)) = remoteTable w) \<and>
    (\<forall>r\<in>set (remoteRowsOf w u).
       needsRefresh (placeholder r) = Some True \<and> genres (placeholder r) = Some [] \<and>
       status (placeholder r) = Some ''Unknown'' \<and> image_url (placeholder r) = None \<and>
       show_id (placeholder r) = row_show_id r \<and>
       name (placeholder r) = Some (or_string (row_name_short r) ''Loading...'') \<and>
       contentType (placeholder r) =
         Some (if row_content_type r = Some ''movies'' then ''movies''
               else if row_content_type r = Some ''anime'' then ''anime'' else ''tv'') \<and>
       watched (placeholder r) = Some (truthy_bool (row_watched r)) \<and>
       priority (placeholder r) = Some (truthy_bool (row_priority r)))"
proof -
  let ?miss = "missingRows (storedShows w k) (remoteRowsOf w u)"
  let ?m = "storedShows w k @ map placeholder ?miss"
  note g = getUserShows_rows[OF assms]
  have none: "?miss = [] \<Longrightarrow>
       fst (getUserShows su w) = storedShows w k \<and>
       local_shows (snd (getUserShows su w)) = local_shows w \<and>
       remoteTable (snd (getUserShows su w)) = remoteTable w"
    by (simp add: g Let_def)
  have loc: "?miss \<noteq> [] \<Longrightarrow> local_shows (snd (getUserShows su w)) k = Some ?m"
    by (simp add: g Let_def split: net_outcome.splits)
  have cov: "\<forall>s\<in>set ?m.
       \<exists>r\<in>set (upsertRows (mapShowsToSupabaseRows (userId u) (clock w) ?m) (remoteTable w)).
         row_user_id r = userId u \<and> row_show_id r = IdStr (String_id (show_id s))"
    by (intro ballI pushed_rows)
  have ok: "?miss \<noteq> [] \<Longrightarrow> fst (net_call (snd (net_call w))) = NetOk \<Longrightarrow>
          fst (getUserShows su w) = ?m \<and>
          remoteTable (snd (getUserShows su w)) =
            upsertRows (mapShowsToSupabaseRows (userId u) (clock w) (fst (getUserShows su w)))
              (remoteTable w) \<and>
          (\<forall>s\<in>set (fst (getUserShows su w)).
             \<exists>r\<in>set (remoteTable (snd (getUserShows su w))).
               row_user_id r = userId u \<and> row_show_id r = IdStr (String_id (show_id s)))"
    using cov by (simp add: g Let_def)
  have err: "\<And>text. ?miss \<noteq> [] \<Longrightarrow> fst (net_call (snd (net_call w))) = NetHttpError text \<Longrightarrow>
          fst (getUserShows su w) = ?m \<and> remoteTable (snd (getUserShows su w)) = remoteTable w"
    by (simp add: g Let_def)
  have ph: "\<forall>r\<in>set (remoteRowsOf w u).
       needsRefresh (placeholder r) = Some True \<and> genres (placeholder r) = Some [] \<and>
       status (placeholder r) = Some ''Unknown'' \<and> image_url (placeholder r) = None \<and>
       show_id (placeholder r) = row_show_id r \<and>
       name (placeholder r) = Some (or_string (row_name_short r) ''Loading...'') \<and>
       contentType (placeholder r) =
         Some (if row_content_type r = Some ''movies'' then ''movies''
               else if row_content_type r = Some ''anime'' then ''anime'' else ''tv'') \<and>
       watched (placeholder r) = Some (truthy_bool (row_watched r)) \<and>
       priority (placeholder r) = Some (truthy_bool (row_priority r))"
    by (simp add: placeholder_fields)
  from none loc ok err ph show ?thesis by blast
qed

lemma ex_account_world_simps:
  "storageFaults (ex_account_world xs rows) = []"
  "network (ex_account_world xs rows) = []"
  "isSessionValid (clock (ex_account_world xs rows)) (local_session (ex_account_world xs rows))"
  "storedShows (ex_account_world xs rows) ''shows_ann_x_org'' = xs"
  "remoteTable (ex_account_world xs rows) = rows"
  "clock (ex_account_world xs rows) = ex_now"
  by (simp_all add: ex_account_world_def ex_world_def isSessionValid_def ex_session_def
        storedShows_def)

lemma ex_account_remote: "isSupabaseUser (Some ex_account)"
  by (simp add: isSupabaseUser_def ex_account_def)

lemma ex_sel [simp]:
  "show_id (ex_show i n) = i"
  "watchedEpisode (ex_show i n) = None"
  "row_show_id (ex_row j) = IdStr j"
  "row_user_id (ex_row j) = Some ''acct-1''"
  "userId ex_account = Some ''acct-1''"
  by (simp_all add: ex_show_def ex_row_def ex_account_def)

lemma ex_rows:
  "remoteRowsOf (ex_account_world xs [ex_row ''X'', ex_row ''Y'']) ex_account = [ex_row ''X'', ex_row ''Y'']"
  "remoteRowsOf (ex_account_world xs [ex_row ''X'']) ex_account = [ex_row ''X'']"
  by (simp_all add: remoteRowsOf_def ex_account_world_simps)

lemma ex_account_world_net:
  "storageFaults ((ex_account_world xs rows)\<lparr>network := n\<rparr>) = []"
  "isSessionValid (clock ((ex_account_world xs rows)\<lparr>network := n\<rparr>))
     (local_session ((ex_account_world xs rows)\<lparr>network := n\<rparr>))"
  "storedShows ((ex_account_world xs rows)\<lparr>network := n\<rparr>) ''shows_ann_x_org'' = xs"
  "remoteTable ((ex_account_world xs rows)\<lparr>network := n\<rparr>) = rows"
  "remoteRowsOf ((ex_account_world xs rows)\<lparr>network := n\<rparr>) ex_account = remoteRowsOf (ex_account_world xs rows) ex_account"
  "currentIdentity (Some ex_account) ((ex_account_world xs rows)\<lparr>network := n\<rparr>) = Some ex_account"
  "network ((ex_account_world xs rows)\<lparr>network := n\<rparr>) = n"
  using ex_account_world_simps[of xs rows]
  by (simp_all add: storedShows_def remoteRowsOf_def currentIdentity_def)

theorem getUserShows_compact_rebuild_witness:
  "stringIds (fst (getUserShows (Some ex_account)
      (ex_account_world [ex_show (IdStr ''X'') ''X''] [ex_row ''X'', ex_row ''Y'']))) = [''X'', ''Y''] \<and>
   fst (getUserShows (Some ex_account)
      (ex_account_world [ex_show (IdStr ''X'') ''X''] [ex_row ''X'', ex_row ''Y'']))
     = [ex_show (IdStr ''X'') ''X'', placeholder (ex_row ''Y'')] \<and>
   needsRefresh (placeholder (ex_row ''Y'')) = Some True \<and>
   local_shows (snd (getUserShows (Some ex_account)
      (ex_account_world [ex_show (IdStr ''X'') ''X''] [ex_row ''X'', ex_row ''Y''])))
      ''shows_ann_x_org'' = Some [ex_show (IdStr ''X'') ''X'', placeholder (ex_row ''Y'')] \<and>
   map row_show_id (remoteTable (snd (getUserShows (Some ex_account)
      (ex_account_world [ex_show (IdStr ''X'') ''X''] [ex_row ''X''])))) = [IdStr ''X''] \<and>
   fst (getUserShows (Some ex_account)
      ((ex_account_world [ex_show (IdStr ''X'') ''X''] [ex_row ''X'', ex_row ''Y''])
         \<lparr>network := [NetOk, NetHttpError ''500'']\<rparr>))
     = [ex_show (IdStr ''X'') ''X'', placeholder (ex_row ''Y'')] \<and>
   remoteTable (snd (getUserShows (Some ex_account)
      ((ex_account_world [ex_show (IdStr ''X'') ''X''] [ex_row ''X'', ex_row ''Y''])
         \<lparr>network := [NetOk, NetHttpError ''500'']\<rparr>)))
     = [ex_row ''X'', ex_row ''Y'']"
proof -
  let ?w = "ex_account_world [ex_show (IdStr ''X'') ''X''] [ex_row ''X'', ex_row ''Y'']"
  let ?v = "?w\<lparr>network := [NetOk, NetHttpError ''500'']\<rparr>"
  let ?z = "ex_account_world [ex_show (IdStr ''X'') ''X''] [ex_row ''X'']"
  have ci: "\<And>w. currentIdentity (Some ex_account) w = Some ex_account"
    by (simp add: currentIdentity_def)
  have m: "missingRows [ex_show (IdStr ''X'') ''X''] [ex_row ''X'', ex_row ''Y''] = [ex_row ''Y'']"
    "missingRows [ex_show (IdStr ''X'') ''X''] [ex_row ''X''] = []"
    by (simp_all add: missingRows_def stringIds_def)
  have n1: "fst (net_call ?w) = NetOk" "fst (net_call (snd (net_call ?w))) = NetOk"
    "fst (net_call ?z) = NetOk"
    by (simp_all add: net_call_def ex_account_world_simps)
  have n2: "fst (net_call ?v) = NetOk" "fst (net_call (snd (net_call ?v))) = NetHttpError ''500''"
    by (simp_all add: net_call_def)
  have r: "remoteRowsOf ?w ex_account \<noteq> []" "remoteRowsOf ?v ex_account \<noteq> []"
    "remoteRowsOf ?z ex_account \<noteq> []"
    by (simp_all add: ex_rows ex_account_world_net)
  from getUserShows_compact_rebuild[OF ex_account_world_simps(1,3) ci ex_keys(2)
        ex_account_remote n1(1) r(1)] n1(2)
  have a: "fst (getUserShows (Some ex_account) ?w) = [ex_show (IdStr ''X'') ''X'', placeholder (ex_row ''Y'')]"
    "local_shows (snd (getUserShows (Some ex_account) ?w)) ''shows_ann_x_org''
       = Some [ex_show (IdStr ''X'') ''X'', placeholder (ex_row ''Y'')]"
    by (simp_all add: m ex_rows ex_account_world_simps)
  from getUserShows_compact_rebuild[OF ex_account_world_net(1,2) ci ex_keys(2)
        ex_account_remote n2(1) r(2)] n2(2)
  have b: "fst (getUserShows (Some ex_account) ?v) = [ex_show (IdStr ''X'') ''X'', placeholder (ex_row ''Y'')]"
    "remoteTable (snd (getUserShows (Some ex_account) ?v)) = [ex_row ''X'', ex_row ''Y'']"
    by (simp_all add: m ex_rows ex_account_world_net)
  from getUserShows_compact_rebuild[OF ex_account_world_simps(1,3) ci ex_keys(2)
        ex_account_remote n1(3) r(3)]
  have c: "remoteTable (snd (getUserShows (Some ex_account) ?z)) = [ex_row ''X'']"
    by (simp add: m ex_rows ex_account_world_simps)
  show ?thesis
    unfolding a b c
    by (simp add: stringIds_def placeholder_fields)
qed

text \<open>
  Claim C1, as stated, at a concrete world: the remote tier returns the row of X, the local
  tier holds X and Z, so no remote id is missing locally. \<open>getUserShows\<close> returns the
  local list and writes nothing: the remote table still holds the row of X alone, the list
  that is returned has not been upserted.
\<close>

theorem getUserShows_no_missing_counterexample:
  "getUserShows (Some ex_account)
      (ex_account_world [ex_show (IdStr ''X'') ''X'', ex_show (IdStr ''Z'') ''Z''] [ex_row ''X''])
   = ([ex_show (IdStr ''X'') ''X'', ex_show (IdStr ''Z'') ''Z''],
      ex_account_world [ex_show (IdStr ''X'') ''X'', ex_show (IdStr ''Z'') ''Z''] [ex_row ''X'']) \<and>
   remoteTable (snd (getUserShows (Some ex_account)
      (ex_account_world [ex_show (IdStr ''X'') ''X'', ex_show (IdStr ''Z'') ''Z''] [ex_row ''X''])))
   = [ex_row ''X'']"
proof -
  let ?w = "ex_account_world [ex_show (IdStr ''X'') ''X'', ex_show (IdStr ''Z'') ''Z''] [ex_row ''X'']"
  have ci: "currentIdentity (Some ex_account) ?w = Some ex_account"
    by (simp add: currentIdentity_def)
  have m: "missingRows [ex_show (IdStr ''X'') ''X'', ex_show (IdStr ''Z'') ''Z''] [ex_row ''X''] = []"
    by (simp add: missingRows_def stringIds_def)
  have "getUserShows (Some ex_account) ?w = getUserShows_quiet ex_account ''shows_ann_x_org'' ?w"
    by (rule getUserShows_quiet[OF ex_account_world_simps(1,2) ci ex_keys(2)])
  then show ?thesis
    by (simp add: getUserShows_quiet_def Let_def ex_account_world_simps ex_account_remote m ex_rows)
qed

lemma getStorageData_currentUser:
  "storageFaults w = [] \<Longrightarrow>
   getStorageData sync_currentUser local_currentUser w = (storedCurrentUser w, w)"
  by (simp add: getStorageData_ok storedCurrentUser_def)

lemma local_shows_setCurrentUser [simp]: "local_shows (setCurrentUser u w) = local_shows w"
proof -
  have lo: "local_only (\<lambda>w'. local_shows w' = local_shows w)" by (simp add: local_only_def)
  from inv_setCurrentUser[OF lo, of w u] show ?thesis by simp
qed

lemma distinct_merge:
  "distinct (map f xs) \<Longrightarrow> distinct (map f ys) \<Longrightarrow>
   distinct (map f (xs @ filter (\<lambda>y. f y \<notin> set (map f xs)) ys))"
  by (auto simp: distinct_map_filter) (metis imageI)

lemma migrate_quiet:
  assumes "storageFaults w = []" "network w = []" "storedCurrentUser w = Some prev"
    "truthy_string (email prev) = None" "\<not> isSupabaseUser (Some prev)"
    "getUserShowsKey (UserObject prev) = Some pk" "getUserShowsKey (UserObject new) = Some nk"
    "pk \<noteq> nk"
  shows "migratePrevUserToNewUser (Some new) w =
     (if storedShows w pk = [] then w
      else
        (let newShows = fst (getUserShows_quiet new nk w);
             w3 = snd (getUserShows_quiet new nk w);
             showsToAdd = filter (\<lambda>s. String_id (show_id s) \<notin> set (stringIds newShows))
                            (storedShows w pk)
         in if showsToAdd = [] then w3
            else saveUserShows_quiet (newShows @ showsToAdd) new nk w3))"
proof -
  have gp: "getUserShows (Some prev) w = (storedShows w pk, w)"
    using getUserShows_quiet[OF assms(1,2) _ assms(6), of "Some prev"] assms(5)
    by (simp add: currentIdentity_def getUserShows_quiet_def Let_def)
  have gn: "getUserShows (Some new) w = getUserShows_quiet new nk w"
    by (rule getUserShows_quiet[OF assms(1,2) _ assms(7)]) (simp add: currentIdentity_def)
  have sv: "\<And>xs. saveUserShows xs (Some new) (snd (getUserShows_quiet new nk w))
            = saveUserShows_quiet xs new nk (snd (getUserShows_quiet new nk w))"
    by (rule saveUserShows_quiet) (simp_all add: get_quiet_frame assms currentIdentity_def)
  show ?thesis
    using assms(3,4,6,7,8)
    by (simp add: migratePrevUserToNewUser_def getStorageData_currentUser[OF assms(1)] gp gn
          Let_def split_beta sv)
qed

lemma migrate_merge_answered:
  assumes "storageFaults w = []" "network w = []" "storedCurrentUser w = Some prev"
    "truthy_string (email prev) = None" "\<not> isSupabaseUser (Some prev)"
    "getUserShowsKey (UserObject prev) = Some pk" "getUserShowsKey (UserObject new) = Some nk"
    "pk \<noteq> nk"
  shows
   "(storedShows w pk \<noteq> [] \<longrightarrow>
       storedShows (migratePrevUserToNewUser (Some new) w) nk =
         fst (getUserShows (Some new) w) @
         filter (\<lambda>s. String_id (show_id s) \<notin> set (stringIds (fst (getUserShows (Some new) w))))
                (storedShows w pk) \<and>
       (distinct (stringIds (fst (getUserShows (Some new) w))) \<and>
        distinct (stringIds (storedShows w pk)) \<longrightarrow>
          distinct (stringIds (storedShows (migratePrevUserToNewUser (Some new) w) nk))) \<and>
       (filter (\<lambda>s. String_id (show_id s) \<notin> set (stringIds (fst (getUserShows (Some new) w))))
               (storedShows w pk) \<noteq> [] \<and>
        isSupabaseUser (Some new) \<and> isSessionValid (clock w) (local_session w) \<longrightarrow>
          remoteTable (migratePrevUserToNewUser (Some new) w) =
            upsertRows
              (mapShowsToSupabaseRows (userId new) (clock w)
                 (storedShows (migratePrevUserToNewUser (Some new) w) nk))
              (remoteTable (snd (getUserShows (Some new) w))))) \<and>
    (storedShows w pk = [] \<longrightarrow> migratePrevUserToNewUser (Some new) w = w) \<and>
    local_shows (migratePrevUserToNewUser (Some new) w) pk = local_shows w pk \<and>
    local_shows (snd (handleAuthSuccess new w)) =
      local_shows (migratePrevUserToNewUser (Some new) w)"
proof -
  let ?g = "getUserShows_quiet new nk w"
  let ?add = "filter (\<lambda>s. String_id (show_id s) \<notin> set (stringIds (fst ?g))) (storedShows w pk)"
  note m = migrate_quiet[OF assms]
  have gn: "getUserShows (Some new) w = ?g"
    by (rule getUserShows_quiet[OF assms(1,2) _ assms(7)]) (simp add: currentIdentity_def)
  have stored: "storedShows w pk \<noteq> [] \<Longrightarrow>
      storedShows (migratePrevUserToNewUser (Some new) w) nk = fst ?g @ ?add"
    by (simp add: m Let_def get_quiet_stored save_quiet_frame storedShows_def[of "saveUserShows_quiet _ _ _ _"])
  have dist: "distinct (stringIds (fst ?g)) \<Longrightarrow> distinct (stringIds (storedShows w pk)) \<Longrightarrow>
      distinct (stringIds (fst ?g @ ?add))"
    unfolding stringIds_def by (rule distinct_merge)
  have remote: "?add \<noteq> [] \<and> isSupabaseUser (Some new) \<and>
      isSessionValid (clock w) (local_session w) \<longrightarrow>
      remoteTable (migratePrevUserToNewUser (Some new) w) =
        upsertRows (mapShowsToSupabaseRows (userId new) (clock w)
                      (storedShows (migratePrevUserToNewUser (Some new) w) nk))
          (remoteTable (snd ?g))" if "storedShows w pk \<noteq> []"
    using that
    by (simp add: m Let_def saveUserShows_quiet_def get_quiet_frame pushToRemote_def storedShows_def)
  have noshows: "storedShows w pk = [] \<Longrightarrow> migratePrevUserToNewUser (Some new) w = w"
    by (simp add: m)
  have other: "local_shows (migratePrevUserToNewUser (Some new) w) pk = local_shows w pk"
    using assms(8) by (simp add: m Let_def get_quiet_other save_quiet_frame)
  have mw: "mergeWithStoredUser new w = (new, w)"
    using assms(3,6,7,8)
    by (simp add: mergeWithStoredUser_def getStorageData_currentUser[OF assms(1)] Let_def)
  have auth: "local_shows (snd (handleAuthSuccess new w)) =
      local_shows (migratePrevUserToNewUser (Some new) w)"
    by (simp add: handleAuthSuccess_def mw ensure_key[OF assms(7)] Let_def)
  show ?thesis
    unfolding gn using stored dist remote noshows other auth by presburger
qed

lemma migrate_rejected_fetch:
  assumes "storageFaults w = []" "storedCurrentUser w = Some prev"
    "truthy_string (email prev) = None" "\<not> isSupabaseUser (Some prev)"
    "getUserShowsKey (UserObject prev) = Some pk" "getUserShowsKey (UserObject new) = Some nk"
    "pk \<noteq> nk" "isSupabaseUser (Some new)" "isSessionValid (clock w) (local_session w)"
    "network w = NetReject # rest" "storedShows w pk \<noteq> []"
  shows "storedShows (migratePrevUserToNewUser (Some new) w) nk = storedShows w pk"
proof -
  have rp: "resolveUser (Some prev) w = (Inr (Some prev), w)" by (rule resolveUser_Some)
  have gp: "getUserShows (Some prev) w = (storedShows w pk, w)"
    by (rule getUserShows_local[OF assms(1) rp assms(5,4)])
  have gn: "getUserShows (Some new) w = ([], w\<lparr>network := rest\<rparr>)"
    by (rule getUserShows_remote_reject[OF assms(1) _ assms(6,8,9,10)]) (simp add: currentIdentity_def)
  have sv: "local_shows (saveUserShows (storedShows w pk) (Some new) (w\<lparr>network := rest\<rparr>))
             = (local_shows (w\<lparr>network := rest\<rparr>))(nk := Some (storedShows w pk))"
    by (rule save_any[OF _ _ assms(6)]) (simp_all add: assms(1) currentIdentity_def)
  show ?thesis
    using assms(2,3,5,6,7,11)
    by (simp add: migratePrevUserToNewUser_def getStorageData_currentUser[OF assms(1)] gp gn
          Let_def stringIds_Nil storedShows_def[of "saveUserShows _ _ _"] sv)
qed

lemma handleAuthSuccess_local:
  assumes "storageFaults w = []" "storedCurrentUser w = Some prev"
    "getUserShowsKey (UserObject prev) = Some pk" "getUserShowsKey (UserObject new) = Some nk"
    "pk \<noteq> nk"
  shows "local_shows (snd (handleAuthSuccess new w)) =
           local_shows (migratePrevUserToNewUser (Some new) w)"
proof -
  have mw: "mergeWithStoredUser new w = (new, w)"
    using assms(2-5)
    by (simp add: mergeWithStoredUser_def getStorageData_currentUser[OF assms(1)] Let_def)
  show ?thesis
    by (simp add: handleAuthSuccess_def mw ensure_key[OF assms(4)] Let_def)
qed


lemma validShows_Nil [simp]: "validShows parse now [] = []"
  by (simp add: validShows_def)

lemma validShows_Cons [simp]:
  "validShows parse now (e # es) =
     (case e of
        None \<Rightarrow> validShows parse now es
      | Some s \<Rightarrow> if truthy_id (show_id s) then cleanImported parse now s # validShows parse now es
                  else validShows parse now es)"
  by (simp add: validShows_def hasId_def split: option.splits)






lemma ex_guest_world_simps:
  "storageFaults (ex_guest_world xs) = []"
  "network (ex_guest_world xs) = []"
  "storedCurrentUser (ex_guest_world xs) = Some ex_guest"
  "currentIdentity None (ex_guest_world xs) = Some ex_guest"
  "storedShows (ex_guest_world xs) ''shows_user_g_1'' = xs"
  "clock (ex_guest_world xs) = ex_now"
  by (simp_all add: ex_guest_world_def ex_world_def storedCurrentUser_def currentIdentity_def
        storedShows_def)

lemma ex_guest_not_remote: "\<not> isSupabaseUser (Some ex_guest)"
  by (simp add: isSupabaseUser_def ex_guest_def)

lemma ex_guest_get:
  "getUserShows None (ex_guest_world xs) = (xs, ex_guest_world xs)"
  using getUserShows_quiet[OF ex_guest_world_simps(1,2,4) ex_keys(1), of xs]
  by (simp add: getUserShows_quiet_def Let_def ex_guest_world_simps ex_guest_not_remote)



lemma ex_signin_world_simps:
  "storageFaults ex_signin_world = []"
  "network ex_signin_world = []"
  "storedCurrentUser ex_signin_world = Some ex_guest"
  "storedShows ex_signin_world ''shows_user_g_1'' = [ex_show (IdStr ''A'') ''A'', ex_show (IdStr ''B'') ''B'']"
  "storedShows ex_signin_world ''shows_ann_x_org'' = [ex_show (IdStr ''B'') ''B'', ex_show (IdStr ''C'') ''C'']"
  "isSessionValid (clock ex_signin_world) (local_session ex_signin_world)"
  "remoteRowsOf ex_signin_world ex_account = [ex_row ''B'', ex_row ''C'']"
  by (simp_all add: ex_signin_world_def ex_world_def storedCurrentUser_def storedShows_def
        isSessionValid_def ex_session_def remoteRowsOf_def)

text \<open>
  Claim C4 does not hold of the code. At the sign-in of the example the guest holds A and B
  and the account holds B and C. When the requests are answered, the migration stores B, C, A
  for the account and upserts their rows, as the claim says. When the fetch of the
  account's list is rejected, \<open>getUserShows\<close> returns the empty list for the account,
  every show of the guest counts as new, and the migration stores A, B in place of the
  account's B, C.
\<close>

theorem migratePrevUserToNewUser_rejected_fetch_overwrites:
  "storedShows ex_signin_world ''shows_user_g_1''
     = [ex_show (IdStr ''A'') ''A'', ex_show (IdStr ''B'') ''B''] \<and>
   storedShows ex_signin_world ''shows_ann_x_org''
     = [ex_show (IdStr ''B'') ''B'', ex_show (IdStr ''C'') ''C''] \<and>
   storedShows (migratePrevUserToNewUser (Some ex_account) (ex_signin_world\<lparr>network := [NetReject]\<rparr>))
      ''shows_ann_x_org''
     = [ex_show (IdStr ''A'') ''A'', ex_show (IdStr ''B'') ''B''] \<and>
   storedShows (snd (handleAuthSuccess ex_account (ex_signin_world\<lparr>network := [NetReject]\<rparr>)))
      ''shows_ann_x_org''
     = [ex_show (IdStr ''A'') ''A'', ex_show (IdStr ''B'') ''B''] \<and>
   storedShows (migratePrevUserToNewUser (Some ex_account) ex_signin_world) ''shows_ann_x_org''
     = [ex_show (IdStr ''B'') ''B'', ex_show (IdStr ''C'') ''C'', ex_show (IdStr ''A'') ''A''] \<and>
   map row_show_id (remoteTable (migratePrevUserToNewUser (Some ex_account) ex_signin_world))
     = [IdStr ''B'', IdStr ''C'', IdStr ''A'']"
proof -
  let ?wr = "ex_signin_world\<lparr>network := [NetReject]\<rparr>"
  have e: "truthy_string (email ex_guest) = None" by (simp add: ex_guest_def)
  have ne: "''shows_user_g_1'' \<noteq> ''shows_ann_x_org''" by simp
  have r: "storageFaults ?wr = []" "storedCurrentUser ?wr = Some ex_guest"
    "isSessionValid (clock ?wr) (local_session ?wr)" "network ?wr = NetReject # []"
    "storedShows ?wr ''shows_user_g_1'' = [ex_show (IdStr ''A'') ''A'', ex_show (IdStr ''B'') ''B'']"
    by (simp_all add: ex_signin_world_def ex_world_def storedCurrentUser_def storedShows_def
          isSessionValid_def ex_session_def)
  have rej: "storedShows (migratePrevUserToNewUser (Some ex_account) ?wr) ''shows_ann_x_org''
      = [ex_show (IdStr ''A'') ''A'', ex_show (IdStr ''B'') ''B'']"
    using migrate_rejected_fetch[OF r(1,2) e ex_guest_not_remote ex_keys(1) ex_keys(2) ne
        ex_account_remote r(3,4)]
    by (simp add: r(5))
  have ci: "currentIdentity (Some ex_account) ex_signin_world = Some ex_account"
    by (simp add: currentIdentity_def)
  have m: "missingRows [ex_show (IdStr ''B'') ''B'', ex_show (IdStr ''C'') ''C'']
             [ex_row ''B'', ex_row ''C''] = []"
    by (simp add: missingRows_def stringIds_def)
  have g: "getUserShows (Some ex_account) ex_signin_world
      = ([ex_show (IdStr ''B'') ''B'', ex_show (IdStr ''C'') ''C''], ex_signin_world)"
    using getUserShows_quiet[OF ex_signin_world_simps(1,2) ci ex_keys(2)]
    by (simp add: getUserShows_quiet_def Let_def ex_signin_world_simps ex_account_remote m)
  note a = migrate_merge_answered[OF ex_signin_world_simps(1,2,3) e ex_guest_not_remote
      ex_keys(1) ex_keys(2) ne]
  have ok: "storedShows (migratePrevUserToNewUser (Some ex_account) ex_signin_world) ''shows_ann_x_org''
     = [ex_show (IdStr ''B'') ''B'', ex_show (IdStr ''C'') ''C'', ex_show (IdStr ''A'') ''A'']"
    using a by (simp add: ex_signin_world_simps g stringIds_def)
  have rt: "remoteTable ex_signin_world = [ex_row ''B'', ex_row ''C'']"
    by (simp add: ex_signin_world_def)
  have rem: "remoteTable (migratePrevUserToNewUser (Some ex_account) ex_signin_world) =
      upsertRows (mapShowsToSupabaseRows (userId ex_account) (clock ex_signin_world)
         [ex_show (IdStr ''B'') ''B'', ex_show (IdStr ''C'') ''C'', ex_show (IdStr ''A'') ''A''])
        [ex_row ''B'', ex_row ''C'']"
    using a ok by (simp add: ex_signin_world_simps g stringIds_def ex_account_remote rt)
  have rows: "map row_show_id (upsertRows (mapShowsToSupabaseRows (userId ex_account) (clock ex_signin_world)
         [ex_show (IdStr ''B'') ''B'', ex_show (IdStr ''C'') ''C'', ex_show (IdStr ''A'') ''A''])
        [ex_row ''B'', ex_row ''C'']) = [IdStr ''B'', IdStr ''C'', IdStr ''A'']"
    by (simp add: upsertRows_def upsertRow_def same_row_key_def mapShowsToSupabaseRows_def ex_row_def)
  have auth: "storedShows (snd (handleAuthSuccess ex_account ?wr)) ''shows_ann_x_org''
      = storedShows (migratePrevUserToNewUser (Some ex_account) ?wr) ''shows_ann_x_org''"
    using handleAuthSuccess_local[OF r(1,2) ex_keys(1) ex_keys(2) ne]
    by (simp add: storedShows_def)
  show ?thesis
    using rej ok rows by (simp add: auth rem ex_signin_world_simps)
qed

theorem watchedEpisode_never_negative_witness:
  "progressInvariant ex_update_world \<and>
   progressInvariant (updateSequence [(IdStr ''A'', - 1), (IdNum 82, - 5), (IdNum 82, 1)] ex_update_world) \<and>
   storedShows (updateWatchedProgress (IdNum 82) (- 5) ex_update_world) ''shows_user_g_1''
     = [ex_show (IdStr ''A'') ''A'', (ex_show (IdNum 82) ''B'')\<lparr>watchedEpisode := Some 0\<rparr>] \<and>
   storedShows (updateWatchedProgress (IdStr ''A'') 1 ex_update_world) ''shows_user_g_1''
     = [(ex_show (IdStr ''A'') ''A'')\<lparr>watchedEpisode := Some 1\<rparr>,
        (ex_show (IdNum 82) ''B'')\<lparr>watchedEpisode := Some 3\<rparr>]"
proof -
  note h = ex_guest_world_simps[of "[ex_show (IdStr ''A'') ''A'',
                     (ex_show (IdNum 82) ''B'')\<lparr>watchedEpisode := Some 3\<rparr>]", folded ex_update_world_def]
  have g: "getUserShows None ex_update_world =
     ([ex_show (IdStr ''A'') ''A'', (ex_show (IdNum 82) ''B'')\<lparr>watchedEpisode := Some 3\<rparr>],
      ex_update_world)"
    unfolding ex_update_world_def by (rule ex_guest_get)
  have inv: "progressInvariant ex_update_world"
    by (simp add: progressInvariant_def ex_update_world_def ex_guest_world_def watchedNonNeg_def)
  from watchedEpisode_never_negative[where w = ex_update_world and u = ex_guest
        and k = "''shows_user_g_1''" and showId = "IdNum 82" and delta = "- 5" and i = 1
        and ups = "[(IdStr ''A'', - 1), (IdNum 82, - 5), (IdNum 82, 1)]"]
    watchedEpisode_never_negative[where w = ex_update_world and u = ex_guest
        and k = "''shows_user_g_1''" and showId = "IdStr ''A''" and delta = 1 and i = 0
        and ups = "[]"]
  show ?thesis
    by (simp add: inv h ex_keys g)
qed

text \<open>
  Claim C8 does not hold of the code. The account holds X in the local tier and has a valid
  session. When the fetch from the remote tier is rejected, \<open>getUserShows\<close> returns the
  empty list, although the local tier still holds X; when the same fetch is answered with an
  HTTP error, \<open>getUserShows\<close> returns the local list, as the claim says.
\<close>

theorem getUserShows_rejected_fetch_returns_empty:
  "storedShows ((ex_account_world [ex_show (IdStr ''X'') ''X''] [ex_row ''X''])
                  \<lparr>network := [NetReject]\<rparr>) ''shows_ann_x_org'' = [ex_show (IdStr ''X'') ''X''] \<and>
   fst (getUserShows (Some ex_account)
          ((ex_account_world [ex_show (IdStr ''X'') ''X''] [ex_row ''X''])
             \<lparr>network := [NetReject]\<rparr>)) = [] \<and>
   storedShows (snd (getUserShows (Some ex_account)
          ((ex_account_world [ex_show (IdStr ''X'') ''X''] [ex_row ''X''])
             \<lparr>network := [NetReject]\<rparr>))) ''shows_ann_x_org'' = [ex_show (IdStr ''X'') ''X''] \<and>
   fst (getUserShows (Some ex_account)
          ((ex_account_world [ex_show (IdStr ''X'') ''X''] [ex_row ''X''])
             \<lparr>network := [NetHttpError ''503'']\<rparr>)) = [ex_show (IdStr ''X'') ''X'']"
proof -
  let ?w = "ex_account_world [ex_show (IdStr ''X'') ''X''] [ex_row ''X'']"
  note h = ex_account_world_net[where xs = "[ex_show (IdStr ''X'') ''X'']" and rows = "[ex_row ''X'']"
      and n = "[NetReject]"]
  note e = ex_account_world_net[where xs = "[ex_show (IdStr ''X'') ''X'']" and rows = "[ex_row ''X'']"
      and n = "[NetHttpError ''503'']"]
  have rej: "getUserShows (Some ex_account) (?w\<lparr>network := [NetReject]\<rparr>)
      = ([], ?w\<lparr>network := [NetReject], network := []\<rparr>)"
    by (rule getUserShows_remote_reject[OF h(1) h(6) ex_keys(2) ex_account_remote h(2)]) simp
  have err: "fst (getUserShows (Some ex_account) (?w\<lparr>network := [NetHttpError ''503'']\<rparr>))
      = storedShows (?w\<lparr>network := [NetHttpError ''503'']\<rparr>) ''shows_ann_x_org''"
    using getUserShows_remote_error[OF e(1) e(6) ex_keys(2) ex_account_remote] by simp
  show ?thesis
    unfolding rej err by (simp add: h e storedShows_def ex_account_world_def)
qed

subsection \<open>Source adapters\<close>

text \<open>
  Claim C9 does not hold of the code. When \<open>fetch\<close> rejects, \<open>searchShowsByGenre\<close>
  ends with that rejection, and so it does on a body that is not JSON; \<open>fetchShow\<close> and
  \<open>fetchEpisodes\<close> end with the rejection of \<open>res.json()\<close> on such a body. On a
  rejected \<open>fetch\<close> the siblings \<open>fetchShow\<close>, \<open>fetchEpisodes\<close> and
  \<open>lookupByImdb\<close> return null or the empty list, as the claim says.
\<close>

theorem searchShowsByGenre_rejects:
  "searchShowsByGenre genre FetchRejected = Inl FetchFailed \<and>
   searchShowsByGenre genre (Fetched \<lparr>status_code = 200, json_body = None\<rparr>)
     = Inl JsonSyntaxError \<and>
   fetchShow (\<lambda>i. Fetched \<lparr>status_code = 200, json_body = (None :: api_show option)\<rparr>)
     = Inl JsonSyntaxError \<and>
   fetchEpisodes (\<lambda>i. Fetched \<lparr>status_code = 200, json_body = None\<rparr>) = Inl JsonSyntaxError \<and>
   fetchShow (\<lambda>i. (FetchRejected :: api_show fetch_result)) = Inr None \<and>
   fetchEpisodes (\<lambda>i. FetchRejected) = Inr [] \<and>
   lookupByImdb FetchRejected = Inr None"
  by (simp add: searchShowsByGenre_def fetchShow_def fetchEpisodes_def lookupByImdb_def
        fetchWithRetry_def response_ok_def numeral_2_eq_2)

end
